(* ===== verification/Prelude.thy ===== *)
theory Prelude
  imports Complex_Main "HOL-Library.Sublist" "HOL-Library.List_Lexorder" "HOL-Library.Char_ord"
    "HOL-Library.AList"
begin

text \<open>
  The prelude of the development: Python's exceptions as values, the result type every
  fallible operation returns, the small effect monad of the run loop (a result together
  with the state of the world the injected callables live in), folds over lists that stop
  at the first exception, and the generic lemmas the components share.

  An operation that may raise returns \<open>'a res\<close>: \<open>Inl e\<close> for the exception and
  \<open>Inr x\<close> for the value. An operation that calls an injected callable (a clock, an id
  source, an executor, a subprocess) is an \<open>('w, 'a) io\<close>: it also returns the new state
  of the world, because the effects made before an exception stay made.
\<close>

named_theorems res_simps "rewrite rules of the result and effect monads"
named_theorems get_simps "reads of documents and of rendered records"

section \<open>Exceptions and results\<close>

datatype pyerr =
    KeyError string
  | IndexError
  | AttributeError
  | TypeError
  | ValueError string
  | PermissionError string
  | OSError string
  | CalledProcessError
  | TransportError
  | DeadlineExceeded
  | SqlError string
  | UnicodeError
  | NotImplementedError string

type_synonym 'a res = "pyerr + 'a"

definition bindR :: "'a res \<Rightarrow> ('a \<Rightarrow> 'b res) \<Rightarrow> 'b res" where
  "bindR m f = (case m of Inl e \<Rightarrow> Inl e | Inr x \<Rightarrow> f x)"

lemma bindR_simps [simp, res_simps]:
  "bindR (Inl e) f = Inl e"
  "bindR (Inr x) f = f x"
  by (simp_all add: bindR_def)

lemma bindR_Inr_iff [res_simps]: "bindR m f = Inr y \<longleftrightarrow> (\<exists>x. m = Inr x \<and> f x = Inr y)"
  by (cases m) (auto simp: bindR_def)

lemma bindR_Inl_iff: "bindR m f = Inl e \<longleftrightarrow> m = Inl e \<or> (\<exists>x. m = Inr x \<and> f x = Inl e)"
  by (cases m) (auto simp: bindR_def)

lemma bindR_assoc: "bindR (bindR m f) g = bindR m (\<lambda>x. bindR (f x) g)"
  by (cases m) auto

lemma bindR_cong [fundef_cong]:
  assumes "m = m'" and "\<And>x. m' = Inr x \<Longrightarrow> f x = f' x"
  shows "bindR m f = bindR m' f'"
  using assms by (cases m') auto

section \<open>Loops over a list that stop at the first exception\<close>

primrec mapR :: "('a \<Rightarrow> 'b res) \<Rightarrow> 'a list \<Rightarrow> 'b list res" where
  "mapR f [] = Inr []"
| "mapR f (x # xs) = bindR (f x) (\<lambda>y. bindR (mapR f xs) (\<lambda>ys. Inr (y # ys)))"

primrec foldR :: "('s \<Rightarrow> 'a \<Rightarrow> 's res) \<Rightarrow> 's \<Rightarrow> 'a list \<Rightarrow> 's res" where
  "foldR f s [] = Inr s"
| "foldR f s (x # xs) = bindR (f s x) (\<lambda>s'. foldR f s' xs)"

text \<open>Python's \<open>any\<close> and \<open>all\<close> over a generator stop at the deciding element.\<close>

primrec anyR :: "('a \<Rightarrow> bool res) \<Rightarrow> 'a list \<Rightarrow> bool res" where
  "anyR p [] = Inr False"
| "anyR p (x # xs) = bindR (p x) (\<lambda>b. if b then Inr True else anyR p xs)"

primrec allR :: "('a \<Rightarrow> bool res) \<Rightarrow> 'a list \<Rightarrow> bool res" where
  "allR p [] = Inr True"
| "allR p (x # xs) = bindR (p x) (\<lambda>b. if b then allR p xs else Inr False)"

lemma mapR_cong [fundef_cong]:
  "xs = ys \<Longrightarrow> (\<And>x. x \<in> set ys \<Longrightarrow> f x = g x) \<Longrightarrow> mapR f xs = mapR g ys"
  by (induction xs arbitrary: ys) auto

lemma mapR_pure [simp, res_simps]: "mapR (\<lambda>x. Inr (f x)) xs = Inr (map f xs)"
  by (induction xs) auto

lemma mapR_Inr: "(\<And>x. x \<in> set xs \<Longrightarrow> f x = Inr (g x)) \<Longrightarrow> mapR f xs = Inr (map g xs)"
  by (induction xs) auto

lemma mapR_length: "mapR f xs = Inr ys \<Longrightarrow> length ys = length xs"
  by (induction xs arbitrary: ys) (auto simp: bindR_Inr_iff)

lemma mapR_all2: "mapR f xs = Inr ys \<Longrightarrow> list_all2 (\<lambda>x y. f x = Inr y) xs ys"
  by (induction xs arbitrary: ys) (auto simp: bindR_Inr_iff)

lemma mapR_mem:
  "mapR f xs = Inr ys \<Longrightarrow> y \<in> set ys \<Longrightarrow> \<exists>x \<in> set xs. f x = Inr y"
  by (induction xs arbitrary: ys) (auto simp: bindR_Inr_iff)

lemma mapR_append:
  "mapR f (xs @ ys) = bindR (mapR f xs) (\<lambda>us. bindR (mapR f ys) (\<lambda>vs. Inr (us @ vs)))"
  by (induction xs) (auto simp: bindR_assoc bindR_def split: sum.splits)

lemma foldR_append: "foldR f s (xs @ ys) = bindR (foldR f s xs) (\<lambda>s'. foldR f s' ys)"
  by (induction xs arbitrary: s) (auto simp: bindR_assoc)

lemma foldR_pure [simp, res_simps]: "foldR (\<lambda>s x. Inr (f s x)) s xs = Inr (foldl f s xs)"
  by (induction xs arbitrary: s) auto

lemma foldR_Inr:
  "(\<And>s x. x \<in> set xs \<Longrightarrow> f s x = Inr (g s x)) \<Longrightarrow> foldR f s xs = Inr (foldl g s xs)"
  by (induction xs arbitrary: s) auto

lemma foldR_invariant:
  assumes "foldR f s xs = Inr s'" and "P s"
    and "\<And>s x s'. x \<in> set xs \<Longrightarrow> P s \<Longrightarrow> f s x = Inr s' \<Longrightarrow> P s'"
  shows "P s'"
  using assms
proof (induction xs arbitrary: s)
  case Nil
  then show ?case by simp
next
  case (Cons x xs)
  from Cons.prems(1) obtain t where t: "f s x = Inr t" "foldR f t xs = Inr s'"
    by (auto simp: bindR_Inr_iff)
  show ?case
    by (rule Cons.IH [OF t(2)]) (use Cons.prems t in auto)
qed

lemma anyR_pure [simp, res_simps]: "anyR (\<lambda>x. Inr (p x)) xs = Inr (\<exists>x \<in> set xs. p x)"
  by (induction xs) auto

lemma anyR_Inr:
  "(\<And>x. x \<in> set xs \<Longrightarrow> f x = Inr (p x)) \<Longrightarrow> anyR f xs = Inr (\<exists>x \<in> set xs. p x)"
  by (induction xs) auto

lemma allR_pure [simp, res_simps]: "allR (\<lambda>x. Inr (p x)) xs = Inr (\<forall>x \<in> set xs. p x)"
  by (induction xs) auto

lemma allR_Inr:
  "(\<And>x. x \<in> set xs \<Longrightarrow> f x = Inr (p x)) \<Longrightarrow> allR f xs = Inr (\<forall>x \<in> set xs. p x)"
  by (induction xs) auto

section \<open>Effects\<close>

type_synonym ('w, 'a) io = "'w \<Rightarrow> 'a res \<times> 'w"

definition retI :: "'a \<Rightarrow> ('w, 'a) io" where
  "retI a = (\<lambda>w. (Inr a, w))"

definition raiseI :: "pyerr \<Rightarrow> ('w, 'a) io" where
  "raiseI e = (\<lambda>w. (Inl e, w))"

definition liftI :: "'a res \<Rightarrow> ('w, 'a) io" where
  "liftI r = (\<lambda>w. (r, w))"

definition bindI :: "('w, 'a) io \<Rightarrow> ('a \<Rightarrow> ('w, 'b) io) \<Rightarrow> ('w, 'b) io" where
  "bindI m f = (\<lambda>w. case m w of (Inl e, w') \<Rightarrow> (Inl e, w') | (Inr a, w') \<Rightarrow> f a w')"

primrec foldI :: "('s \<Rightarrow> 'a \<Rightarrow> ('w, 's) io) \<Rightarrow> 's \<Rightarrow> 'a list \<Rightarrow> ('w, 's) io" where
  "foldI f s [] = retI s"
| "foldI f s (x # xs) = bindI (f s x) (\<lambda>s'. foldI f s' xs)"

text \<open>
  \<open>try: m / except E as exc: h\<close>: the handler is chosen by the exception and runs in the
  world \<open>m\<close> left; \<open>None\<close> lets the exception go on. \<open>finally\<close> runs in both cases.
\<close>

definition catchI :: "('w, 'a) io \<Rightarrow> (pyerr \<Rightarrow> ('w, 'a) io option) \<Rightarrow> ('w, 'a) io" where
  "catchI m h = (\<lambda>w. case m w of
      (Inl e, w') \<Rightarrow> (case h e of None \<Rightarrow> (Inl e, w') | Some k \<Rightarrow> k w')
    | (Inr a, w') \<Rightarrow> (Inr a, w'))"

definition finallyI :: "('w, 'a) io \<Rightarrow> ('w, unit) io \<Rightarrow> ('w, 'a) io" where
  "finallyI m c = (\<lambda>w. case m w of (r, w') \<Rightarrow>
     (case c w' of (Inl e, w'') \<Rightarrow> (Inl e, w'') | (Inr _, w'') \<Rightarrow> (r, w'')))"

text \<open>An effect on a part of the world, beside a state \<open>'u\<close> of the object that makes it.\<close>

definition onW :: "('w, 'a) io \<Rightarrow> ('w \<times> 'u, 'a) io" where
  "onW m = (\<lambda>(w, u). case m w of (r, w') \<Rightarrow> (r, (w', u)))"

definition onU :: "('u \<Rightarrow> 'u) \<Rightarrow> ('w \<times> 'u, unit) io" where
  "onU f = (\<lambda>(w, u). (Inr (), (w, f u)))"

lemma onW_app [simp]: "onW m (w, u) = (fst (m w), (snd (m w), u))"
  by (simp add: onW_def split: prod.splits)

lemma onU_app [simp]: "onU f (w, u) = (Inr (), (w, f u))"
  by (simp add: onU_def)

lemma retI_app [simp, res_simps]: "retI a w = (Inr a, w)"
  by (simp add: retI_def)

lemma raiseI_app [simp, res_simps]: "raiseI e w = (Inl e, w)"
  by (simp add: raiseI_def)

lemma liftI_app [simp, res_simps]: "liftI r w = (r, w)"
  by (simp add: liftI_def)

lemma bindI_app: "bindI m f w = (case m w of (Inl e, w') \<Rightarrow> (Inl e, w') | (Inr a, w') \<Rightarrow> f a w')"
  by (simp add: bindI_def)

lemma bindI_lift: "bindI (liftI (Inr x)) f = f x"
  by (rule ext) (simp add: bindI_def)

lemma bindI_ret [simp, res_simps]: "bindI (retI a) f = f a"
  by (rule ext) (simp add: bindI_def)

lemma bindI_Inr_iff [res_simps]:
  "bindI m f w = (Inr b, w'') \<longleftrightarrow> (\<exists>a w'. m w = (Inr a, w') \<and> f a w' = (Inr b, w''))"
  by (auto simp: bindI_def split: prod.splits sum.splits)

lemma catchI_Inr_iff:
  "catchI m h w = (Inr b, w'') \<longleftrightarrow>
     m w = (Inr b, w'') \<or> (\<exists>e w' k. m w = (Inl e, w') \<and> h e = Some k \<and> k w' = (Inr b, w''))"
  by (auto simp: catchI_def split: prod.splits sum.splits option.splits)

lemma foldI_invariant:
  assumes "foldI f s xs w = (Inr s', w')" and "P s"
    and "\<And>s x w s' w'. x \<in> set xs \<Longrightarrow> P s \<Longrightarrow> f s x w = (Inr s', w') \<Longrightarrow> P s'"
  shows "P s'"
  using assms
proof (induction xs arbitrary: s w)
  case Nil
  then show ?case by simp
next
  case (Cons x xs)
  from Cons.prems(1) obtain t u
    where t: "f s x w = (Inr t, u)" "foldI f t xs u = (Inr s', w')"
    by (auto simp: bindI_Inr_iff)
  show ?case
  proof (rule Cons.IH [OF t(2)])
    show "P t" using Cons.prems(2,3) t(1) by (meson list.set_intros(1))
    show "P s'" if "x \<in> set xs" "P s" "f s x w = (Inr s', w')" for s x w s' w'
      using Cons.prems(3) that by (meson list.set_intros(2))
  qed
qed

section \<open>Lists and association lists\<close>

text \<open>
  A Python dict keeps the order of first insertion: an update of a present key replaces
  the value in place, an absent key is appended. This is \<open>AList.update\<close>.
\<close>

lemma map_of_update [simp]: "map_of (AList.update k v al) = (map_of al)(k \<mapsto> v)"
  by (rule update_conv')

lemma nth_append_length_update [simp]: "(xs @ [x])[length xs := y] = xs @ [y]"
  by simp

lemma list_update_append_last: "i < length xs \<Longrightarrow> (xs @ [x])[i := y] = xs[i := y] @ [x]"
  by (rule list_update_append1)

lemma filter_length_zero_iff: "length (filter p xs) = 0 \<longleftrightarrow> (\<forall>x \<in> set xs. \<not> p x)"
  by (simp add: filter_empty_conv)

lemma append_eq_sep_iff:
  assumes "c \<notin> set xs" and "c \<notin> set us"
  shows "xs @ c # ys = us @ c # vs \<longleftrightarrow> xs = us \<and> ys = vs"
  using assms
proof (induction xs arbitrary: us)
  case Nil
  then show ?case by (cases us) auto
next
  case (Cons x xs)
  then show ?case by (cases us) auto
qed

end
