(* ===== verification/PyVal.thy ===== *)
theory PyVal
  imports Prelude
begin

text \<open>
  The dynamically typed values the program reads from YAML and JSON and passes around as
  \<open>dict[str, Any]\<close>, with the Python operations the source applies to them: truthiness,
  \<open>d.get(k)\<close>, \<open>d[k]\<close>, iteration, \<open>==\<close>, membership in a set,
  \<open>str()\<close>, \<open>int()\<close>, \<open><\<close> and \<open>encode()\<close>. An operation on a
  value of the wrong type raises as Python does (\<open>Inl\<close>).

  Bounds of the model. Strings hold the code points below 256 (Isabelle's \<open>char\<close>). Keys
  of dicts are strings. A finite float is the rational its shortest representation denotes
  and is printed positionally; infinities and NaN are left out.
\<close>

datatype val =
    VNone
  | VBool bool
  | VInt int
  | VFloat rat
  | VStr string
  | VList "val list"
  | VDict "(string \<times> val) list"

section \<open>Truth value\<close>

fun truthy :: "val \<Rightarrow> bool" where
  "truthy VNone = False"
| "truthy (VBool b) = b"
| "truthy (VInt i) = (i \<noteq> 0)"
| "truthy (VFloat q) = (q \<noteq> 0)"
| "truthy (VStr s) = (s \<noteq> [])"
| "truthy (VList xs) = (xs \<noteq> [])"
| "truthy (VDict kvs) = (kvs \<noteq> [])"

definition or_else :: "val \<Rightarrow> val \<Rightarrow> val" where
  "or_else v d = (if truthy v then v else d)"

section \<open>Reading containers\<close>

definition dict_of :: "val \<Rightarrow> (string \<times> val) list res" where
  "dict_of v = (case v of VDict kvs \<Rightarrow> Inr kvs | _ \<Rightarrow> Inl AttributeError)"

definition dget :: "(string \<times> val) list \<Rightarrow> string \<Rightarrow> val" where
  "dget kvs k = (case map_of kvs k of None \<Rightarrow> VNone | Some v \<Rightarrow> v)"

definition dget_or :: "(string \<times> val) list \<Rightarrow> string \<Rightarrow> val \<Rightarrow> val" where
  "dget_or kvs k d = (case map_of kvs k of None \<Rightarrow> d | Some v \<Rightarrow> v)"

text \<open>\<open>v.get(k)\<close>, \<open>v.get(k, d)\<close> and \<open>v[k]\<close> for a string \<open>k\<close>.\<close>

definition get :: "val \<Rightarrow> string \<Rightarrow> val res" where
  "get v k = bindR (dict_of v) (\<lambda>kvs. Inr (dget kvs k))"

definition get_or :: "val \<Rightarrow> string \<Rightarrow> val \<Rightarrow> val res" where
  "get_or v k d = bindR (dict_of v) (\<lambda>kvs. Inr (dget_or kvs k d))"

definition item :: "val \<Rightarrow> string \<Rightarrow> val res" where
  "item v k = (case v of
      VDict kvs \<Rightarrow> (case map_of kvs k of None \<Rightarrow> Inl (KeyError k) | Some x \<Rightarrow> Inr x)
    | _ \<Rightarrow> Inl TypeError)"

definition is_dict :: "val \<Rightarrow> bool" where
  "is_dict v = (case v of VDict _ \<Rightarrow> True | _ \<Rightarrow> False)"

definition is_str :: "val \<Rightarrow> bool" where
  "is_str v = (case v of VStr _ \<Rightarrow> True | _ \<Rightarrow> False)"

definition is_none :: "val \<Rightarrow> bool" where
  "is_none v = (case v of VNone \<Rightarrow> True | _ \<Rightarrow> False)"

text \<open>The elements a \<open>for\<close> loop visits.\<close>

definition iter :: "val \<Rightarrow> val list res" where
  "iter v = (case v of
      VList xs \<Rightarrow> Inr xs
    | VDict kvs \<Rightarrow> Inr (map (VStr \<circ> fst) kvs)
    | VStr s \<Rightarrow> Inr (map (\<lambda>c. VStr [c]) s)
    | _ \<Rightarrow> Inl TypeError)"

text \<open>\<open>d.get(k1) and d.get(k2) and ...\<close>, as a truth value.\<close>

primrec all_truthy :: "val \<Rightarrow> string list \<Rightarrow> bool res" where
  "all_truthy v [] = Inr True"
| "all_truthy v (k # ks) =
     bindR (get v k) (\<lambda>x. if truthy x then all_truthy v ks else Inr False)"

lemma dict_of_VDict [simp]: "dict_of (VDict kvs) = Inr kvs"
  by (simp add: dict_of_def)

lemma get_VDict [simp, get_simps]: "get (VDict kvs) k = Inr (dget kvs k)"
  by (simp add: get_def)

lemma get_or_VDict [simp, get_simps]: "get_or (VDict kvs) k d = Inr (dget_or kvs k d)"
  by (simp add: get_or_def)

lemma get_Inr_iff: "get v k = Inr x \<longleftrightarrow> (\<exists>kvs. v = VDict kvs \<and> x = dget kvs k)"
  by (cases v) (auto simp: get_def dict_of_def)

lemma get_or_Inr_iff: "get_or v k d = Inr x \<longleftrightarrow> (\<exists>kvs. v = VDict kvs \<and> x = dget_or kvs k d)"
  by (cases v) (auto simp: get_or_def dict_of_def)

lemma item_Inr_iff: "item v k = Inr x \<longleftrightarrow> (\<exists>kvs. v = VDict kvs \<and> map_of kvs k = Some x)"
  by (cases v) (auto simp: item_def split: option.splits)

lemma item_VDict [simp]:
  "item (VDict kvs) k = (case map_of kvs k of None \<Rightarrow> Inl (KeyError k) | Some x \<Rightarrow> Inr x)"
  by (simp add: item_def)

lemma iter_VList [simp]: "iter (VList xs) = Inr xs"
  by (simp add: iter_def)

lemma all_truthy_VDict [simp]:
  "all_truthy (VDict kvs) ks = Inr (\<forall>k \<in> set ks. truthy (dget kvs k))"
  by (induction ks) auto

lemma dget_update [simp]:
  "dget (AList.update k v kvs) k' = (if k = k' then v else dget kvs k')"
  by (simp add: dget_def)

lemma dget_or_update [simp]:
  "dget_or (AList.update k v kvs) k' d = (if k = k' then v else dget_or kvs k' d)"
  by (simp add: dget_or_def)

lemma dget_Some: "map_of kvs k = Some v \<Longrightarrow> dget kvs k = v"
  by (simp add: dget_def)

lemma is_dict_simps [simp]:
  "is_dict (VDict kvs)" "\<not> is_dict VNone" "\<not> is_dict (VStr s)" "\<not> is_dict (VList xs)"
  "\<not> is_dict (VBool b)" "\<not> is_dict (VInt i)" "\<not> is_dict (VFloat q)"
  by (simp_all add: is_dict_def)

lemma is_str_simps [simp]:
  "is_str (VStr s)" "\<not> is_str VNone" "\<not> is_str (VDict kvs)" "\<not> is_str (VList xs)"
  "\<not> is_str (VBool b)" "\<not> is_str (VInt i)" "\<not> is_str (VFloat q)"
  by (simp_all add: is_str_def)

lemma is_none_iff [simp]: "is_none v \<longleftrightarrow> v = VNone"
  by (cases v) (simp_all add: is_none_def)

section \<open>Equality and order\<close>

text \<open>Python compares bool, int and float by numeric value.\<close>

fun num_of :: "val \<Rightarrow> rat option" where
  "num_of (VBool b) = Some (if b then 1 else 0)"
| "num_of (VInt i) = Some (of_int i)"
| "num_of (VFloat q) = Some q"
| "num_of _ = None"

lemma val_size_mem: "(k, v) \<in> set kvs \<Longrightarrow> size v < size (VDict kvs)"
  by (induction kvs) auto

lemma val_size_list: "v \<in> set xs \<Longrightarrow> size v < size (VList xs)"
  by (induction xs) auto

function py_eq :: "val \<Rightarrow> val \<Rightarrow> bool" where
  "py_eq a b = (case (a, b) of
      (VNone, VNone) \<Rightarrow> True
    | (VStr s, VStr t) \<Rightarrow> s = t
    | (VList xs, VList ys) \<Rightarrow>
        length xs = length ys \<and> (\<forall>(x, y) \<in> set (zip xs ys). py_eq x y)
    | (VDict kvs, VDict lvs) \<Rightarrow>
        length kvs = length lvs \<and>
        (\<forall>(k, x) \<in> set kvs. case map_of lvs k of None \<Rightarrow> False | Some y \<Rightarrow> py_eq x y)
    | _ \<Rightarrow> (case (num_of a, num_of b) of (Some x, Some y) \<Rightarrow> x = y | _ \<Rightarrow> False))"
  by pat_completeness auto
termination
  by (relation "measure (\<lambda>(a, b). size a)")
     (auto dest!: set_zip_leftD val_size_mem val_size_list)

declare py_eq.simps [simp del]

lemma py_eq_simps [simp]:
  "py_eq VNone v \<longleftrightarrow> v = VNone"
  "py_eq v VNone \<longleftrightarrow> v = VNone"
  "py_eq (VStr s) v \<longleftrightarrow> v = VStr s"
  "py_eq v (VStr s) \<longleftrightarrow> v = VStr s"
  "py_eq (VInt i) (VInt j) \<longleftrightarrow> i = j"
  "py_eq (VBool b) (VBool c) \<longleftrightarrow> b = c"
  "py_eq (VFloat p) (VFloat q) \<longleftrightarrow> p = q"
  "py_eq (VInt i) (VBool c) \<longleftrightarrow> i = (if c then 1 else 0)"
  "py_eq (VInt i) (VFloat q) \<longleftrightarrow> of_int i = q"
  by (cases v; auto simp: py_eq.simps; fail)+

lemma py_eq_VList:
  "py_eq (VList xs) (VList ys) \<longleftrightarrow> length xs = length ys \<and> (\<forall>(x, y) \<in> set (zip xs ys). py_eq x y)"
  by (subst py_eq.simps) simp

lemma py_eq_VDict:
  "py_eq (VDict kvs) (VDict lvs) \<longleftrightarrow> length kvs = length lvs \<and>
     (\<forall>(k, x) \<in> set kvs. case map_of lvs k of None \<Rightarrow> False | Some y \<Rightarrow> py_eq x y)"
  by (subst py_eq.simps) simp

text \<open>Membership in a set needs a hashable value; lists and dicts are not.\<close>

definition hashable :: "val \<Rightarrow> bool" where
  "hashable v = (case v of VList _ \<Rightarrow> False | VDict _ \<Rightarrow> False | _ \<Rightarrow> True)"

definition in_set :: "val \<Rightarrow> val list \<Rightarrow> bool res" where
  "in_set v xs = (if hashable v then Inr (\<exists>x \<in> set xs. py_eq x v) else Inl TypeError)"

text \<open>\<open>set(xs)\<close>, and \<open>{x.get(field) for x in xs}\<close> with the hash taken at each insertion.\<close>

definition mk_set :: "val list \<Rightarrow> val list res" where
  "mk_set xs = (if (\<forall>x \<in> set xs. hashable x) then Inr xs else Inl TypeError)"

definition set_of_field :: "string \<Rightarrow> val list \<Rightarrow> val list res" where
  "set_of_field field xs =
     mapR (\<lambda>x. bindR (get x field) (\<lambda>k. if hashable k then Inr k else Inl TypeError)) xs"

lemma hashable_simps [simp]:
  "hashable VNone" "hashable (VStr s)" "hashable (VInt i)" "hashable (VBool b)" "hashable (VFloat q)"
  "\<not> hashable (VList xs)" "\<not> hashable (VDict kvs)"
  by (simp_all add: hashable_def)

text \<open>\<open>a < b\<close> and \<open>a <= b\<close> on numbers and on strings; other pairs raise.\<close>

definition py_lt :: "val \<Rightarrow> val \<Rightarrow> bool res" where
  "py_lt a b = (case (num_of a, num_of b) of
      (Some x, Some y) \<Rightarrow> Inr (x < y)
    | _ \<Rightarrow> (case (a, b) of (VStr s, VStr t) \<Rightarrow> Inr (s < t) | _ \<Rightarrow> Inl TypeError))"

definition py_le :: "val \<Rightarrow> val \<Rightarrow> bool res" where
  "py_le a b = (case (num_of a, num_of b) of
      (Some x, Some y) \<Rightarrow> Inr (x \<le> y)
    | _ \<Rightarrow> (case (a, b) of (VStr s, VStr t) \<Rightarrow> Inr (s \<le> t) | _ \<Rightarrow> Inl TypeError))"

section \<open>Strings\<close>

definition digit_char :: "nat \<Rightarrow> char" where
  "digit_char d = char_of (48 + d)"

fun nat_str :: "nat \<Rightarrow> string" where
  "nat_str n = (if n < 10 then [digit_char n] else nat_str (n div 10) @ [digit_char (n mod 10)])"

declare nat_str.simps [simp del]

definition int_str :: "int \<Rightarrow> string" where
  "int_str i = (if i < 0 then ''-'' @ nat_str (nat (- i)) else nat_str (nat i))"

text \<open>Digits after the point of a finite decimal, at most \<open>n\<close> of them.\<close>

fun frac_str :: "nat \<Rightarrow> rat \<Rightarrow> string" where
  "frac_str 0 q = []"
| "frac_str (Suc n) q =
     (let d = \<lfloor>10 * q\<rfloor>; r = 10 * q - of_int d
      in digit_char (nat d) # (if r = 0 then [] else frac_str n r))"

definition float_str :: "rat \<Rightarrow> string" where
  "float_str q = (let a = \<bar>q\<bar>; i = \<lfloor>a\<rfloor> in
     (if q < 0 then ''-'' else []) @ int_str i @ ''.'' @ frac_str 21 (a - of_int i))"

definition hex_digit :: "nat \<Rightarrow> char" where
  "hex_digit d = (if d < 10 then char_of (48 + d) else char_of (87 + d))"

definition repr_char :: "char \<Rightarrow> char \<Rightarrow> string" where
  "repr_char quote c = (let n = of_char c :: nat in
     if c = quote \<or> c = CHR 92 then [CHR 92, c]
     else if n = 10 then [CHR 92, CHR ''n'']
     else if n = 13 then [CHR 92, CHR ''r'']
     else if n = 9 then [CHR 92, CHR ''t'']
     else if n < 32 \<or> (127 \<le> n \<and> n \<le> 160) \<or> n = 173
       then [CHR 92, CHR ''x'', hex_digit (n div 16), hex_digit (n mod 16)]
     else [c])"

definition repr_string :: "string \<Rightarrow> string" where
  "repr_string s = (let q = (if CHR 39 \<in> set s \<and> CHR 34 \<notin> set s then CHR 34 else CHR 39)
     in [q] @ concat (map (repr_char q) s) @ [q])"

fun join :: "string \<Rightarrow> string list \<Rightarrow> string" where
  "join sep [] = []"
| "join sep [s] = s"
| "join sep (s # t # ss) = s @ sep @ join sep (t # ss)"

fun py_repr :: "val \<Rightarrow> string" where
  "py_repr VNone = ''None''"
| "py_repr (VBool b) = (if b then ''True'' else ''False'')"
| "py_repr (VInt i) = int_str i"
| "py_repr (VFloat q) = float_str q"
| "py_repr (VStr s) = repr_string s"
| "py_repr (VList xs) = ''['' @ join '', '' (map py_repr xs) @ '']''"
| "py_repr (VDict kvs) =
     ''{'' @ join '', '' (map (\<lambda>kv. repr_string (fst kv) @ '': '' @ py_repr (snd kv)) kvs) @ ''}''"

text \<open>\<open>str(v)\<close>: a string is itself, anything else its representation.\<close>

definition py_str :: "val \<Rightarrow> string" where
  "py_str v = (case v of VStr s \<Rightarrow> s | _ \<Rightarrow> py_repr v)"

lemma py_str_simps [simp]:
  "py_str (VStr s) = s"
  "py_str VNone = ''None''"
  "py_str (VInt i) = int_str i"
  "py_str (VBool b) = (if b then ''True'' else ''False'')"
  by (simp_all add: py_str_def)

text \<open>\<open>s.startswith(p)\<close>, \<open>s.endswith(p)\<close> and UTF-8 \<open>s.encode()\<close>.\<close>

definition startswith :: "string \<Rightarrow> string \<Rightarrow> bool" where
  "startswith s p = (take (length p) s = p)"

lemma startswith_prefix: "startswith s p \<longleftrightarrow> prefix p s"
  by (metis append_eq_conv_conj append_take_drop_id prefix_def startswith_def)

definition utf8_char :: "char \<Rightarrow> char list" where
  "utf8_char c = (let n = of_char c :: nat in
     if n < 128 then [c] else [char_of (192 + n div 64), char_of (128 + n mod 64)])"

definition py_encode :: "string \<Rightarrow> char list" where
  "py_encode s = concat (map utf8_char s)"

section \<open>Numbers from values\<close>

definition is_space :: "char \<Rightarrow> bool" where
  "is_space c = (let n = of_char c :: nat in
     n = 32 \<or> (9 \<le> n \<and> n \<le> 13) \<or> (28 \<le> n \<and> n \<le> 31) \<or> n = 133 \<or> n = 160)"

definition strip :: "string \<Rightarrow> string" where
  "strip s = rev (dropWhile is_space (rev (dropWhile is_space s)))"

definition is_digit :: "char \<Rightarrow> bool" where
  "is_digit c = (let n = of_char c :: nat in 48 \<le> n \<and> n \<le> 57)"

text \<open>Digits, with single underscores between digits allowed, as \<open>int()\<close> accepts.\<close>

fun digits_val :: "nat \<Rightarrow> string \<Rightarrow> nat option" where
  "digits_val acc [] = Some acc"
| "digits_val acc (c # cs) =
     (if is_digit c then digits_val (10 * acc + (of_char c - 48)) cs
      else if c = CHR ''_'' \<and> cs \<noteq> [] \<and> is_digit (hd cs)
        then digits_val (10 * acc + (of_char (hd cs) - 48)) (tl cs)
      else None)"

definition parse_int :: "string \<Rightarrow> int option" where
  "parse_int s = (let t = strip s;
       neg = (t \<noteq> [] \<and> hd t = CHR ''-'');
       u = (if t \<noteq> [] \<and> (hd t = CHR ''-'' \<or> hd t = CHR ''+'') then tl t else t)
     in if u = [] \<or> \<not> is_digit (hd u) then None
        else map_option (\<lambda>n. if neg then - int n else int n) (digits_val 0 u))"

definition trunc_float :: "rat \<Rightarrow> int" where
  "trunc_float q = (if q < 0 then - \<lfloor>- q\<rfloor> else \<lfloor>q\<rfloor>)"

definition py_int :: "val \<Rightarrow> int res" where
  "py_int v = (case v of
      VBool b \<Rightarrow> Inr (if b then 1 else 0)
    | VInt i \<Rightarrow> Inr i
    | VFloat q \<Rightarrow> Inr (trunc_float q)
    | VStr s \<Rightarrow> (case parse_int s of None \<Rightarrow> Inl (ValueError ''invalid literal for int()'') | Some i \<Rightarrow> Inr i)
    | _ \<Rightarrow> Inl TypeError)"

lemma py_int_VInt [simp]: "py_int (VInt i) = Inr i"
  by (simp add: py_int_def)

text \<open>
  \<open>float(v)\<close>: a string is a decimal literal, with an optional exponent. The exact decimal
  value is kept; infinities and NaN are left out (their spellings raise here).
\<close>

definition digits_opt :: "string \<Rightarrow> nat option" where
  "digits_opt s = (if s = [] then Some 0 else if is_digit (hd s) then digits_val 0 s else None)"

definition parse_exponent :: "string \<Rightarrow> int option" where
  "parse_exponent s = (if s = [] then Some 0 else if \<exists>c \<in> set s. is_space c then None else parse_int (tl s))"

definition parse_float :: "string \<Rightarrow> rat option" where
  "parse_float s = (let t = strip s;
       neg = (t \<noteq> [] \<and> hd t = CHR ''-'');
       u = (if t \<noteq> [] \<and> (hd t = CHR ''-'' \<or> hd t = CHR ''+'') then tl t else t);
       m = takeWhile (\<lambda>c. c \<noteq> CHR ''e'' \<and> c \<noteq> CHR ''E'') u;
       i = takeWhile (\<lambda>c. c \<noteq> CHR ''.'') m; f = drop (length i + 1) m in
     if i = [] \<and> f = [] then None
     else (case (digits_opt i, digits_opt f, parse_exponent (drop (length m) u)) of
       (Some a, Some b, Some e) \<Rightarrow>
          (let x = of_nat a + of_nat b / 10 ^ length (filter is_digit f);
               y = (if 0 \<le> e then x * 10 ^ nat e else x / 10 ^ nat (- e))
           in Some (if neg then - y else y))
     | _ \<Rightarrow> None))"

definition py_float :: "val \<Rightarrow> rat res" where
  "py_float v = (case v of
      VBool b \<Rightarrow> Inr (if b then 1 else 0)
    | VInt i \<Rightarrow> Inr (of_int i)
    | VFloat q \<Rightarrow> Inr q
    | VStr s \<Rightarrow> (case parse_float s of None \<Rightarrow> Inl (ValueError ''could not convert string to float'') | Some q \<Rightarrow> Inr q)
    | _ \<Rightarrow> Inl TypeError)"

text \<open>A value passed where the code needs a \<open>str\<close>, a list of them, or an optional dict.\<close>

definition as_str :: "val \<Rightarrow> string res" where
  "as_str v = (case v of VStr s \<Rightarrow> Inr s | _ \<Rightarrow> Inl TypeError)"

definition as_strs :: "val \<Rightarrow> string list res" where
  "as_strs v = bindR (iter v) (mapR as_str)"

definition as_opt :: "(val \<Rightarrow> 'a res) \<Rightarrow> val \<Rightarrow> 'a option res" where
  "as_opt f v = (if v = VNone then Inr None else bindR (f v) (\<lambda>x. Inr (Some x)))"

lemma as_str_simps [simp]: "as_str (VStr s) = Inr s"
  by (simp add: as_str_def)

lemma as_str_Inr [simp]: "as_str v = Inr s \<longleftrightarrow> v = VStr s"
  by (cases v) (auto simp: as_str_def)

end
