(* ===== verification/Findings.thy ===== *)
theory Findings
  imports PyVal
begin

text \<open>
  Findings and severities of the validators (\<open>validation/_base.py\<close>) and the
  isolation-scope helpers (\<open>ledger/isolation.py\<close>) they share.
\<close>

section \<open>The severity catalogue\<close>

definition SEVERITY :: "(string \<times> string) list" where
  "SEVERITY = [
    (''LEDGER.SOURCE_VERSION_MISSING'', ''error''),
    (''LEDGER.EVIDENCE_REQUIRED'', ''error''),
    (''LEDGER.ACCEPTANCE_WEAK'', ''error''),
    (''LEDGER.BLOCKED_WITHOUT_OWNER'', ''error''),
    (''LEDGER.LEASE_OVERLAP'', ''error''),
    (''LEDGER.RECONCILE_INCONSISTENT'', ''error''),
    (''ISOLATION.SCOPE_MISSING'', ''error''),
    (''ISOLATION.PATH_OUTSIDE_ROOTS'', ''error''),
    (''ISOLATION.EVENT_SCOPE_MISMATCH'', ''error''),
    (''HASHCHAIN.BROKEN'', ''error''),
    (''LEDGER.NOT_COMMITTED'', ''error''),
    (''CHAIN.ORDER_INVALID'', ''error''),
    (''CHAIN.UPSTREAM_UNRECONCILED'', ''error''),
    (''CHAIN.LEASE_OVERLAP'', ''error''),
    (''AUDIT.IDENTITY_MISMATCH'', ''error''),
    (''AUDIT.VERSION_MISSING'', ''error''),
    (''AUDIT.VERSION_INCONSISTENT'', ''error''),
    (''MON.SOURCE_BINDING_MISSING'', ''error''),
    (''MON.SLO_MISSING_TARGET'', ''error''),
    (''MON.SIGNAL_REF_UNRESOLVED'', ''error''),
    (''MON.PROBE_MISSING'', ''warning''),
    (''INTAKE.SCHEMA_UNSUPPORTED'', ''error''),
    (''INTAKE.SOURCE_MISSING'', ''error''),
    (''INTAKE.APPROVAL_INSUFFICIENT'', ''error''),
    (''INTAKE.SCOPE_MISSING'', ''error''),
    (''INTAKE.NO_TASKS'', ''error''),
    (''INTAKE.TASK_FIELDS_MISSING'', ''error''),
    (''INTAKE.DEP_UNRESOLVED'', ''error''),
    (''HANDOVER.SOURCE_MISSING'', ''error''),
    (''HANDOVER.STATUS_INVALID'', ''error''),
    (''HANDOVER.GATE_NOT_PASSED'', ''error''),
    (''HANDOVER.NOT_RECONCILED'', ''error''),
    (''REMOTE.PAYLOAD_IDS_MISSING'', ''error''),
    (''REMOTE.PAYLOAD_NO_TODOS'', ''error''),
    (''REMOTE.PAYLOAD_CONTEXT_MISSING'', ''error''),
    (''REMOTE.PAYLOAD_EXECUTOR_ID_FORMAT'', ''error''),
    (''REMOTE.PAYLOAD_REPOSITORY_SHAPE'', ''error''),
    (''REMOTE.PAYLOAD_REPOSITORY_URL_SCHEME'', ''error''),
    (''REMOTE.PAYLOAD_REPOSITORY_REF'', ''error'')]"

record finding =
  rule_id :: string
  severity :: string
  message :: string

text \<open>\<open>finding(rule_id, message)\<close>; an id outside the catalogue raises \<open>KeyError\<close>.\<close>

definition mk_finding :: "string \<Rightarrow> string \<Rightarrow> finding res" where
  "mk_finding r m = (case map_of SEVERITY r of
      None \<Rightarrow> Inl (KeyError r)
    | Some s \<Rightarrow> Inr \<lparr>rule_id = r, severity = s, message = m\<rparr>)"

definition status_of :: "finding list \<Rightarrow> string" where
  "status_of findings =
     (let severities = severity ` set findings in
      if ''error'' \<in> severities then ''fail''
      else if ''warning'' \<in> severities then ''warn''
      else ''pass'')"

text \<open>\<open>if c: findings.append(finding(r, m))\<close>.\<close>

definition emit_if :: "bool \<Rightarrow> string \<Rightarrow> string \<Rightarrow> finding list \<Rightarrow> finding list res" where
  "emit_if c r m fs = (if c then bindR (mk_finding r m) (\<lambda>f. Inr (fs @ [f])) else Inr fs)"

definition finding_of :: "string \<Rightarrow> string \<Rightarrow> finding" where
  "finding_of r m = \<lparr>rule_id = r, severity = the (map_of SEVERITY r), message = m\<rparr>"

definition rule_ids :: "finding list \<Rightarrow> string set" where
  "rule_ids fs = rule_id ` set fs"

definition catalogued :: "string \<Rightarrow> bool" where
  "catalogued r = (map_of SEVERITY r \<noteq> None)"

lemma emit_if_catalogued [res_simps]:
  "catalogued r \<Longrightarrow> emit_if c r m fs = Inr (fs @ (if c then [finding_of r m] else []))"
  by (auto simp: emit_if_def mk_finding_def finding_of_def catalogued_def)

lemma rule_id_finding_of [simp]: "rule_id (finding_of r m) = r"
  by (simp add: finding_of_def)

lemma severity_finding_of: "severity (finding_of r m) = the (map_of SEVERITY r)"
  by (simp add: finding_of_def)

lemma rule_ids_simps [simp]:
  "rule_ids [] = {}"
  "rule_ids (f # fs) = insert (rule_id f) (rule_ids fs)"
  "rule_ids (fs @ gs) = rule_ids fs \<union> rule_ids gs"
  by (auto simp: rule_ids_def)

lemma rule_ids_if [simp]: "rule_ids (if c then fs else gs) = (if c then rule_ids fs else rule_ids gs)"
  by simp

lemma catalogued_ledger [simp, res_simps]:
  "catalogued ''LEDGER.SOURCE_VERSION_MISSING''" "catalogued ''LEDGER.EVIDENCE_REQUIRED''"
  "catalogued ''LEDGER.ACCEPTANCE_WEAK''" "catalogued ''LEDGER.BLOCKED_WITHOUT_OWNER''"
  "catalogued ''LEDGER.LEASE_OVERLAP''" "catalogued ''LEDGER.RECONCILE_INCONSISTENT''"
  "catalogued ''ISOLATION.SCOPE_MISSING''" "catalogued ''ISOLATION.PATH_OUTSIDE_ROOTS''"
  "catalogued ''ISOLATION.EVENT_SCOPE_MISMATCH''" "catalogued ''HASHCHAIN.BROKEN''"
  "catalogued ''LEDGER.NOT_COMMITTED''"
  by (simp_all add: catalogued_def SEVERITY_def)

lemma catalogued_documents [simp, res_simps]:
  "catalogued ''CHAIN.ORDER_INVALID''" "catalogued ''CHAIN.UPSTREAM_UNRECONCILED''"
  "catalogued ''CHAIN.LEASE_OVERLAP''" "catalogued ''AUDIT.IDENTITY_MISMATCH''"
  "catalogued ''AUDIT.VERSION_MISSING''" "catalogued ''AUDIT.VERSION_INCONSISTENT''"
  "catalogued ''MON.SOURCE_BINDING_MISSING''" "catalogued ''MON.SLO_MISSING_TARGET''"
  "catalogued ''MON.SIGNAL_REF_UNRESOLVED''" "catalogued ''MON.PROBE_MISSING''"
  "catalogued ''HANDOVER.SOURCE_MISSING''" "catalogued ''HANDOVER.STATUS_INVALID''"
  "catalogued ''HANDOVER.GATE_NOT_PASSED''" "catalogued ''HANDOVER.NOT_RECONCILED''"
  by (simp_all add: catalogued_def SEVERITY_def)

lemma catalogued_intake [simp, res_simps]:
  "catalogued ''INTAKE.SCHEMA_UNSUPPORTED''" "catalogued ''INTAKE.SOURCE_MISSING''"
  "catalogued ''INTAKE.APPROVAL_INSUFFICIENT''" "catalogued ''INTAKE.SCOPE_MISSING''"
  "catalogued ''INTAKE.NO_TASKS''" "catalogued ''INTAKE.TASK_FIELDS_MISSING''"
  "catalogued ''INTAKE.DEP_UNRESOLVED''"
  "catalogued ''REMOTE.PAYLOAD_IDS_MISSING''" "catalogued ''REMOTE.PAYLOAD_NO_TODOS''"
  "catalogued ''REMOTE.PAYLOAD_CONTEXT_MISSING''" "catalogued ''REMOTE.PAYLOAD_EXECUTOR_ID_FORMAT''"
  "catalogued ''REMOTE.PAYLOAD_REPOSITORY_SHAPE''" "catalogued ''REMOTE.PAYLOAD_REPOSITORY_URL_SCHEME''"
  "catalogued ''REMOTE.PAYLOAD_REPOSITORY_REF''"
  by (simp_all add: catalogued_def SEVERITY_def)

lemma SEVERITY_errors: "\<forall>(r, s) \<in> set SEVERITY. r = ''MON.PROBE_MISSING'' \<or> s = ''error''"
  by (simp add: SEVERITY_def)

text \<open>Every rule but the probe warning is an error, so a run or a receipt is refused on it.\<close>

lemma severity_error:
  "catalogued r \<Longrightarrow> r \<noteq> ''MON.PROBE_MISSING'' \<Longrightarrow> the (map_of SEVERITY r) = ''error''"
  using SEVERITY_errors by (fastforce simp: catalogued_def dest: map_of_SomeD)

section \<open>Isolation helpers\<close>

text \<open>\<open>path.startswith(rt)\<close> for a rt of any type: only strings are accepted.\<close>

definition startswith_val :: "string \<Rightarrow> val \<Rightarrow> bool res" where
  "startswith_val path rt = (case rt of VStr r \<Rightarrow> Inr (startswith path r) | _ \<Rightarrow> Inl TypeError)"

definition in_scope :: "string \<Rightarrow> val \<Rightarrow> bool res" where
  "in_scope path allowed_roots = bindR (iter allowed_roots) (anyR (startswith_val path))"

definition event_in_scope :: "val \<Rightarrow> val \<Rightarrow> val \<Rightarrow> bool res" where
  "event_in_scope event client_id project_id =
     bindR (get event ''client_id'') (\<lambda>c. if \<not> py_eq c client_id then Inr False else
     bindR (get event ''project_id'') (\<lambda>p. Inr (py_eq p project_id)))"

lemma startswith_val_VStr [simp]: "startswith_val path (VStr r) = Inr (startswith path r)"
  by (simp add: startswith_val_def)

lemma in_scope_strs [simp]:
  "in_scope path (VList (map VStr rs)) = Inr (\<exists>r \<in> set rs. prefix r path)"
  by (induction rs) (auto simp: in_scope_def startswith_prefix)

end
