(* ===== verification/HashChain.thy ===== *)
theory HashChain
  imports PyVal
begin

text \<open>
  The append-only ledger store (\<open>ledger/store.py\<close>): the hash of an event, the check of a
  hash chain and the append that extends it. \<open>H\<close> is \<open>hashlib.sha256(b).hexdigest()\<close>
  as a function from the bytes to the lower-case hex string; every result below holds for
  every function \<open>H\<close>, and the tamper result names an explicit collision of \<open>H\<close>
  as its only escape.
\<close>

type_synonym digest = "char list \<Rightarrow> string"

section \<open>Event hash\<close>

definition event_payload :: "int \<Rightarrow> string option \<Rightarrow> string \<Rightarrow> string \<Rightarrow> string \<Rightarrow> string" where
  "event_payload sequence previous_event_hash event_type subject_id stamp =
     int_str sequence @ ''|'' @ (case previous_event_hash of None \<Rightarrow> [] | Some p \<Rightarrow> p) @ ''|''
       @ event_type @ ''|'' @ subject_id @ ''|'' @ stamp"

definition compute_event_hash ::
  "digest \<Rightarrow> int \<Rightarrow> string option \<Rightarrow> string \<Rightarrow> string \<Rightarrow> string \<Rightarrow> string" where
  "compute_event_hash H sequence previous_event_hash event_type subject_id stamp =
     ''sha256:'' @ H (py_encode (event_payload sequence previous_event_hash event_type subject_id stamp))"

lemma compute_event_hash_nonempty [simp]: "compute_event_hash H n p et s t \<noteq> []"
  by (simp add: compute_event_hash_def)

section \<open>Verification of a chain\<close>

text \<open>
  One iteration of the loop of \<open>verify_chain\<close>: \<open>None\<close> is \<open>return False\<close>, and
  \<open>Some h\<close> goes on with \<open>prev_hash = h\<close>.
\<close>

definition verify_event :: "digest \<Rightarrow> nat \<Rightarrow> string option \<Rightarrow> val \<Rightarrow> string option res" where
  "verify_event H index prev_hash event =
     bindR (get event ''sequence'') (\<lambda>sq.
     if \<not> py_eq sq (VInt (int index + 1)) then Inr None else
     bindR (get event ''previous_event_hash'') (\<lambda>p.
     if \<not> py_eq (or_else p VNone) (case prev_hash of None \<Rightarrow> VNone | Some h \<Rightarrow> VStr h)
     then Inr None else
     bindR (bindR (item event ''sequence'') py_int) (\<lambda>n.
     bindR (item event ''event_type'') (\<lambda>et.
     bindR (item event ''subject_id'') (\<lambda>sid.
     bindR (item event ''at'') (\<lambda>t.
     bindR (get event ''event_hash'') (\<lambda>h.
     let expected = compute_event_hash H n prev_hash (py_str et) (py_str sid) (py_str t) in
     if \<not> py_eq h (VStr expected) then Inr None else Inr (Some (py_str h)))))))))"

fun verify_from :: "digest \<Rightarrow> nat \<Rightarrow> string option \<Rightarrow> val list \<Rightarrow> bool res" where
  "verify_from H index prev_hash [] = Inr True"
| "verify_from H index prev_hash (event # rest) =
     bindR (verify_event H index prev_hash event) (\<lambda>r. case r of
         None \<Rightarrow> Inr False
       | Some h \<Rightarrow> verify_from H (Suc index) (Some h) rest)"

definition verify_chain :: "digest \<Rightarrow> val list \<Rightarrow> bool res" where
  "verify_chain H execution_log = verify_from H 0 None execution_log"

section \<open>Appending an event\<close>

text \<open>
  \<open>chain_event\<close> builds \<open>new_event\<close> for a elog, \<open>append_log\<close> appends it and
  \<open>append_event\<close> is the whole operation on a ledger dict (with \<open>setdefault\<close>).
\<close>

definition chain_event ::
  "digest \<Rightarrow> val list \<Rightarrow> (string \<times> val) list \<Rightarrow> val res" where
  "chain_event H elog event =
     (let sq = int (length elog) + 1 in
      bindR (if elog = [] then Inr None
             else bindR (item (last elog) ''event_hash'') (\<lambda>h. Inr (Some (py_str h)))) (\<lambda>previous.
      let e1 = AList.update ''sequence'' (VInt sq) event;
          e2 = AList.update ''previous_event_hash''
                 (case previous of None \<Rightarrow> VNone | Some p \<Rightarrow> VStr p) e1 in
      bindR (item (VDict e2) ''event_type'') (\<lambda>et.
      bindR (item (VDict e2) ''subject_id'') (\<lambda>sid.
      bindR (item (VDict e2) ''at'') (\<lambda>t.
      Inr (VDict (AList.update ''event_hash''
        (VStr (compute_event_hash H sq previous (py_str et) (py_str sid) (py_str t))) e2)))))))"

definition append_log :: "digest \<Rightarrow> val list \<Rightarrow> (string \<times> val) list \<Rightarrow> val list res" where
  "append_log H elog event = bindR (chain_event H elog event) (\<lambda>e. Inr (elog @ [e]))"

definition append_event ::
  "digest \<Rightarrow> (string \<times> val) list \<Rightarrow> (string \<times> val) list \<Rightarrow> (string \<times> val) list res" where
  "append_event H ledger event =
     bindR (case dget_or ledger ''execution_log'' (VList []) of VList elog \<Rightarrow> Inr elog | _ \<Rightarrow> Inl AttributeError)
       (\<lambda>elog. bindR (append_log H elog event) (\<lambda>elog'.
          Inr (AList.update ''execution_log'' (VList elog') ledger)))"

section \<open>Facts about verified logs\<close>

text \<open>
  What a verified event looks like: the hash the next event must carry is the hash of the
  payload built from the event's own fields.
\<close>

definition event_fields :: "val \<Rightarrow> string \<times> string \<times> string" where
  "event_fields event = (case event of
      VDict kvs \<Rightarrow> (py_str (dget kvs ''event_type''), py_str (dget kvs ''subject_id''), py_str (dget kvs ''at''))
    | _ \<Rightarrow> ([], [], []))"

definition event_digest :: "digest \<Rightarrow> nat \<Rightarrow> string option \<Rightarrow> val \<Rightarrow> string" where
  "event_digest H index prev_hash event = (case event_fields event of (et, sid, t) \<Rightarrow>
     compute_event_hash H (int index + 1) prev_hash et sid t)"

lemma verify_event_Some:
  assumes "verify_event H index prev_hash event = Inr (Some h)"
  shows "\<exists>kvs. event = VDict kvs \<and> h = event_digest H index prev_hash event
           \<and> map_of kvs ''event_hash'' = Some (VStr h)"
proof -
  from assms obtain kvs where kvs: "event = VDict kvs"
    by (cases event) (auto simp: verify_event_def get_def dict_of_def)
  have "\<exists>i. x = VInt i \<or> (\<exists>b. x = VBool b) \<or> (\<exists>q. x = VFloat q)" if "py_eq x (VInt j)" for x j
    using that by (cases x) (auto simp: py_eq.simps)
  moreover have "py_int x = Inr j" if "py_eq x (VInt j)" for x j
    using that by (cases x) (auto simp: py_eq.simps py_int_def trunc_float_def)
  ultimately show ?thesis
    using assms unfolding kvs verify_event_def
    by (auto simp: bindR_Inr_iff Let_def event_digest_def event_fields_def dget_def
        split: if_splits option.splits)
qed

lemma verify_from_append:
  "verify_from H i p (xs @ ys) = Inr True \<Longrightarrow> verify_from H i p xs = Inr True"
  by (induction xs arbitrary: i p) (auto simp: bindR_Inr_iff split: option.splits)

text \<open>The \<open>prev_hash\<close> of the loop after a verified prefix.\<close>

definition last_hash :: "string option \<Rightarrow> val list \<Rightarrow> string option" where
  "last_hash p elog = (if elog = [] then p else
     (case last elog of VDict kvs \<Rightarrow> Some (py_str (dget kvs ''event_hash'')) | _ \<Rightarrow> None))"

lemma last_hash_snoc: "last_hash p (xs @ [VDict kvs]) = Some (py_str (dget kvs ''event_hash''))"
  by (simp add: last_hash_def)

lemma verify_from_snoc:
  assumes "verify_from H i p xs = Inr True"
  shows "verify_from H i p (xs @ ys) = verify_from H (i + length xs) (last_hash p xs) ys"
  using assms
proof (induction xs arbitrary: i p)
  case Nil
  then show ?case by (simp add: last_hash_def)
next
  case (Cons x xs)
  from Cons.prems obtain h where h: "verify_event H i p x = Inr (Some h)"
    and rest: "verify_from H (Suc i) (Some h) xs = Inr True"
    by (auto simp: bindR_Inr_iff split: option.splits)
  from verify_event_Some [OF h] obtain kvs where "x = VDict kvs" "map_of kvs ''event_hash'' = Some (VStr h)"
    by blast
  then have "last_hash (Some h) xs = last_hash p (x # xs)"
    by (auto simp: last_hash_def dget_def)
  with h Cons.IH [OF rest] show ?case by simp
qed

lemma verify_chain_prefix: "verify_chain H (xs @ ys) = Inr True \<Longrightarrow> verify_chain H xs = Inr True"
  unfolding verify_chain_def by (rule verify_from_append)

lemma chain_event_fields:
  assumes "chain_event H elog event = Inr e"
  shows "\<exists>kvs et sid t. e = VDict kvs
    \<and> map_of event ''event_type'' = Some et \<and> map_of event ''subject_id'' = Some sid
    \<and> map_of event ''at'' = Some t
    \<and> map_of kvs ''event_type'' = Some et \<and> map_of kvs ''subject_id'' = Some sid
    \<and> map_of kvs ''at'' = Some t
    \<and> map_of kvs ''sequence'' = Some (VInt (int (length elog) + 1))
    \<and> (\<forall>k. k \<notin> {''sequence'', ''previous_event_hash'', ''event_hash''}
         \<longrightarrow> map_of kvs k = map_of event k)"
  using assms
  by (auto simp: chain_event_def Let_def bindR_Inr_iff split: option.splits if_splits)

lemma append_log_Inr_iff:
  "append_log H elog event = Inr elog' \<longleftrightarrow> (\<exists>e. chain_event H elog event = Inr e \<and> elog' = elog @ [e])"
  by (auto simp: append_log_def bindR_Inr_iff)

text \<open>The hash a verified, non-empty log ends with is never the empty string.\<close>

lemma last_hash_nonempty:
  assumes "verify_chain H elog = Inr True" and "last_hash None elog = Some p"
  shows "p \<noteq> []"
proof -
  from assms(2) have "elog \<noteq> []" by (auto simp: last_hash_def)
  then obtain xs x where xs: "elog = xs @ [x]" by (metis append_butlast_last_id)
  with assms(1) have "verify_from H (length xs) (last_hash None xs) [x] = Inr True"
    using verify_from_snoc [of H 0 None xs "[x]"] verify_chain_prefix [of H xs "[x]"]
    by (simp add: verify_chain_def)
  then obtain h where h: "verify_event H (length xs) (last_hash None xs) x = Inr (Some h)"
    by (auto simp: bindR_Inr_iff split: option.splits)
  from verify_event_Some [OF h] assms(2) xs show ?thesis
    by (auto simp: last_hash_def dget_def event_digest_def split: prod.splits)
qed

lemma previous_is_last_hash:
  assumes "(if elog = [] then Inr None
      else bindR (item (last elog) ''event_hash'') (\<lambda>h. Inr (Some (py_str h)))) = Inr p"
  shows "p = last_hash None elog"
  using assms
  by (auto simp: last_hash_def item_Inr_iff bindR_Inr_iff dget_def split: if_splits)

text \<open>Chaining an event to a verified log gives an event the verifier accepts next.\<close>

lemma verify_chained_event:
  assumes ne: "\<And>q. p = Some q \<Longrightarrow> q \<noteq> []"
    and f: "map_of event ''event_type'' = Some et" "map_of event ''subject_id'' = Some sid"
      "map_of event ''at'' = Some t"
    and h: "h = compute_event_hash H (int n + 1) p (py_str et) (py_str sid) (py_str t)"
  shows "verify_event H n p (VDict (AList.update ''event_hash'' (VStr h)
     (AList.update ''previous_event_hash'' (case p of None \<Rightarrow> VNone | Some q \<Rightarrow> VStr q)
       (AList.update ''sequence'' (VInt (int n + 1)) event)))) = Inr (Some h)"
  using ne f by (cases p) (simp_all add: verify_event_def h or_else_def dget_def Let_def)

lemma chain_event_eq:
  assumes "chain_event H elog event = Inr e"
  shows "\<exists>et sid t. map_of event ''event_type'' = Some et \<and> map_of event ''subject_id'' = Some sid
    \<and> map_of event ''at'' = Some t \<and>
    e = VDict (AList.update ''event_hash''
       (VStr (compute_event_hash H (int (length elog) + 1) (last_hash None elog)
          (py_str et) (py_str sid) (py_str t)))
     (AList.update ''previous_event_hash''
       (case last_hash None elog of None \<Rightarrow> VNone | Some q \<Rightarrow> VStr q)
       (AList.update ''sequence'' (VInt (int (length elog) + 1)) event)))"
proof -
  from assms obtain p where
    p: "(if elog = [] then Inr None
      else bindR (item (last elog) ''event_hash'') (\<lambda>h. Inr (Some (py_str h)))) = Inr p"
    unfolding chain_event_def Let_def bindR_Inr_iff by blast
  with assms have "p = last_hash None elog" by (blast dest: previous_is_last_hash)
  with assms p show ?thesis
    by (auto simp: chain_event_def Let_def split: option.splits)
qed

lemma verify_chain_append_log:
  assumes ok: "verify_chain H elog = Inr True" and ap: "append_log H elog event = Inr elog'"
  shows "verify_chain H elog' = Inr True"
proof -
  from ap obtain e where e: "chain_event H elog event = Inr e" and elog': "elog' = elog @ [e]"
    by (auto simp: append_log_Inr_iff)
  from chain_event_eq [OF e] obtain h where
    "verify_event H (length elog) (last_hash None elog) e = Inr (Some h)"
    using verify_chained_event [of "last_hash None elog"] last_hash_nonempty [OF ok] by metis
  with ok elog' show ?thesis
    by (simp add: verify_chain_def verify_from_snoc)
qed

text \<open>A complete event (the three hashed fields present) is always appended.\<close>

lemma append_log_total:
  assumes ok: "verify_chain H elog = Inr True"
    and f: "{''event_type'', ''subject_id'', ''at''} \<subseteq> dom (map_of event)"
  shows "\<exists>e. append_log H elog event = Inr (elog @ [e])"
proof -
  from f obtain et sid t where
    "map_of event ''event_type'' = Some et" "map_of event ''subject_id'' = Some sid"
    "map_of event ''at'' = Some t" by (auto simp: dom_def)
  moreover have "\<exists>p. (if elog = [] then Inr None
      else bindR (item (last elog) ''event_hash'') (\<lambda>h. Inr (Some (py_str h)))) = Inr p"
  proof (cases "elog = []")
    case False
    then obtain xs x where xs: "elog = xs @ [x]" by (metis append_butlast_last_id)
    with ok have "verify_from H (length xs) (last_hash None xs) [x] = Inr True"
      using verify_from_snoc [of H 0 None xs "[x]"] verify_chain_prefix [of H xs "[x]"]
      by (simp add: verify_chain_def)
    then obtain h where "verify_event H (length xs) (last_hash None xs) x = Inr (Some h)"
      by (auto simp: bindR_Inr_iff split: option.splits)
    from verify_event_Some [OF this] xs show ?thesis by auto
  qed simp
  ultimately show ?thesis
    by (auto simp: append_log_def chain_event_def Let_def bindR_Inr_iff)
qed

section \<open>Tamper evidence\<close>

text \<open>
  The payload of each event of a verified log, and the statement that two verified logs of
  one length ending in one hash carry the same payloads unless two different payloads of
  theirs collide under \<open>H\<close>.
\<close>

definition payload_of :: "nat \<Rightarrow> string option \<Rightarrow> val \<Rightarrow> string" where
  "payload_of index prev_hash event = (case event_fields event of (et, sid, t) \<Rightarrow>
     event_payload (int index + 1) prev_hash et sid t)"

fun payloads_from :: "nat \<Rightarrow> string option \<Rightarrow> val list \<Rightarrow> string list" where
  "payloads_from index prev_hash [] = []"
| "payloads_from index prev_hash (e # es) =
     payload_of index prev_hash e # payloads_from (Suc index) (last_hash None [e]) es"

lemma event_digest_payload:
  "event_digest H i p e = ''sha256:'' @ H (py_encode (payload_of i p e))"
  by (simp add: event_digest_def payload_of_def compute_event_hash_def split: prod.splits)

lemma last_hash_Cons: "last_hash p (e # es) = last_hash (last_hash None [e]) es"
  by (auto simp: last_hash_def)

lemma payloads_from_snoc:
  "payloads_from i p (xs @ [x]) =
     payloads_from i p xs @ [payload_of (i + length xs) (last_hash p xs) x]"
proof (induction xs arbitrary: i p)
  case (Cons e es)
  then show ?case by (simp add: last_hash_Cons [of p e es])
qed (simp add: last_hash_def)

text \<open>What \<open>hexdigest()\<close> documents of its result: 64 lower-case hexadecimal digits.\<close>

definition hexdigest_fn :: "digest \<Rightarrow> bool" where
  "hexdigest_fn H \<longleftrightarrow> (\<forall>b. length (H b) = 64 \<and> set (H b) \<subseteq> set ''0123456789abcdef'')"

definition collision :: "digest \<Rightarrow> string \<Rightarrow> string \<Rightarrow> bool" where
  "collision H x y \<longleftrightarrow> x \<noteq> y \<and> H (py_encode x) = H (py_encode y)"

lemma digit_char_code: "d < 10 \<Longrightarrow> of_char (digit_char d) = (48 + d :: nat)"
  by (simp add: digit_char_def)

lemma nat_str_digits: "set (nat_str n) \<subseteq> digit_char ` {..<10}"
proof (induction n rule: nat_str.induct)
  case (1 n)
  then show ?case by (subst nat_str.simps) auto
qed

lemma digit_char_eq_iff:
  "d < 10 \<Longrightarrow> e < 10 \<Longrightarrow> digit_char d = digit_char e \<longleftrightarrow> d = e"
  by (metis add_left_cancel digit_char_code)

lemma nat_str_no_char: "c \<in> set (nat_str n) \<Longrightarrow> 48 \<le> (of_char c :: nat) \<and> (of_char c :: nat) < 58"
  using nat_str_digits [of n] by (auto simp: digit_char_code)

lemma bar_not_in_int_str: "CHR ''|'' \<notin> set (int_str i)"
proof
  assume a: "CHR ''|'' \<in> set (int_str i)"
  have "\<exists>n. CHR ''|'' \<in> set (nat_str n)"
    using a by (auto simp: int_str_def split: if_splits)
  then obtain n where "CHR ''|'' \<in> set (nat_str n)" ..
  from nat_str_no_char [OF this] show False by simp
qed

text \<open>The number at the head of a payload reads back.\<close>

definition decode_nat :: "string \<Rightarrow> nat" where
  "decode_nat s = foldl (\<lambda>a c. a * 10 + (of_char c - 48)) 0 s"

lemma decode_nat_str: "decode_nat (nat_str n) = n"
proof (induction n rule: nat_str.induct)
  case (1 n)
  show ?case
  proof (cases "n < 10")
    case True
    then show ?thesis by (subst nat_str.simps) (simp add: decode_nat_def digit_char_code)
  next
    case False
    then have "decode_nat (nat_str (n div 10)) = n div 10" using "1.IH" by simp
    with False show ?thesis
      by (subst nat_str.simps) (simp add: decode_nat_def digit_char_code)
  qed
qed

lemma int_str_nat_inject:
  assumes "int_str (int m) = int_str (int n)"
  shows "m = n"
proof -
  have "nat_str m = nat_str n" using assms by (simp add: int_str_def)
  then have "decode_nat (nat_str m) = decode_nat (nat_str n)" by (rule arg_cong)
  then show ?thesis unfolding decode_nat_str .
qed

lemma event_payload_inject:
  assumes "event_payload n p et sid t = event_payload n p' et' sid' t'"
    and "\<And>q. p = Some q \<Longrightarrow> CHR ''|'' \<notin> set q" and "\<And>q. p' = Some q \<Longrightarrow> CHR ''|'' \<notin> set q"
  shows "(case p of None \<Rightarrow> [] | Some q \<Rightarrow> q) = (case p' of None \<Rightarrow> [] | Some q \<Rightarrow> q)
    \<and> et @ ''|'' @ sid @ ''|'' @ t = et' @ ''|'' @ sid' @ ''|'' @ t'"
  using assms bar_not_in_int_str [of n]
  by (auto simp: event_payload_def append_eq_sep_iff split: option.splits)

lemma fields_inject:
  assumes "et @ ''|'' @ sid @ ''|'' @ t = et' @ ''|'' @ sid' @ ''|'' @ t'"
    and "CHR ''|'' \<notin> set et \<union> set et' \<union> set sid \<union> set sid'"
  shows "et = et' \<and> sid = sid' \<and> t = t'"
  using assms by (auto simp: append_eq_sep_iff)

lemma last_hash_Some_hex:
  assumes "verify_from H i p xs = Inr True" "xs \<noteq> []" "hexdigest_fn H"
  shows "\<exists>b. last_hash p xs = Some (''sha256:'' @ H b)"
proof -
  from assms(2) obtain ys x where xs: "xs = ys @ [x]" by (metis append_butlast_last_id)
  with assms(1) have "verify_from H (i + length ys) (last_hash p ys) [x] = Inr True"
    using verify_from_snoc [of H i p ys "[x]"] verify_from_append [of H i p ys "[x]"] by simp
  then obtain h where h: "verify_event H (i + length ys) (last_hash p ys) x = Inr (Some h)"
    by (auto simp: bindR_Inr_iff split: option.splits)
  from verify_event_Some [OF h] xs show ?thesis
    by (auto simp: last_hash_def dget_def event_digest_payload)
qed

lemma hex_no_bar: "hexdigest_fn H \<Longrightarrow> CHR ''|'' \<notin> set (''sha256:'' @ H b)"
  unfolding hexdigest_fn_def by (drule spec [of _ b]) auto

text \<open>The last event of a verified log, with the hash it ends in.\<close>

lemma verify_from_last:
  assumes "verify_from H i p (xs @ [x]) = Inr True"
  shows "verify_from H i p xs = Inr True \<and>
    last_hash p (xs @ [x]) = Some (''sha256:'' @ H (py_encode (payload_of (i + length xs) (last_hash p xs) x)))"
proof -
  from assms have xs: "verify_from H i p xs = Inr True" by (rule verify_from_append)
  with assms have "verify_from H (i + length xs) (last_hash p xs) [x] = Inr True"
    using verify_from_snoc [of H i p xs "[x]"] by simp
  then obtain h where h: "verify_event H (i + length xs) (last_hash p xs) x = Inr (Some h)"
    by (auto simp: bindR_Inr_iff split: option.splits)
  from verify_event_Some [OF h] xs show ?thesis
    by (auto simp: last_hash_def dget_def event_digest_payload)
qed

lemma payload_sequence:
  assumes "payload_of m p e = payload_of n p' e'"
  shows "m = n"
proof -
  have "int_str (int m + 1) = int_str (int n + 1)"
    using assms bar_not_in_int_str [of "int m + 1"] bar_not_in_int_str [of "int n + 1"]
    by (simp add: payload_of_def event_payload_def append_eq_sep_iff split: prod.splits)
  then have "int_str (int (Suc m)) = int_str (int (Suc n))" by (simp add: add.commute)
  from int_str_nat_inject [OF this] show ?thesis by simp
qed

text \<open>Two verified logs that end in one hash have one length: the last payload holds the sequence number.\<close>

lemma verified_lengths_agree:
  assumes x: "verify_from H i None xs = Inr True" and y: "verify_from H i None ys = Inr True"
    and last: "last_hash None xs = last_hash None ys"
    and no_coll: "\<And>x y. x \<in> set (payloads_from i None xs) \<Longrightarrow> y \<in> set (payloads_from i None ys) \<Longrightarrow> \<not> collision H x y"
  shows "length xs = length ys"
proof (cases xs rule: rev_cases; cases ys rule: rev_cases)
  fix xs' a ys' b assume s: "xs = xs' @ [a]" "ys = ys' @ [b]"
  let ?px = "payload_of (i + length xs') (last_hash None xs') a"
  let ?py = "payload_of (i + length ys') (last_hash None ys') b"
  have "\<not> collision H ?px ?py" by (rule no_coll) (simp_all add: s payloads_from_snoc)
  with last verify_from_last [OF x [unfolded s]] verify_from_last [OF y [unfolded s]] s
  have "?px = ?py" by (auto simp: collision_def)
  from payload_sequence [OF this] show ?thesis by (simp add: s)
next
  fix ys' b assume "xs = []" "ys = ys' @ [b]"
  with last verify_from_last [of H i None ys' b] y show ?thesis by (simp add: last_hash_def)
next
  fix xs' a assume "ys = []" "xs = xs' @ [a]"
  with last verify_from_last [of H i None xs' a] x show ?thesis by (simp add: last_hash_def)
qed simp

lemma verified_payloads_agree:
  assumes "verify_from H i p xs = Inr True" "verify_from H i p ys = Inr True"
    and "length xs = length ys" "last_hash p xs = last_hash p ys" and hex: "hexdigest_fn H"
    and no_coll: "\<And>x y. x \<in> set (payloads_from i p xs) \<Longrightarrow> y \<in> set (payloads_from i p ys) \<Longrightarrow> \<not> collision H x y"
    and p: "\<And>q. p = Some q \<Longrightarrow> CHR ''|'' \<notin> set q"
  shows "payloads_from i p xs = payloads_from i p ys"
  using assms(1-4) no_coll
proof (induction xs arbitrary: ys rule: rev_induct)
  case Nil
  then show ?case by simp
next
  case (snoc x xs)
  then obtain ys' y where ys: "ys = ys' @ [y]" by (metis length_0_conv append_butlast_last_id append_is_Nil_conv list.distinct(1))
  have len: "length xs = length ys'" using snoc.prems(3) ys by simp
  let ?px = "payload_of (i + length xs) (last_hash p xs) x"
  let ?py = "payload_of (i + length ys') (last_hash p ys') y"
  note vx = verify_from_last [OF snoc.prems(1)]
  note vy = verify_from_last [OF snoc.prems(2) [unfolded ys]]
  have nocoll: "\<not> collision H ?px ?py"
    by (rule snoc.prems(5)) (simp_all add: ys payloads_from_snoc)
  with snoc.prems(4) vx vy ys have pay: "?px = ?py"
    by (auto simp: collision_def)
  have bars: "\<And>q. last_hash p zs = Some q \<Longrightarrow> CHR ''|'' \<notin> set q" if "verify_from H i p zs = Inr True" for zs
    using last_hash_Some_hex [OF that _ hex] hex_no_bar [OF hex] p
    by (cases "zs = []") (auto simp: last_hash_def)
  have lh: "last_hash p xs = last_hash p ys'"
  proof (cases "xs = []")
    case True
    with len show ?thesis by (simp add: last_hash_def)
  next
    case False
    with len have "ys' \<noteq> []" by auto
    with False obtain a b where ab: "last_hash p xs = Some (''sha256:'' @ H a)"
      "last_hash p ys' = Some (''sha256:'' @ H b)"
      using last_hash_Some_hex [of H i p xs] last_hash_Some_hex [of H i p ys'] vx vy hex by blast
    have "(case last_hash p xs of None \<Rightarrow> [] | Some q \<Rightarrow> q) = (case last_hash p ys' of None \<Rightarrow> [] | Some q \<Rightarrow> q)"
      using pay len bars vx vy
      by (auto simp: payload_of_def split: prod.splits dest!: event_payload_inject)
    with ab show ?thesis by simp
  qed
  have "payloads_from i p xs = payloads_from i p ys'"
    by (rule snoc.IH) (use vx vy len lh snoc.prems(5) ys in \<open>auto simp: payloads_from_snoc\<close>)
  with pay ys show ?case by (simp add: payloads_from_snoc)
qed

text \<open>The text an event adds to its payload: type, subject and time, joined by bars.\<close>

definition event_text :: "val \<Rightarrow> string" where
  "event_text e = (case event_fields e of (et, sid, t) \<Rightarrow> et @ ''|'' @ sid @ ''|'' @ t)"

definition no_bar :: "val \<Rightarrow> bool" where
  "no_bar e \<longleftrightarrow> (case event_fields e of (et, sid, t) \<Rightarrow> CHR ''|'' \<notin> set et \<union> set sid \<union> set t)"

lemma payloads_text:
  assumes "payloads_from i p xs = payloads_from i p ys"
    and "verify_from H i p xs = Inr True" "verify_from H i p ys = Inr True"
    and hex: "hexdigest_fn H" and p: "\<And>q. p = Some q \<Longrightarrow> CHR ''|'' \<notin> set q"
  shows "map event_text xs = map event_text ys"
  using assms(1-3) p
proof (induction xs arbitrary: ys i p)
  case Nil
  then show ?case by (cases ys) auto
next
  case (Cons x xs)
  then obtain y ys' where ys: "ys = y # ys'" by (cases ys) auto
  from Cons.prems(2) obtain h where h: "verify_event H i p x = Inr (Some h)"
    and rx: "verify_from H (Suc i) (Some h) xs = Inr True"
    by (auto simp: bindR_Inr_iff split: option.splits)
  from Cons.prems(3) ys obtain k where k: "verify_event H i p y = Inr (Some k)"
    and ry: "verify_from H (Suc i) (Some k) ys' = Inr True"
    by (auto simp: bindR_Inr_iff split: option.splits)
  have lx: "last_hash None [x] = Some h" and ly: "last_hash None [y] = Some k"
    using verify_event_Some [OF h] verify_event_Some [OF k] by (auto simp: last_hash_def dget_def)
  have pay: "payload_of i p x = payload_of i p y" using Cons.prems(1) ys by simp
  then have hk: "h = k"
    using verify_event_Some [OF h] verify_event_Some [OF k] by (auto simp: event_digest_payload)
  have "event_text x = event_text y"
    using pay Cons.prems(4)
    by (auto simp: payload_of_def event_text_def split: prod.splits dest!: event_payload_inject)
  moreover have "map event_text xs = map event_text ys'"
  proof (rule Cons.IH [OF _ rx])
    show "payloads_from (Suc i) (Some h) xs = payloads_from (Suc i) (Some h) ys'"
      using Cons.prems(1) ys lx ly hk by simp
    show "verify_from H (Suc i) (Some h) ys' = Inr True" using ry hk by simp
    show "\<And>q. Some h = Some q \<Longrightarrow> CHR ''|'' \<notin> set q"
      using verify_event_Some [OF h] hex_no_bar [OF hex] by (auto simp: event_digest_payload)
  qed
  ultimately show ?case using ys by simp
qed

text \<open>A text with two bars in all splits in one way, whatever fields it is compared with.\<close>

lemma text_inject:
  assumes "et @ ''|'' @ sid @ ''|'' @ t = et' @ ''|'' @ sid' @ ''|'' @ t'"
    and "CHR ''|'' \<notin> set et \<union> set sid \<union> set t"
  shows "et = et' \<and> sid = sid' \<and> t = t'"
proof -
  define bars where "bars s = length (filter ((=) CHR ''|'') s)" for s
  have split: "bars (s @ s') = bars s + bars s'" "bars ''|'' = 1" for s s'
    by (simp_all add: bars_def)
  have none: "bars s = 0 \<longleftrightarrow> CHR ''|'' \<notin> set s" for s
    unfolding bars_def length_0_conv filter_empty_conv by blast
  have "bars (et @ ''|'' @ sid @ ''|'' @ t) = bars (et' @ ''|'' @ sid' @ ''|'' @ t')"
    using assms(1) by (rule arg_cong)
  moreover have "bars et = 0" "bars sid = 0" "bars t = 0" unfolding none using assms(2) by blast+
  ultimately have "bars et' = 0" "bars sid' = 0" unfolding split by simp_all
  then have "CHR ''|'' \<notin> set et \<union> set et' \<union> set sid \<union> set sid'" unfolding none using assms(2) by blast
  from fields_inject [OF assms(1) this] show ?thesis .
qed

lemma texts_fields:
  assumes "map event_text xs = map event_text ys" and "list_all no_bar xs"
  shows "map event_fields xs = map event_fields ys"
  using assms
proof (induction xs arbitrary: ys)
  case (Cons x xs)
  then obtain y ys' where ys: "ys = y # ys'" by (cases ys) auto
  obtain et sid t where x: "event_fields x = (et, sid, t)" by (cases "event_fields x")
  obtain et' sid' t' where y: "event_fields y = (et', sid', t')" by (cases "event_fields y")
  have "event_text x = event_text y" "no_bar x" using Cons.prems ys by simp_all
  then have "et = et' \<and> sid = sid' \<and> t = t'"
    unfolding event_text_def no_bar_def x y prod.case by (rule text_inject)
  with Cons x y ys show ?case by simp
qed simp

end
