(* ===== verification/LedgerRules.thy ===== *)
theory LedgerRules
  imports Findings HashChain
begin

text \<open>
  Validation of an execution ledger (\<open>validation/ledger_rules.py\<close>, category IPLAN-007)
  over an arbitrary document, in the order the source emits findings.
\<close>

definition leases_overlap :: "val \<Rightarrow> val \<Rightarrow> bool res" where
  "leases_overlap a b =
     bindR (get a ''acquired_at'') (\<lambda>a1. bindR (get b ''expires_at'') (\<lambda>b2.
     if \<not> py_str a1 < py_str b2 then Inr False else
     bindR (get b ''acquired_at'') (\<lambda>b1. bindR (get a ''expires_at'') (\<lambda>a2.
     Inr (py_str b1 < py_str a2)))))"

text \<open>\<open>any(overlap(ls[i], ls[j]) for i in range(len(ls)) for j in range(i + 1, len(ls)))\<close>.\<close>

fun any_pair_overlap :: "val list \<Rightarrow> bool res" where
  "any_pair_overlap [] = Inr False"
| "any_pair_overlap (a # ls) =
     bindR (anyR (leases_overlap a) ls) (\<lambda>b. if b then Inr True else any_pair_overlap ls)"

text \<open>\<open>d.setdefault(key, []).append(x)\<close>, keys in the order of their first lease.\<close>

definition group_add :: "string \<Rightarrow> val \<Rightarrow> (string \<times> val list) list \<Rightarrow> (string \<times> val list) list" where
  "group_add k x groups =
     AList.update k ((case map_of groups k of None \<Rightarrow> [] | Some xs \<Rightarrow> xs) @ [x]) groups"

text \<open>The unreleased leases of a document, grouped by \<open>str(lease.get(field))\<close>.\<close>

definition group_unreleased :: "string \<Rightarrow> val list \<Rightarrow> (string \<times> val list) list res" where
  "group_unreleased key_field leases =
     foldR (\<lambda>groups lease.
       bindR (get lease ''released_at'') (\<lambda>r.
       if is_none r
       then bindR (get lease key_field) (\<lambda>k. Inr (group_add (py_str k) lease groups))
       else Inr groups)) [] leases"

definition check_completed :: "val \<Rightarrow> val \<Rightarrow> finding list \<Rightarrow> finding list res" where
  "check_completed evidence task fs =
     bindR (get task ''evidence_refs'') (\<lambda>refs.
     bindR (get task ''task_id'') (\<lambda>tid.
     bindR (if truthy refs then Inr True
            else bindR (iter evidence) (anyR (\<lambda>ev. bindR (get ev ''task_id'') (\<lambda>t. Inr (py_eq t tid)))))
       (\<lambda>has_evidence.
     bindR (emit_if (\<not> has_evidence) ''LEDGER.EVIDENCE_REQUIRED''
              (''completed task '' @ py_str tid @ '' has no evidence'') fs) (\<lambda>fs.
     bindR (get task ''acceptance'') (\<lambda>acceptance.
     bindR (get (or_else acceptance (VDict [])) ''result'') (\<lambda>result.
     emit_if (\<not> py_eq result (VStr ''pass'')) ''LEDGER.ACCEPTANCE_WEAK''
       (''completed task '' @ py_str tid @ '' acceptance is not pass'') fs))))))"

definition check_task :: "val \<Rightarrow> finding list \<Rightarrow> val \<Rightarrow> finding list res" where
  "check_task evidence fs task =
     bindR (get task ''status'') (\<lambda>status.
     bindR (if py_eq status (VStr ''completed'') then check_completed evidence task fs else Inr fs) (\<lambda>fs.
     if \<not> py_eq status (VStr ''blocked'') then Inr fs else
     bindR (get task ''decision_owner'') (\<lambda>owner.
     bindR (get task ''task_id'') (\<lambda>tid.
     emit_if (\<not> truthy owner) ''LEDGER.BLOCKED_WITHOUT_OWNER''
       (''blocked task '' @ py_str tid @ '' has no decision_owner'') fs))))"

definition check_blocker :: "finding list \<Rightarrow> val \<Rightarrow> finding list res" where
  "check_blocker fs blocker =
     bindR (get blocker ''decision_owner'') (\<lambda>owner.
     bindR (get blocker ''blocker_id'') (\<lambda>bid.
     emit_if (\<not> truthy owner) ''LEDGER.BLOCKED_WITHOUT_OWNER''
       (''blocker '' @ py_str bid @ '' has no decision_owner'') fs))"

definition check_leases :: "val \<Rightarrow> finding list \<Rightarrow> finding list res" where
  "check_leases document fs =
     bindR (get_or document ''agent_leases'' (VList [])) (\<lambda>ls.
     bindR (iter ls) (\<lambda>ls.
     bindR (group_unreleased ''task_id'' ls) (\<lambda>groups.
     foldR (\<lambda>fs (task_id, leases).
       bindR (any_pair_overlap leases) (\<lambda>overlap.
       emit_if overlap ''LEDGER.LEASE_OVERLAP''
         (''task '' @ task_id @ '' has overlapping unreleased leases'') fs)) fs groups)))"

definition check_reconciliation :: "val \<Rightarrow> finding list \<Rightarrow> finding list res" where
  "check_reconciliation document fs =
     bindR (get_or document ''reconciliation'' (VDict [])) (\<lambda>rec.
     bindR (get rec ''allowed'') (\<lambda>allowed.
     bindR (if \<not> truthy allowed then Inr False else
        bindR (get_or rec ''pending_tasks'' (VInt 0)) (\<lambda>p.
        bindR (py_int (or_else p (VInt 0))) (\<lambda>pn.
        if pn > 0 then Inr True else
        bindR (get_or rec ''open_blockers'' (VInt 0)) (\<lambda>b.
        bindR (py_int (or_else b (VInt 0))) (\<lambda>bn. Inr (bn > 0)))))) (\<lambda>bad.
     emit_if bad ''LEDGER.RECONCILE_INCONSISTENT''
       ''reconciliation allowed while tasks/blockers remain'' fs)))"

text \<open>The two flags of the event loop: a path outside the roots, a foreign scope.\<close>

definition scan_event :: "val \<Rightarrow> val \<Rightarrow> val \<Rightarrow> bool \<times> bool \<Rightarrow> val \<Rightarrow> (bool \<times> bool) res" where
  "scan_event roots client_id project_id flags event =
     bindR (get_or event ''touched_paths'' (VList [])) (\<lambda>ps.
     bindR (iter ps) (\<lambda>ps.
     bindR (foldR (\<lambda>bad path. bindR (in_scope (py_str path) roots) (\<lambda>ok. Inr (bad \<or> \<not> ok)))
              (fst flags) ps) (\<lambda>path_violation.
     bindR (event_in_scope event client_id project_id) (\<lambda>ok.
     Inr (path_violation, snd flags \<or> \<not> ok)))))"

definition check_scope :: "val \<Rightarrow> val \<Rightarrow> finding list \<Rightarrow> finding list res" where
  "check_scope document scope fs =
     bindR (item scope ''allowed_roots'') (\<lambda>roots.
     bindR (item scope ''client_id'') (\<lambda>client_id.
     bindR (item scope ''project_id'') (\<lambda>project_id.
     bindR (get_or document ''execution_log'' (VList [])) (\<lambda>evs.
     bindR (iter evs) (\<lambda>evs.
     bindR (foldR (scan_event roots client_id project_id) (False, False) evs) (\<lambda>flags.
     bindR (emit_if (fst flags) ''ISOLATION.PATH_OUTSIDE_ROOTS''
              ''an event touched a path outside allowed_roots'' fs) (\<lambda>fs.
     emit_if (snd flags) ''ISOLATION.EVENT_SCOPE_MISMATCH''
       ''an event client_id/project_id differs from the ledger scope'' fs)))))))"

definition check_landing :: "val \<Rightarrow> val \<Rightarrow> finding list \<Rightarrow> finding list res" where
  "check_landing document control fs =
     bindR (get control ''requires_landing'') (\<lambda>r.
     bindR (if \<not> truthy r then Inr False else
        bindR (get_or document ''vcs'' (VDict [])) (\<lambda>vcs.
        bindR (get vcs ''commits'') (\<lambda>c. Inr (\<not> truthy c)))) (\<lambda>bad.
     emit_if bad ''LEDGER.NOT_COMMITTED'' ''requires_landing but no vcs commit recorded'' fs))"

definition validate_ledger :: "digest \<Rightarrow> val \<Rightarrow> finding list res" where
  "validate_ledger H document =
     bindR (get_or document ''ledger_control'' (VDict [])) (\<lambda>control.
     bindR (all_truthy control [''source_iplan'', ''source_iplan_version'', ''source_iplan_checksum'']) (\<lambda>src_ok.
     bindR (emit_if (\<not> src_ok) ''LEDGER.SOURCE_VERSION_MISSING''
              ''ledger_control is missing source IPLAN id/version/checksum'' []) (\<lambda>fs.
     bindR (get_or document ''isolation_scope'' (VDict [])) (\<lambda>scope.
     bindR (all_truthy scope [''client_id'', ''project_id'', ''allowed_roots'']) (\<lambda>scope_ok.
     bindR (emit_if (\<not> scope_ok) ''ISOLATION.SCOPE_MISSING''
              ''isolation_scope is missing client_id/project_id/allowed_roots'' fs) (\<lambda>fs.
     bindR (get_or document ''execution_evidence'' (VList [])) (\<lambda>evidence.
     bindR (get_or document ''task_ledger'' (VList [])) (\<lambda>tasks.
     bindR (iter tasks) (\<lambda>tasks.
     bindR (foldR (check_task evidence) fs tasks) (\<lambda>fs.
     bindR (get_or document ''blockers'' (VList [])) (\<lambda>blockers.
     bindR (iter blockers) (\<lambda>blockers.
     bindR (foldR check_blocker fs blockers) (\<lambda>fs.
     bindR (check_leases document fs) (\<lambda>fs.
     bindR (check_reconciliation document fs) (\<lambda>fs.
     bindR (if scope_ok then check_scope document scope fs else Inr fs) (\<lambda>fs.
     bindR (get_or document ''execution_log'' (VList [])) (\<lambda>evs.
     bindR (iter evs) (\<lambda>evs.
     bindR (verify_chain H evs) (\<lambda>chain_ok.
     bindR (emit_if (\<not> chain_ok) ''HASHCHAIN.BROKEN''
              ''execution_log hash chain is inconsistent'' fs) (\<lambda>fs.
     check_landing document control fs))))))))))))))))))))"

end
