(* ===== verification/Gate.thy ===== *)
theory Gate
  imports LedgerRules
begin

text \<open>
  The verification gate (\<open>gates/runner.py\<close>): each gate rule names the validator rules it
  depends on and fails when one of them fired. \<open>default_gate\<close> is the gate of the run
  loop (\<open>orchestrator/loop.py\<close>).
\<close>

record rule_result =
  gr_id :: val
  gr_status :: string
  gr_violations :: "string list"

record gate_result =
  g_status :: string
  g_rules :: "rule_result list"

text \<open>\<open>sorted(fired & referenced)\<close>.\<close>

fun str_of :: "val \<Rightarrow> string option" where
  "str_of (VStr s) = Some s"
| "str_of _ = None"

definition violations_of :: "string set \<Rightarrow> val list \<Rightarrow> string list" where
  "violations_of fired referenced =
     sort (remdups (filter (\<lambda>r. r \<in> fired) (List.map_filter str_of referenced)))"

definition eval_rule :: "string set \<Rightarrow> val \<Rightarrow> rule_result res" where
  "eval_rule fired rule =
     bindR (get_or rule ''rule_ids'' (VList [])) (\<lambda>ids.
     bindR (iter ids) (\<lambda>ids.
     bindR (mk_set ids) (\<lambda>referenced.
     bindR (get rule ''id'') (\<lambda>rid.
     let violations = violations_of fired referenced in
     Inr \<lparr>gr_id = rid, gr_status = (if violations = [] then ''passed'' else ''failed''),
          gr_violations = violations\<rparr>))))"

definition run_gate :: "digest \<Rightarrow> val \<Rightarrow> val \<Rightarrow> gate_result res" where
  "run_gate H ledger gate =
     bindR (validate_ledger H ledger) (\<lambda>findings.
     bindR (get_or gate ''gate_rules'' (VList [])) (\<lambda>rules.
     bindR (iter rules) (\<lambda>rules.
     bindR (mapR (eval_rule (rule_ids findings)) rules) (\<lambda>rule_results.
     Inr \<lparr>g_status = (if \<exists>r \<in> set rule_results. gr_violations r \<noteq> [] then ''failed'' else ''passed''),
          g_rules = rule_results\<rparr>))))"

definition gate_rule :: "string \<Rightarrow> string list \<Rightarrow> val" where
  "gate_rule rid ids = VDict [(''id'', VStr rid), (''rule_ids'', VList (map VStr ids))]"

definition default_gate :: val where
  "default_gate = VDict [
     (''metadata'', VDict [(''document_type'', VStr ''iplan-verification-gate'')]),
     (''gate_control'', VDict [(''gate_id'', VStr ''GATE-DEFAULT'')]),
     (''gate_rules'', VList [
        gate_rule ''GATE-LEDGER-001'' [''LEDGER.EVIDENCE_REQUIRED''],
        gate_rule ''GATE-LEDGER-002'' [''LEDGER.ACCEPTANCE_WEAK''],
        gate_rule ''GATE-LEDGER-003'' [''LEDGER.BLOCKED_WITHOUT_OWNER''],
        gate_rule ''GATE-LEDGER-004'' [''ISOLATION.SCOPE_MISSING'', ''ISOLATION.PATH_OUTSIDE_ROOTS'',
          ''ISOLATION.EVENT_SCOPE_MISMATCH''],
        gate_rule ''GATE-LEDGER-005'' [''HASHCHAIN.BROKEN''],
        gate_rule ''GATE-LEDGER-006'' [''LEDGER.NOT_COMMITTED'']])]"

text \<open>The rules the default gate looks at; the gate passes iff none of them fired.\<close>

definition default_gate_rules :: "string set" where
  "default_gate_rules = {''LEDGER.EVIDENCE_REQUIRED'', ''LEDGER.ACCEPTANCE_WEAK'',
     ''LEDGER.BLOCKED_WITHOUT_OWNER'', ''ISOLATION.SCOPE_MISSING'', ''ISOLATION.PATH_OUTSIDE_ROOTS'',
     ''ISOLATION.EVENT_SCOPE_MISMATCH'', ''HASHCHAIN.BROKEN'', ''LEDGER.NOT_COMMITTED''}"

lemma str_of_eq_Some [simp]: "str_of v = Some s \<longleftrightarrow> v = VStr s"
  by (cases v) auto

lemma set_violations: "set (violations_of fired vs) = {s \<in> fired. VStr s \<in> set vs}"
  by (force simp: violations_of_def List.map_filter_def)

lemma violations_empty_iff: "violations_of fired vs = [] \<longleftrightarrow> (\<forall>s. VStr s \<in> set vs \<longrightarrow> s \<notin> fired)"
  using set_violations [of fired vs] by (metis (no_types, lifting) empty_iff mem_Collect_eq set_empty equals0I)

definition gate_rule_result :: "string set \<Rightarrow> string \<Rightarrow> string list \<Rightarrow> rule_result" where
  "gate_rule_result fired rid ids = (let vs = violations_of fired (map VStr ids) in
     \<lparr>gr_id = VStr rid, gr_status = (if vs = [] then ''passed'' else ''failed''), gr_violations = vs\<rparr>)"

lemma eval_gate_rule: "eval_rule fired (gate_rule rid ids) = Inr (gate_rule_result fired rid ids)"
  by (auto simp: eval_rule_def gate_rule_def gate_rule_result_def dget_or_def dget_def mk_set_def Let_def)

lemma gate_rule_fails: "gr_violations (gate_rule_result fired rid ids) = [] \<longleftrightarrow> fired \<inter> set ids = {}"
  by (auto simp: gate_rule_result_def Let_def violations_empty_iff)

text \<open>A gate of plain rules passes iff no referenced rule fired.\<close>

lemma run_gate_plain:
  assumes v: "validate_ledger H ledger = Inr findings"
    and g: "get_or gate ''gate_rules'' (VList []) = Inr (VList (map (\<lambda>(i, ids). gate_rule i ids) rules))"
  shows "run_gate H ledger gate = Inr
    \<lparr>g_status = (if rule_ids findings \<inter> (\<Union>(i, ids) \<in> set rules. set ids) = {} then ''passed'' else ''failed''),
     g_rules = map (\<lambda>(i, ids). gate_rule_result (rule_ids findings) i ids) rules\<rparr>"
proof -
  have m: "mapR (eval_rule (rule_ids findings)) (map (\<lambda>(i, ids). gate_rule i ids) rules)
      = Inr (map (\<lambda>(i, ids). gate_rule_result (rule_ids findings) i ids) rules)"
    by (induction rules) (auto simp: eval_gate_rule)
  have "(\<exists>r \<in> set (map (\<lambda>(i, ids). gate_rule_result (rule_ids findings) i ids) rules). gr_violations r \<noteq> [])
      \<longleftrightarrow> rule_ids findings \<inter> (\<Union>(i, ids) \<in> set rules. set ids) \<noteq> {}"
    by (induction rules) (auto simp: gate_rule_fails)
  with v g m show ?thesis by (simp add: run_gate_def del: set_map)
qed

definition default_rules :: "(string \<times> string list) list" where
  "default_rules = [(''GATE-LEDGER-001'', [''LEDGER.EVIDENCE_REQUIRED'']),
     (''GATE-LEDGER-002'', [''LEDGER.ACCEPTANCE_WEAK'']),
     (''GATE-LEDGER-003'', [''LEDGER.BLOCKED_WITHOUT_OWNER'']),
     (''GATE-LEDGER-004'', [''ISOLATION.SCOPE_MISSING'', ''ISOLATION.PATH_OUTSIDE_ROOTS'',
        ''ISOLATION.EVENT_SCOPE_MISMATCH'']),
     (''GATE-LEDGER-005'', [''HASHCHAIN.BROKEN'']),
     (''GATE-LEDGER-006'', [''LEDGER.NOT_COMMITTED''])]"

lemma default_gate_plain:
  "get_or default_gate ''gate_rules'' (VList []) = Inr (VList (map (\<lambda>(i, ids). gate_rule i ids) default_rules))"
  by (simp add: default_gate_def default_rules_def dget_or_def)

lemma default_rules_ids: "(\<Union>(i, ids) \<in> set default_rules. set ids) = default_gate_rules"
  by (auto simp: default_rules_def default_gate_rules_def)

lemma run_default_gate:
  assumes "validate_ledger H ledger = Inr findings"
  shows "run_gate H ledger default_gate = Inr
    \<lparr>g_status = (if rule_ids findings \<inter> default_gate_rules = {} then ''passed'' else ''failed''),
     g_rules = map (\<lambda>(i, ids). gate_rule_result (rule_ids findings) i ids) default_rules\<rparr>"
  using run_gate_plain [OF assms default_gate_plain] by (simp add: default_rules_ids)

end
