(* ===== verification/Ledger.thy ===== *)
theory Ledger
  imports Gate
begin

text \<open>
  The ledger the run loop builds and mutates: the dict literal of \<open>_init_ledger\<close>
  (\<open>orchestrator/loop.py\<close>) as a record, its rendering \<open>ledger_val\<close> as the document
  the validators, the gate and the projections read, and the primitive updates of
  \<open>orchestrator/state.py\<close>, \<open>orchestrator/leases.py\<close> and the idempotency test of
  \<open>orchestrator/saga.py\<close>.

  Values the code copies from the manifest without looking at them (title, criteria,
  isolation scope, source identity, the raw task id) stay dynamically typed; keys a dict
  gains later (\<open>requires_landing\<close>, \<open>vcs\<close>, \<open>resolutions\<close>, \<open>attempts\<close>) are options.
\<close>

section \<open>State\<close>

record control_block =
  ledger_id :: string
  source_iplan :: val
  source_iplan_version :: val
  source_iplan_checksum :: val
  lc_status :: string
  run_state :: string
  requires_landing :: "bool option"

record task_entry =
  te_task_id :: val
  te_title :: val
  te_status :: string
  te_evidence_refs :: "string list"
  te_criteria :: val
  te_result :: string
  te_blocked_reason :: "string option"
  te_decision_owner :: "string option"

record lease =
  lease_id :: string
  l_task_id :: string
  agent_id :: string
  acquired_at :: string
  expires_at :: "string option"
  released_at :: "string option"

record txn =
  txn_id :: string
  x_task_id :: string
  x_action :: string
  x_compensation :: string
  idempotency_key :: string
  x_status :: string
  timeout_s :: int
  attempts :: "int option"

record blocker =
  blocker_id :: string
  b_task_id :: string
  b_description :: string
  b_decision_owner :: string

record history_entry =
  h_at :: string
  h_task_id :: string
  from_status :: string
  to_status :: string

record reconciliation =
  r_allowed :: bool
  pending_tasks :: nat
  open_blockers :: nat

record commit_entry =
  c_sha :: string
  c_message :: string
  c_at :: string
  c_touched :: "string list"

record vcs_block =
  vcs_branch :: string
  vcs_commits :: "commit_entry list"

record resolution =
  rs_blocker_id :: string
  rs_decision :: string
  rs_actor :: val
  rs_at :: string

record ledger =
  ledger_control :: control_block
  isolation_scope :: "(string \<times> val) list"
  task_ledger :: "task_entry list"
  agent_leases :: "lease list"
  execution_evidence :: "val list"
  blockers :: "blocker list"
  reconciled :: reconciliation
  saga_journal :: "txn list"
  execution_history :: "history_entry list"
  execution_log :: "val list"
  vcs :: "vcs_block option"
  resolutions :: "resolution list option"

section \<open>Rendering as a document\<close>

definition opt_str :: "string option \<Rightarrow> val" where
  "opt_str s = (case s of None \<Rightarrow> VNone | Some s \<Rightarrow> VStr s)"

definition strs :: "string list \<Rightarrow> val" where
  "strs ss = VList (map VStr ss)"

text \<open>A key that is present only when it was set.\<close>

definition opt_key :: "string \<Rightarrow> ('a \<Rightarrow> val) \<Rightarrow> 'a option \<Rightarrow> (string \<times> val) list" where
  "opt_key k f x = (case x of None \<Rightarrow> [] | Some v \<Rightarrow> [(k, f v)])"

definition control_val :: "control_block \<Rightarrow> val" where
  "control_val c = VDict ([
     (''ledger_id'', VStr (ledger_id c)),
     (''source_iplan'', source_iplan c),
     (''source_iplan_version'', source_iplan_version c),
     (''source_iplan_checksum'', source_iplan_checksum c),
     (''status'', VStr (lc_status c)),
     (''run_state'', VStr (run_state c))] @ opt_key ''requires_landing'' VBool (requires_landing c))"

definition task_val :: "task_entry \<Rightarrow> val" where
  "task_val t = VDict [
     (''task_id'', te_task_id t),
     (''title'', te_title t),
     (''status'', VStr (te_status t)),
     (''evidence_refs'', strs (te_evidence_refs t)),
     (''acceptance'', VDict [(''criteria'', te_criteria t), (''result'', VStr (te_result t))]),
     (''blocked_reason'', opt_str (te_blocked_reason t)),
     (''decision_owner'', opt_str (te_decision_owner t))]"

definition lease_val :: "lease \<Rightarrow> val" where
  "lease_val l = VDict [
     (''lease_id'', VStr (lease_id l)),
     (''task_id'', VStr (l_task_id l)),
     (''agent_id'', VStr (agent_id l)),
     (''acquired_at'', VStr (acquired_at l)),
     (''expires_at'', opt_str (expires_at l)),
     (''released_at'', opt_str (released_at l))]"

definition txn_val :: "txn \<Rightarrow> val" where
  "txn_val x = VDict ([
     (''txn_id'', VStr (txn_id x)),
     (''task_id'', VStr (x_task_id x)),
     (''action'', VStr (x_action x)),
     (''compensation'', VStr (x_compensation x)),
     (''idempotency_key'', VStr (idempotency_key x)),
     (''status'', VStr (x_status x)),
     (''timeout_s'', VInt (timeout_s x))] @ opt_key ''attempts'' VInt (attempts x))"

definition blocker_val :: "blocker \<Rightarrow> val" where
  "blocker_val b = VDict [
     (''blocker_id'', VStr (blocker_id b)),
     (''task_id'', VStr (b_task_id b)),
     (''description'', VStr (b_description b)),
     (''decision_owner'', VStr (b_decision_owner b))]"

definition history_val :: "history_entry \<Rightarrow> val" where
  "history_val h = VDict [
     (''at'', VStr (h_at h)),
     (''task_id'', VStr (h_task_id h)),
     (''from_status'', VStr (from_status h)),
     (''to_status'', VStr (to_status h))]"

definition reconciliation_val :: "reconciliation \<Rightarrow> val" where
  "reconciliation_val r = VDict [
     (''allowed'', VBool (r_allowed r)),
     (''pending_tasks'', VInt (int (pending_tasks r))),
     (''open_blockers'', VInt (int (open_blockers r)))]"

definition commit_val :: "commit_entry \<Rightarrow> val" where
  "commit_val c = VDict [
     (''sha'', VStr (c_sha c)),
     (''message'', VStr (c_message c)),
     (''at'', VStr (c_at c)),
     (''touched_paths'', strs (c_touched c))]"

definition vcs_val :: "vcs_block \<Rightarrow> val" where
  "vcs_val v = VDict [
     (''branch'', VStr (vcs_branch v)),
     (''commits'', VList (map commit_val (vcs_commits v)))]"

definition resolution_val :: "resolution \<Rightarrow> val" where
  "resolution_val r = VDict [
     (''blocker_id'', VStr (rs_blocker_id r)),
     (''decision'', VStr (rs_decision r)),
     (''actor'', rs_actor r),
     (''at'', VStr (rs_at r))]"

definition ledger_metadata :: val where
  "ledger_metadata = VDict [
     (''schema_version'', VStr ''1.0''),
     (''document_type'', VStr ''iplan-ledger''),
     (''framework'', VStr ''iops'')]"

definition ledger_val :: "ledger \<Rightarrow> val" where
  "ledger_val l = VDict ([
     (''metadata'', ledger_metadata),
     (''ledger_control'', control_val (ledger_control l)),
     (''isolation_scope'', VDict (isolation_scope l)),
     (''task_ledger'', VList (map task_val (task_ledger l))),
     (''agent_leases'', VList (map lease_val (agent_leases l))),
     (''execution_evidence'', VList (execution_evidence l)),
     (''blockers'', VList (map blocker_val (blockers l))),
     (''reconciliation'', reconciliation_val (reconciled l)),
     (''saga_journal'', VList (map txn_val (saga_journal l))),
     (''execution_history'', VList (map history_val (execution_history l))),
     (''execution_log'', VList (execution_log l)),
     (''audit_snapshots'', VList [])]
     @ opt_key ''vcs'' vcs_val (vcs l)
     @ opt_key ''resolutions'' (\<lambda>rs. VList (map resolution_val rs)) (resolutions l))"

section \<open>Task entries\<close>

text \<open>\<open>entry["task_id"] == task_id\<close> for a string \<open>task_id\<close>.\<close>

definition is_entry :: "string \<Rightarrow> task_entry \<Rightarrow> bool" where
  "is_entry task_id entry = py_eq (te_task_id entry) (VStr task_id)"

definition find_task :: "ledger \<Rightarrow> string \<Rightarrow> task_entry res" where
  "find_task l task_id = (case find (is_entry task_id) (task_ledger l) of
      None \<Rightarrow> Inl (KeyError task_id) | Some entry \<Rightarrow> Inr entry)"

text \<open>A write through the entry that \<open>task(ledger, task_id)\<close> returns: the first match.\<close>

primrec update_first :: "('a \<Rightarrow> bool) \<Rightarrow> ('a \<Rightarrow> 'a) \<Rightarrow> 'a list \<Rightarrow> 'a list option" where
  "update_first p f [] = None"
| "update_first p f (x # xs) =
     (if p x then Some (f x # xs) else map_option (\<lambda>ys. x # ys) (update_first p f xs))"

definition update_task :: "string \<Rightarrow> (task_entry \<Rightarrow> task_entry) \<Rightarrow> ledger \<Rightarrow> ledger res" where
  "update_task task_id f l = (case update_first (is_entry task_id) f (task_ledger l) of
      None \<Rightarrow> Inl (KeyError task_id) | Some ts \<Rightarrow> Inr (l\<lparr>task_ledger := ts\<rparr>))"

definition set_status :: "ledger \<Rightarrow> string \<Rightarrow> string \<Rightarrow> ledger res" where
  "set_status l task_id new_status = update_task task_id (\<lambda>e. e\<lparr>te_status := new_status\<rparr>) l"

definition add_history :: "ledger \<Rightarrow> string \<Rightarrow> string \<Rightarrow> string \<Rightarrow> string \<Rightarrow> ledger" where
  "add_history l task_id from_st to_st stamp = l\<lparr>execution_history := execution_history l @
     [\<lparr>h_at = stamp, h_task_id = task_id, from_status = from_st, to_status = to_st\<rparr>]\<rparr>"

section \<open>Leases\<close>

definition truthy_opt :: "string option \<Rightarrow> bool" where
  "truthy_opt s = (case s of None \<Rightarrow> False | Some s \<Rightarrow> s \<noteq> [])"

definition lease_state :: "lease \<Rightarrow> string \<Rightarrow> string" where
  "lease_state l now =
     (if truthy_opt (released_at l) then ''released''
      else if truthy_opt (expires_at l) \<and> now > the (expires_at l) then ''expired''
      else ''active'')"

definition can_acquire :: "lease list \<Rightarrow> string \<Rightarrow> string \<Rightarrow> bool" where
  "can_acquire existing task_id now =
     (\<not> (\<exists>l \<in> set existing. l_task_id l = task_id \<and> lease_state l now = ''active''))"

definition renew :: "lease \<Rightarrow> string \<Rightarrow> lease" where
  "renew l new_expiry = l\<lparr>expires_at := Some new_expiry\<rparr>"

section \<open>Idempotency\<close>

definition already_committed :: "ledger \<Rightarrow> string \<Rightarrow> bool" where
  "already_committed l key =
     (\<exists>x \<in> set (saga_journal l). idempotency_key x = key \<and> x_status x = ''committed'')"

section \<open>Events\<close>

text \<open>\<open>_event(scope, event_type, task_id, at, paths)\<close>.\<close>

definition mk_event ::
  "(string \<times> val) list \<Rightarrow> string \<Rightarrow> string \<Rightarrow> string \<Rightarrow> string list \<Rightarrow> (string \<times> val) list" where
  "mk_event scope event_type task_id stamp paths = [
     (''event_type'', VStr event_type),
     (''subject_id'', VStr task_id),
     (''at'', VStr stamp),
     (''touched_paths'', strs paths),
     (''client_id'', dget scope ''client_id''),
     (''project_id'', dget scope ''project_id'')]"

text \<open>\<open>append_event(ledger, event)\<close> on the run loop's ledger, whose log is always present.\<close>

definition log_event :: "digest \<Rightarrow> (string \<times> val) list \<Rightarrow> ledger \<Rightarrow> ledger res" where
  "log_event H event l = bindR (append_log H (execution_log l) event) (\<lambda>evs. Inr (l\<lparr>execution_log := evs\<rparr>))"

lemma mk_event_fields [simp]:
  "dget (mk_event sc et tid t ps) ''event_type'' = VStr et"
  "dget (mk_event sc et tid t ps) ''subject_id'' = VStr tid"
  "dget (mk_event sc et tid t ps) ''at'' = VStr t"
  "dget (mk_event sc et tid t ps) ''touched_paths'' = strs ps"
  "dget (mk_event sc et tid t ps) ''client_id'' = dget sc ''client_id''"
  "dget (mk_event sc et tid t ps) ''project_id'' = dget sc ''project_id''"
  by (simp_all add: mk_event_def dget_def)

lemma mk_event_dom: "{''event_type'', ''subject_id'', ''at''} \<subseteq> dom (map_of (mk_event sc et tid t ps))"
  by (simp add: mk_event_def)

text \<open>The record's \<open>log_event\<close> is the dict's \<open>append_event\<close>, seen through the rendering.\<close>

lemma dget_or_ledger_log:
  "\<exists>kvs. ledger_val l = VDict kvs \<and> dget_or kvs ''execution_log'' (VList []) = VList (execution_log l)"
  by (simp add: ledger_val_def dget_or_def)

section \<open>Reads of a rendered ledger\<close>

lemma get_ledger_val [get_simps]:
  "get_or (ledger_val l) ''ledger_control'' d = Inr (control_val (ledger_control l))"
  "get_or (ledger_val l) ''isolation_scope'' d = Inr (VDict (isolation_scope l))"
  "get_or (ledger_val l) ''task_ledger'' d = Inr (VList (map task_val (task_ledger l)))"
  "get_or (ledger_val l) ''agent_leases'' d = Inr (VList (map lease_val (agent_leases l)))"
  "get_or (ledger_val l) ''execution_evidence'' d = Inr (VList (execution_evidence l))"
  "get_or (ledger_val l) ''blockers'' d = Inr (VList (map blocker_val (blockers l)))"
  "get_or (ledger_val l) ''reconciliation'' d = Inr (reconciliation_val (reconciled l))"
  "get_or (ledger_val l) ''execution_log'' d = Inr (VList (execution_log l))"
  "get_or (ledger_val l) ''vcs'' d = Inr (case vcs l of None \<Rightarrow> d | Some v \<Rightarrow> vcs_val v)"
  by (simp_all add: ledger_val_def dget_or_def opt_key_def split: option.splits)

lemma get_task_val [get_simps]:
  "get (task_val t) ''task_id'' = Inr (te_task_id t)"
  "get (task_val t) ''status'' = Inr (VStr (te_status t))"
  "get (task_val t) ''evidence_refs'' = Inr (strs (te_evidence_refs t))"
  "get (task_val t) ''acceptance'' = Inr (VDict [(''criteria'', te_criteria t), (''result'', VStr (te_result t))])"
  "get (task_val t) ''decision_owner'' = Inr (opt_str (te_decision_owner t))"
  by (simp_all add: task_val_def dget_def)

lemma get_lease_val [get_simps]:
  "get (lease_val l) ''task_id'' = Inr (VStr (l_task_id l))"
  "get (lease_val l) ''acquired_at'' = Inr (VStr (acquired_at l))"
  "get (lease_val l) ''expires_at'' = Inr (opt_str (expires_at l))"
  "get (lease_val l) ''released_at'' = Inr (opt_str (released_at l))"
  by (simp_all add: lease_val_def dget_def)

lemma get_blocker_val [get_simps]:
  "get (blocker_val b) ''blocker_id'' = Inr (VStr (blocker_id b))"
  "get (blocker_val b) ''decision_owner'' = Inr (VStr (b_decision_owner b))"
  by (simp_all add: blocker_val_def dget_def)

lemma get_reconciliation_val [get_simps]:
  "get (reconciliation_val r) ''allowed'' = Inr (VBool (r_allowed r))"
  "get_or (reconciliation_val r) ''pending_tasks'' d = Inr (VInt (int (pending_tasks r)))"
  "get_or (reconciliation_val r) ''open_blockers'' d = Inr (VInt (int (open_blockers r)))"
  by (simp_all add: reconciliation_val_def dget_def dget_or_def)

lemma get_control_val [get_simps]:
  "get (control_val c) ''requires_landing'' = Inr (case requires_landing c of None \<Rightarrow> VNone | Some b \<Rightarrow> VBool b)"
  "all_truthy (control_val c) [''source_iplan'', ''source_iplan_version'', ''source_iplan_checksum''] =
     Inr (truthy (source_iplan c) \<and> truthy (source_iplan_version c) \<and> truthy (source_iplan_checksum c))"
  by (auto simp: control_val_def dget_def opt_key_def split: option.splits)

lemma get_vcs_val [get_simps]:
  "get (vcs_val v) ''commits'' = Inr (VList (map commit_val (vcs_commits v)))"
  by (simp add: vcs_val_def dget_def)

lemma opt_str_simps [simp]:
  "truthy (opt_str s) = truthy_opt s" "opt_str s = VNone \<longleftrightarrow> s = None"
  "opt_str None = VNone" "opt_str (Some x) = VStr x"
  by (auto simp: opt_str_def truthy_opt_def split: option.splits)

lemma truthy_strs [simp]: "truthy (strs ss) = (ss \<noteq> [])"
  by (simp add: strs_def)

lemma iter_strs [simp]: "iter (strs ss) = Inr (map VStr ss)"
  by (simp add: strs_def)

lemma is_entry_iff: "is_entry tid e \<longleftrightarrow> te_task_id e = VStr tid"
  by (simp add: is_entry_def)

section \<open>Facts about the primitive updates\<close>

lemma update_first_Some:
  assumes "update_first p f xs = Some ys"
  shows "\<exists>us x vs. xs = us @ x # vs \<and> p x \<and> (\<forall>u \<in> set us. \<not> p u) \<and> ys = us @ f x # vs"
  using assms
proof (induction xs arbitrary: ys)
  case Nil
  then show ?case by simp
next
  case (Cons x xs)
  show ?case
  proof (cases "p x")
    case True
    with Cons.prems have "x # xs = [] @ x # xs \<and> p x \<and> (\<forall>u \<in> set []. \<not> p u) \<and> ys = [] @ f x # xs" by simp
    then show ?thesis by blast
  next
    case False
    with Cons.prems obtain zs where zs: "update_first p f xs = Some zs" "ys = x # zs" by auto
    from Cons.IH [OF zs(1)] obtain us z vs where
      "xs = us @ z # vs" "p z" "\<forall>u \<in> set us. \<not> p u" "zs = us @ f z # vs" by blast
    with False zs have "x # xs = (x # us) @ z # vs \<and> p z \<and> (\<forall>u \<in> set (x # us). \<not> p u) \<and> ys = (x # us) @ f z # vs"
      by simp
    then show ?thesis by blast
  qed
qed

lemma update_first_None: "update_first p f xs = None \<longleftrightarrow> (\<forall>x \<in> set xs. \<not> p x)"
  by (induction xs) auto

lemma find_task_Inr: "find_task l tid = Inr e \<Longrightarrow> e \<in> set (task_ledger l) \<and> te_task_id e = VStr tid"
  by (auto simp: find_task_def find_Some_iff is_entry_iff split: option.splits)

text \<open>What an update of the task leaves alone.\<close>

lemma update_task_frame:
  "update_task tid f l = Inr l' \<Longrightarrow> \<exists>ts. l' = l\<lparr>task_ledger := ts\<rparr>
     \<and> update_first (is_entry tid) f (task_ledger l) = Some ts"
  by (auto simp: update_task_def split: option.splits)

lemma set_status_frame:
  "set_status l tid st = Inr l' \<Longrightarrow> \<exists>ts. l' = l\<lparr>task_ledger := ts\<rparr>
     \<and> update_first (is_entry tid) (\<lambda>e. e\<lparr>te_status := st\<rparr>) (task_ledger l) = Some ts"
  by (auto simp: set_status_def dest: update_task_frame)

lemma log_event_Inr:
  "log_event H ev l = Inr l' \<longleftrightarrow>
     (\<exists>e. chain_event H (execution_log l) ev = Inr e \<and> l' = l\<lparr>execution_log := execution_log l @ [e]\<rparr>)"
  by (auto simp: log_event_def append_log_Inr_iff bindR_Inr_iff)

end
