(* ===== verification/Topo.thy ===== *)
theory Topo
  imports PyVal
begin

text \<open>
  The deterministic topological order of a task graph (\<open>orchestrator/topo.py\<close>). The
  loop is written over the comparison it selects with, because \<open>chain_order\<close>
  (\<open>orchestrator/chain.py\<close>) runs the same loop with another key; a comparison may raise,
  as Python's does on values of different types.
\<close>

section \<open>The selection loop\<close>

text \<open>The first least element of a non-empty list, as \<open>min(...)\<close> and \<open>sorted(...)[0]\<close> give it.\<close>

definition least :: "('a \<Rightarrow> 'a \<Rightarrow> bool res) \<Rightarrow> 'a \<Rightarrow> 'a list \<Rightarrow> 'a res" where
  "least lt x xs = foldR (\<lambda>m y. bindR (lt y m) (\<lambda>b. Inr (if b then y else m))) x xs"

definition is_ready :: "(string \<Rightarrow> val list) \<Rightarrow> string list \<Rightarrow> string \<Rightarrow> bool" where
  "is_ready deps finished t = (\<forall>d \<in> set (deps t). d \<in> VStr ` set finished)"

text \<open>
  \<open>ready[0] if ready else min(remaining)\<close>: among the ready nodes, or among all the
  remaining ones when a cycle leaves none ready.
\<close>

definition pick_next ::
  "(string \<Rightarrow> string \<Rightarrow> bool res) \<Rightarrow> (string \<Rightarrow> val list) \<Rightarrow> string list \<Rightarrow> string list \<Rightarrow> string res" where
  "pick_next lt deps remaining finished =
     (case filter (is_ready deps finished) remaining of
        r # rs \<Rightarrow> least lt r rs
      | [] \<Rightarrow> (case remaining of m # ms \<Rightarrow> least lt m ms | [] \<Rightarrow> Inl IndexError))"

lemma least_mem: "least lt x xs = Inr m \<Longrightarrow> m \<in> insert x (set xs)"
proof -
  assume "least lt x xs = Inr m"
  then have "foldR (\<lambda>m y. bindR (lt y m) (\<lambda>b. Inr (if b then y else m))) x xs = Inr m"
    by (simp add: least_def)
  then show ?thesis
  proof (induction xs arbitrary: x)
    case (Cons y ys)
    from Cons.prems obtain b where
      "foldR (\<lambda>m y. bindR (lt y m) (\<lambda>b. Inr (if b then y else m))) (if b then y else x) ys = Inr m"
      by (auto simp: bindR_Inr_iff)
    from Cons.IH [OF this] show ?case by (auto split: if_splits)
  qed simp
qed

lemma pick_next_mem: "pick_next lt deps remaining finished = Inr c \<Longrightarrow> c \<in> set remaining"
proof -
  assume c: "pick_next lt deps remaining finished = Inr c"
  show ?thesis
  proof (cases "filter (is_ready deps finished) remaining")
    case Nil
    with c show ?thesis
      by (auto simp: pick_next_def dest: least_mem split: list.splits)
  next
    case (Cons r rs)
    with c have "c \<in> set (filter (is_ready deps finished) remaining)"
      by (auto simp: pick_next_def dest: least_mem)
    then show ?thesis by simp
  qed
qed

function order_loop ::
  "(string \<Rightarrow> string \<Rightarrow> bool res) \<Rightarrow> (string \<Rightarrow> val list) \<Rightarrow> string list \<Rightarrow> string list \<Rightarrow> string list res" where
  "order_loop lt deps remaining finished =
     (if remaining = [] then Inr []
      else bindR (pick_next lt deps remaining finished) (\<lambda>chosen.
        bindR (order_loop lt deps (removeAll chosen remaining) (chosen # finished)) (\<lambda>rest.
        Inr (chosen # rest))))"
  by pat_completeness auto
termination
proof (relation "measure (\<lambda>(lt, deps, remaining, finished). length remaining)")
  fix lt deps and remaining finished :: "string list" and c
  assume "remaining \<noteq> []" and "pick_next lt deps remaining finished = Inr c"
  then show "((lt, deps, removeAll c remaining, c # finished), lt, deps, remaining, finished)
     \<in> measure (\<lambda>(lt, deps, remaining, finished). length remaining)"
    using pick_next_mem [of lt deps remaining finished c] by (simp add: length_removeAll_less)
qed simp

declare order_loop.simps [simp del]

lemma order_loop_Nil [simp]: "order_loop lt deps [] finished = Inr []"
  by (simp add: order_loop.simps)

lemma order_loop_Inr_cases:
  assumes "order_loop lt deps remaining finished = Inr order" and "remaining \<noteq> []"
  obtains c rest where "pick_next lt deps remaining finished = Inr c" "order = c # rest"
    "order_loop lt deps (removeAll c remaining) (c # finished) = Inr rest" "c \<in> set remaining"
  using assms by (subst (asm) order_loop.simps) (auto simp: bindR_Inr_iff dest: pick_next_mem)

text \<open>The order visits every node exactly once.\<close>

lemma order_loop_perm:
  "order_loop lt deps remaining finished = Inr order \<Longrightarrow> set order = set remaining \<and> distinct order"
proof (induction "length remaining" arbitrary: remaining finished order rule: less_induct)
  case less
  show ?case
  proof (cases "remaining = []")
    case True
    with less.prems show ?thesis by simp
  next
    case False
    obtain c rest where c: "order = c # rest" "c \<in> set remaining"
      "order_loop lt deps (removeAll c remaining) (c # finished) = Inr rest"
      by (rule order_loop_Inr_cases [OF less.prems False])
    have "set rest = set (removeAll c remaining) \<and> distinct rest"
      by (rule less.hyps [OF _ c(3)]) (use c in \<open>simp add: length_removeAll_less\<close>)
    with c show ?thesis by auto
  qed
qed

text \<open>
  \<open>before order finished t d\<close>: \<open>d\<close> is finished already or comes before \<open>t\<close>.
\<close>

definition before :: "string list \<Rightarrow> string list \<Rightarrow> string \<Rightarrow> string \<Rightarrow> bool" where
  "before order finished t d \<longleftrightarrow> d \<in> set finished \<union> set (takeWhile (\<lambda>x. x \<noteq> t) order)"

text \<open>
  A rank that strictly decreases along dependencies rules out cycles; then some remaining
  node is always ready, so no dependency is ever skipped.
\<close>

definition ranked :: "(string \<Rightarrow> nat) \<Rightarrow> (string \<Rightarrow> val list) \<Rightarrow> string set \<Rightarrow> string set \<Rightarrow> bool" where
  "ranked rank deps nodes finished \<longleftrightarrow>
     (\<forall>t \<in> nodes. \<forall>v \<in> set (deps t). \<exists>d. v = VStr d \<and> (d \<in> finished \<or> d \<in> nodes \<and> rank d < rank t))"

lemma ranked_ready:
  assumes "ranked rank deps (set remaining) (set finished)" and "remaining \<noteq> []"
  shows "\<exists>t \<in> set remaining. is_ready deps finished t"
proof -
  let ?t = "arg_min_on rank (set remaining)"
  have t: "?t \<in> set remaining" "\<And>u. u \<in> set remaining \<Longrightarrow> \<not> rank u < rank ?t"
    using assms(2) arg_min_if_finite [of "set remaining" rank] by auto
  have "is_ready deps finished ?t"
    using assms(1) t unfolding ranked_def is_ready_def by (metis imageI)
  with t(1) show ?thesis by blast
qed

lemma pick_next_ready:
  assumes "pick_next lt deps remaining finished = Inr c" "\<exists>t \<in> set remaining. is_ready deps finished t"
  shows "is_ready deps finished c"
proof -
  obtain r rs where rs: "filter (is_ready deps finished) remaining = r # rs"
    using assms(2) by (metis filter_empty_conv neq_Nil_conv)
  with assms(1) have "c \<in> set (filter (is_ready deps finished) remaining)"
    by (auto simp: pick_next_def dest: least_mem)
  then show ?thesis by simp
qed

lemma order_loop_respects_deps:
  assumes "order_loop lt deps remaining finished = Inr order"
    and "ranked rank deps (set remaining) (set finished)"
    and "t \<in> set order" "VStr d \<in> set (deps t)"
  shows "before order finished t d"
  using assms
proof (induction "length remaining" arbitrary: remaining finished order rule: less_induct)
  case less
  then have ne: "remaining \<noteq> []" by (auto dest: order_loop_perm)
  obtain c rest where c: "pick_next lt deps remaining finished = Inr c" "order = c # rest"
    "order_loop lt deps (removeAll c remaining) (c # finished) = Inr rest" "c \<in> set remaining"
    by (rule order_loop_Inr_cases [OF less.prems(1) ne])
  show ?case
  proof (cases "t = c")
    case True
    have "is_ready deps finished c"
      by (rule pick_next_ready [OF c(1) ranked_ready [OF less.prems(2) ne]])
    with True less.prems(4) show ?thesis by (auto simp: before_def is_ready_def)
  next
    case False
    have "ranked rank deps (set (removeAll c remaining)) (set (c # finished))"
      using less.prems(2) unfolding ranked_def by fastforce
    from less.hyps [OF _ c(3) this _ less.prems(4)] False c less.prems(3)
    have "before rest (c # finished) t d" by (simp add: length_removeAll_less)
    with False c(2) show ?thesis by (auto simp: before_def)
  qed
qed

section \<open>The order of a task graph\<close>

text \<open>\<open>{str(t["task_id"]): set(t.get("depends_on", [])) for t in task_graph}\<close>.\<close>

definition graph_deps :: "val list \<Rightarrow> (string \<times> val list) list res" where
  "graph_deps task_graph =
     foldR (\<lambda>m t. bindR (item t ''task_id'') (\<lambda>tid.
        bindR (get_or t ''depends_on'' (VList [])) (\<lambda>ds. bindR (iter ds) (\<lambda>ds.
        bindR (mk_set ds) (\<lambda>ds. Inr (AList.update (py_str tid) ds m)))))) [] task_graph"

definition deps_fun :: "(string \<times> val list) list \<Rightarrow> string \<Rightarrow> val list" where
  "deps_fun m t = (case map_of m t of None \<Rightarrow> [] | Some ds \<Rightarrow> ds)"

definition str_lt :: "string \<Rightarrow> string \<Rightarrow> bool res" where
  "str_lt a b = Inr (a < b)"

definition topo_order :: "val list \<Rightarrow> string list res" where
  "topo_order task_graph =
     bindR (graph_deps task_graph) (\<lambda>m. order_loop str_lt (deps_fun m) (map fst m) [])"

text \<open>With a comparison that never raises the loop never raises.\<close>

lemma least_str_lt: "least str_lt x xs = Inr (foldl (\<lambda>m y. if y < m then y else m) x xs)"
  by (simp add: least_def str_lt_def)

lemma foldl_min:
  fixes x :: "'a::linorder"
  shows "foldl (\<lambda>m y. if y < m then y else m) x xs = Min (insert x (set xs))"
proof (induction xs arbitrary: x)
  case (Cons y ys)
  have "Min (insert (if y < x then y else x) (set ys)) = Min (insert x (insert y (set ys)))"
    by (cases "ys = []") (auto simp: min_def)
  with Cons show ?case by simp
qed simp

lemma pick_next_str_lt:
  "pick_next str_lt deps remaining finished =
    (if remaining = [] then Inl IndexError
     else Inr (Min (let ready = {t \<in> set remaining. is_ready deps finished t}
                    in if ready = {} then set remaining else ready)))"
proof -
  have s: "{t \<in> set remaining. is_ready deps finished t} = set (filter (is_ready deps finished) remaining)"
    by auto
  show ?thesis
    unfolding pick_next_def s
    by (cases "filter (is_ready deps finished) remaining"; cases remaining)
       (simp_all add: least_str_lt foldl_min Let_def split: if_splits)
qed

lemma order_loop_str_total: "\<exists>order. order_loop str_lt deps remaining finished = Inr order"
proof (induction "length remaining" arbitrary: remaining finished rule: less_induct)
  case less
  show ?case
  proof (cases "remaining = []")
    case False
    then obtain c where c: "pick_next str_lt deps remaining finished = Inr c"
      by (simp add: pick_next_str_lt)
    obtain rest where "order_loop str_lt deps (removeAll c remaining) (c # finished) = Inr rest"
      using less.hyps [of "removeAll c remaining"] pick_next_mem [OF c] by (auto simp: length_removeAll_less)
    with False c show ?thesis by (subst order_loop.simps) simp
  qed simp
qed

end
