(* ===== verification/IntakeRules.thy ===== *)
theory IntakeRules
  imports Findings
begin

text \<open>
  Validation of an intake manifest (\<open>validation/intake_rules.py\<close>, category
  INTAKE-001): the check \<open>run\<close> makes before it builds a ledger.
\<close>

definition SUPPORTED_SCHEMAS :: "val list" where
  "SUPPORTED_SCHEMAS = [VStr ''1.0'']"

definition EXEC_READY_MIN :: int where
  "EXEC_READY_MIN = 90"

text \<open>The loop over the tasks: the flags \<open>fields_missing\<close> and \<open>dep_unresolved\<close>.\<close>

definition scan_task :: "val list \<Rightarrow> bool \<times> bool \<Rightarrow> val \<Rightarrow> (bool \<times> bool) res" where
  "scan_task ids flags task =
     bindR (all_truthy task [''task_id'', ''title'', ''acceptance'']) (\<lambda>complete.
     bindR (get_or task ''depends_on'' (VList [])) (\<lambda>deps.
     bindR (iter deps) (\<lambda>deps.
     bindR (foldR (\<lambda>bad dep. bindR (in_set dep ids) (\<lambda>known. Inr (bad \<or> \<not> known)))
              (snd flags) deps) (\<lambda>dep_unresolved.
     Inr (fst flags \<or> \<not> complete, dep_unresolved)))))"

definition validate_intake :: "val \<Rightarrow> finding list res" where
  "validate_intake document =
     bindR (get_or document ''metadata'' (VDict [])) (\<lambda>metadata.
     bindR (get metadata ''schema_version'') (\<lambda>schema.
     bindR (in_set schema SUPPORTED_SCHEMAS) (\<lambda>supported.
     bindR (emit_if (\<not> supported) ''INTAKE.SCHEMA_UNSUPPORTED''
              ''unsupported intake schema_version'' []) (\<lambda>fs.
     bindR (get_or document ''intake_control'' (VDict [])) (\<lambda>control.
     bindR (all_truthy control [''source_iplan'', ''source_iplan_version'', ''source_iplan_checksum'']) (\<lambda>src_ok.
     bindR (emit_if (\<not> src_ok) ''INTAKE.SOURCE_MISSING''
              ''source IPLAN id/version/checksum missing'' fs) (\<lambda>fs.
     bindR (get control ''approved'') (\<lambda>approved.
     bindR (if \<not> truthy approved then Inr True else
        bindR (get control ''exec_ready_score'') (\<lambda>score.
        bindR (py_int (or_else score (VInt 0))) (\<lambda>n. Inr (n < EXEC_READY_MIN)))) (\<lambda>insufficient.
     bindR (emit_if insufficient ''INTAKE.APPROVAL_INSUFFICIENT''
              ''IPLAN not approved or exec_ready_score below minimum'' fs) (\<lambda>fs.
     bindR (get_or document ''isolation_scope'' (VDict [])) (\<lambda>scope.
     bindR (all_truthy scope [''client_id'', ''project_id'', ''allowed_roots'']) (\<lambda>scope_ok.
     bindR (emit_if (\<not> scope_ok) ''INTAKE.SCOPE_MISSING''
              ''isolation_scope is incomplete'' fs) (\<lambda>fs.
     bindR (get_or document ''task_graph'' (VList [])) (\<lambda>tasks.
     bindR (emit_if (\<not> truthy tasks) ''INTAKE.NO_TASKS'' ''task_graph is empty'' fs) (\<lambda>fs.
     bindR (iter tasks) (\<lambda>ts.
     bindR (set_of_field ''task_id'' ts) (\<lambda>ids.
     bindR (foldR (scan_task ids) (False, False) ts) (\<lambda>flags.
     bindR (emit_if (fst flags) ''INTAKE.TASK_FIELDS_MISSING''
              ''a task lacks id/title/acceptance'' fs) (\<lambda>fs.
     emit_if (snd flags) ''INTAKE.DEP_UNRESOLVED''
       ''a depends_on references an unknown task'' fs)))))))))))))))))))"

end
