(* ===== verification/Loop.thy ===== *)
theory Loop
  imports Ledger Topo IntakeRules
begin

text \<open>
  The run loop (\<open>orchestrator/loop.py\<close>) and the bounded retry
  (\<open>orchestrator/saga.py\<close>): a validated intake manifest is driven into a gated ledger.

  Everything the loop is handed from outside is a field of \<open>env\<close>: the clock, the id
  source, \<open>sleep\<close>, the control flag, the executor and the two git calls of \<open>land\<close>.
  Each is an effect on a world of any type \<open>'w\<close> and may raise. The ledger is mutated in
  place by the code and threaded here; a lease or transaction the code keeps a reference to
  is addressed by its index in the ledger's list, so the write at the end goes to the entry
  the code writes to. \<open>agent\<close> is the module constant \<open>_AGENT_ID\<close>, the only
  difference between the two engines' loops.
\<close>

section \<open>Injected callables\<close>

record exec_result =
  outcome :: string
  touched_paths :: "string list"
  evidence :: "(string \<times> val) list option"
  reason :: "string option"
  retriable :: bool

record 'w env =
  clock :: "('w, string) io"
  ids :: "string \<Rightarrow> ('w, string) io"
  sleep :: "rat \<Rightarrow> ('w, unit) io"
  control :: "('w, string) io"
  execute :: "val \<Rightarrow> (string \<times> val) list \<Rightarrow> ('w, exec_result) io"
  compensate :: "string list \<Rightarrow> ('w, unit) io"
  git_has_changes :: "string \<Rightarrow> ('w, bool) io"
  git_commit_all :: "string \<Rightarrow> string \<Rightarrow> string \<Rightarrow> ('w, string) io"

section \<open>Bounded retry\<close>

definition backoff :: "int \<Rightarrow> rat \<Rightarrow> rat" where
  "backoff attempt base = base * 2 ^ nat (attempt - 1)"

text \<open>
  The \<open>while True\<close> loop, entered with the attempts made so far. A retry needs
  \<open>attempt \<le> max_retries\<close>, so the distance to \<open>max_retries\<close> decreases.
\<close>

function retry_loop ::
  "'w env \<Rightarrow> val \<Rightarrow> (string \<times> val) list \<Rightarrow> int \<Rightarrow> rat \<Rightarrow> int \<Rightarrow> ('w, exec_result \<times> int) io" where
  "retry_loop env task_node scope max_retries backoff_base attempt =
     bindI (execute env task_node scope) (\<lambda>result.
       if outcome result = ''success'' then retI (result, attempt + 1)
       else if retriable result \<and> attempt + 1 \<le> max_retries
       then bindI (sleep env (backoff (attempt + 1) backoff_base)) (\<lambda>_.
              retry_loop env task_node scope max_retries backoff_base (attempt + 1))
       else retI (result, attempt + 1))"
  by pat_completeness auto
termination
  by (relation "measure (\<lambda>(env, task_node, scope, max_retries, backoff_base, attempt).
        nat (max_retries - attempt))") auto

declare retry_loop.simps [simp del]

definition execute_with_retry ::
  "'w env \<Rightarrow> val \<Rightarrow> (string \<times> val) list \<Rightarrow> int \<Rightarrow> rat \<Rightarrow> ('w, exec_result \<times> int) io" where
  "execute_with_retry env task_node scope max_retries backoff_base =
     retry_loop env task_node scope max_retries backoff_base 0"

section \<open>The initial ledger\<close>

definition init_task :: "val \<Rightarrow> task_entry res" where
  "init_task t =
     bindR (item t ''task_id'') (\<lambda>tid.
     bindR (get t ''title'') (\<lambda>title.
     bindR (get t ''acceptance'') (\<lambda>acceptance.
     bindR (get_or (or_else acceptance (VDict [])) ''criteria'' (VList [])) (\<lambda>criteria.
     Inr \<lparr>te_task_id = tid, te_title = title, te_status = ''pending'', te_evidence_refs = [],
          te_criteria = criteria, te_result = ''none'', te_blocked_reason = None,
          te_decision_owner = None\<rparr>))))"

text \<open>
  \<open>dict(manifest["isolation_scope"])\<close>. Validation has read the scope with \<open>get\<close> and
  found its four fields, so it is a dict here; every other value is refused.
\<close>

definition as_dict :: "val \<Rightarrow> (string \<times> val) list res" where
  "as_dict v = (case v of VDict kvs \<Rightarrow> Inr kvs | _ \<Rightarrow> Inl TypeError)"

lemma as_dict_Inr [simp]: "as_dict v = Inr kvs \<longleftrightarrow> v = VDict kvs"
  by (auto simp: as_dict_def split: val.splits)

definition init_ledger :: "val \<Rightarrow> ledger res" where
  "init_ledger manifest =
     bindR (item manifest ''intake_control'') (\<lambda>control.
     bindR (item manifest ''task_graph'') (\<lambda>graph.
     bindR (item control ''source_iplan'') (\<lambda>src.
     bindR (item control ''source_iplan_version'') (\<lambda>version.
     bindR (item control ''source_iplan_checksum'') (\<lambda>checksum.
     bindR (bindR (item manifest ''isolation_scope'') as_dict) (\<lambda>scope.
     bindR (iter graph) (\<lambda>graph.
     bindR (mapR init_task graph) (\<lambda>tasks.
     Inr \<lparr>ledger_control = \<lparr>ledger_id = ''LEDGER-'' @ py_str src, source_iplan = src,
            source_iplan_version = version, source_iplan_checksum = checksum,
            lc_status = ''in_progress'', run_state = ''running'', requires_landing = None\<rparr>,
          isolation_scope = scope, task_ledger = tasks, agent_leases = [],
          execution_evidence = [], blockers = [],
          reconciled = \<lparr>r_allowed = False, pending_tasks = length graph, open_blockers = 0\<rparr>,
          saga_journal = [], execution_history = [], execution_log = [],
          vcs = None, resolutions = None\<rparr>))))))))"

section \<open>Blocking a task\<close>

definition block_entry :: "string \<Rightarrow> task_entry \<Rightarrow> task_entry" where
  "block_entry why e = e\<lparr>te_blocked_reason := Some why, te_decision_owner := Some ''operator''\<rparr>"

definition add_blocker :: "string \<Rightarrow> string \<Rightarrow> string \<Rightarrow> ledger \<Rightarrow> ledger" where
  "add_blocker bid task_id why l = l\<lparr>blockers := blockers l @
     [\<lparr>blocker_id = bid, b_task_id = task_id, b_description = why, b_decision_owner = ''operator''\<rparr>]\<rparr>"

definition escalate :: "digest \<Rightarrow> 'w env \<Rightarrow> string \<Rightarrow> string \<Rightarrow> string \<Rightarrow> ledger \<Rightarrow> ('w, ledger) io" where
  "escalate H env task_id why blocked_at l =
     bindI (ids env ''B'') (\<lambda>bid.
     liftI (bindR (update_task task_id (block_entry why) (add_blocker bid task_id why l)) (\<lambda>l.
            bindR (set_status l task_id ''blocked'') (\<lambda>l.
            log_event H (mk_event (isolation_scope l) ''task_blocked'' task_id blocked_at [])
              (add_history l task_id ''in_progress'' ''blocked'' blocked_at)))))"

definition block_unmet_deps :: "digest \<Rightarrow> 'w env \<Rightarrow> val \<Rightarrow> ledger \<Rightarrow> ('w, ledger) io" where
  "block_unmet_deps H env task_node l =
     bindI (liftI (item task_node ''task_id'')) (\<lambda>tid. let task_id = py_str tid;
       why = ''dependency not satisfied'' in
     bindI (ids env ''B'') (\<lambda>bid.
     bindI (clock env) (\<lambda>stamp.
     liftI (bindR (update_task task_id (block_entry why) (add_blocker bid task_id why l)) (\<lambda>l.
            bindR (set_status l task_id ''blocked'') (\<lambda>l.
            log_event H (mk_event (isolation_scope l) ''task_blocked'' task_id stamp [])
              (add_history l task_id ''pending'' ''blocked'' stamp)))))))"

section \<open>Running one task\<close>

definition set_lease :: "nat \<Rightarrow> (lease \<Rightarrow> lease) \<Rightarrow> ledger \<Rightarrow> ledger" where
  "set_lease i f l = l\<lparr>agent_leases := (agent_leases l)[i := f (agent_leases l ! i)]\<rparr>"

definition set_txn :: "nat \<Rightarrow> (txn \<Rightarrow> txn) \<Rightarrow> ledger \<Rightarrow> ledger" where
  "set_txn i f l = l\<lparr>saga_journal := (saga_journal l)[i := f (saga_journal l ! i)]\<rparr>"

text \<open>The lease and the transaction \<open>_run_task\<close> appends before it starts the task.\<close>

definition add_lease :: "string \<Rightarrow> string \<Rightarrow> string \<Rightarrow> string \<Rightarrow> ledger \<Rightarrow> ledger" where
  "add_lease lid task_id agent acquired l = l\<lparr>agent_leases := agent_leases l @
     [\<lparr>lease_id = lid, l_task_id = task_id, agent_id = agent, acquired_at = acquired,
       expires_at = None, released_at = None\<rparr>]\<rparr>"

definition add_txn :: "string \<Rightarrow> string \<Rightarrow> ledger \<Rightarrow> ledger" where
  "add_txn tx task_id l = l\<lparr>saga_journal := saga_journal l @
     [\<lparr>txn_id = tx, x_task_id = task_id, x_action = ''execute'', x_compensation = ''revert'',
       idempotency_key = task_id @ ''-execute'', x_status = ''pending'', timeout_s = 600,
       attempts = None\<rparr>]\<rparr>"

text \<open>Lease, transaction and the \<open>task_started\<close> event, up to the call of the executor.\<close>

definition open_task ::
  "digest \<Rightarrow> string \<Rightarrow> 'w env \<Rightarrow> string \<Rightarrow> string \<Rightarrow> ledger \<Rightarrow> ('w, ledger) io" where
  "open_task H agent env task_id acquired l =
     bindI (ids env ''L'') (\<lambda>lid.
     bindI (ids env ''TX'') (\<lambda>tx.
     bindI (clock env) (\<lambda>started_at.
     liftI (bindR (set_status (add_txn tx task_id (add_lease lid task_id agent acquired l))
                     task_id ''in_progress'') (\<lambda>l.
       log_event H (mk_event (isolation_scope l) ''task_started'' task_id started_at [])
         (add_history l task_id ''pending'' ''in_progress'' started_at))))))"

definition record_file :: "digest \<Rightarrow> 'w env \<Rightarrow> string \<Rightarrow> ledger \<Rightarrow> string \<Rightarrow> ('w, ledger) io" where
  "record_file H env task_id l path =
     bindI (clock env) (\<lambda>stamp.
     liftI (log_event H (mk_event (isolation_scope l) ''file_edited'' task_id stamp [path]) l))"

text \<open>\<open>{"evidence_id": ..., "task_id": ..., **result.evidence}\<close>.\<close>

definition evidence_entry :: "string \<Rightarrow> string \<Rightarrow> (string \<times> val) list \<Rightarrow> val" where
  "evidence_entry eid task_id ev =
     VDict (foldl (\<lambda>d (k, v). AList.update k v d) [(''evidence_id'', VStr eid), (''task_id'', VStr task_id)] ev)"

definition record_evidence :: "'w env \<Rightarrow> string \<Rightarrow> exec_result \<Rightarrow> ledger \<Rightarrow> ('w, ledger) io" where
  "record_evidence env task_id result l =
     (case evidence result of
        None \<Rightarrow> retI l
      | Some ev \<Rightarrow>
          bindI (ids env ''EV'') (\<lambda>eid.
          liftI (update_task task_id (\<lambda>e. e\<lparr>te_evidence_refs := te_evidence_refs e @ [eid], te_result := ''pass''\<rparr>)
            (l\<lparr>execution_evidence := execution_evidence l @ [evidence_entry eid task_id ev]\<rparr>))))"

definition complete_task ::
  "digest \<Rightarrow> 'w env \<Rightarrow> string \<Rightarrow> nat \<Rightarrow> exec_result \<Rightarrow> ledger \<Rightarrow> ('w, ledger) io" where
  "complete_task H env task_id xi result l =
     bindI (foldI (record_file H env task_id) l (touched_paths result)) (\<lambda>l.
     bindI (record_evidence env task_id result l) (\<lambda>l.
     bindI (clock env) (\<lambda>completed_at.
     liftI (bindR (set_status l task_id ''completed'') (\<lambda>l.
            bindR (log_event H (mk_event (isolation_scope l) ''task_completed'' task_id completed_at [])
                     (add_history l task_id ''in_progress'' ''completed'' completed_at)) (\<lambda>l.
            Inr (set_txn xi (\<lambda>x. x\<lparr>x_status := ''committed''\<rparr>) l)))))))"

text \<open>\<open>result.reason or "execution failed"\<close>.\<close>

definition failure_reason :: "exec_result \<Rightarrow> string" where
  "failure_reason result = (if truthy_opt (reason result) then the (reason result) else ''execution failed'')"

definition fail_task ::
  "digest \<Rightarrow> 'w env \<Rightarrow> string \<Rightarrow> nat \<Rightarrow> exec_result \<Rightarrow> ledger \<Rightarrow> ('w, ledger) io" where
  "fail_task H env task_id xi result l =
     bindI (if touched_paths result = [] then retI l else
        bindI (compensate env (touched_paths result)) (\<lambda>_.
        bindI (clock env) (\<lambda>stamp.
        bindI (liftI (log_event H (mk_event (isolation_scope l) ''compensation'' task_id stamp
                 (touched_paths result)) l)) (\<lambda>l.
        retI (set_txn xi (\<lambda>x. x\<lparr>x_status := ''compensated''\<rparr>) l))))) (\<lambda>l.
     bindI (clock env) (\<lambda>stamp. escalate H env task_id (failure_reason result) stamp l))"

definition run_task ::
  "digest \<Rightarrow> string \<Rightarrow> 'w env \<Rightarrow> int \<Rightarrow> rat \<Rightarrow> val \<Rightarrow> ledger \<Rightarrow> ('w, ledger) io" where
  "run_task H agent env max_retries backoff_base task_node l =
     bindI (liftI (item task_node ''task_id'')) (\<lambda>tid. let task_id = py_str tid in
     if already_committed l (task_id @ ''-execute'') then retI l else
     bindI (clock env) (\<lambda>acquired.
     if \<not> can_acquire (agent_leases l) task_id acquired
     then escalate H env task_id ''lease conflict'' acquired l else
     let li = length (agent_leases l); xi = length (saga_journal l) in
     bindI (open_task H agent env task_id acquired l) (\<lambda>l.
     bindI (execute_with_retry env task_node (isolation_scope l) max_retries backoff_base) (\<lambda>(result, n).
     let l = set_txn xi (\<lambda>x. x\<lparr>attempts := Some n\<rparr>) l in
     bindI (if outcome result = ''success'' then complete_task H env task_id xi result l
            else fail_task H env task_id xi result l) (\<lambda>l.
     bindI (clock env) (\<lambda>released.
     retI (set_lease li (\<lambda>x. x\<lparr>released_at := Some released\<rparr>) l)))))))"

section \<open>Driving the graph\<close>

definition is_open :: "task_entry \<Rightarrow> bool" where
  "is_open t = (te_status t \<in> {''pending'', ''in_progress''})"

definition reconcile :: "ledger \<Rightarrow> ledger" where
  "reconcile l =
     (let pending = length (filter is_open (task_ledger l));
          open_b = length (blockers l);
          allowed = (pending = 0 \<and> open_b = 0);
          l1 = l\<lparr>reconciled := \<lparr>r_allowed = allowed, pending_tasks = pending, open_blockers = open_b\<rparr>\<rparr> in
      if allowed then l1\<lparr>ledger_control := (ledger_control l1)\<lparr>lc_status := ''completed''\<rparr>\<rparr>
      else if open_b \<noteq> 0 then l1\<lparr>ledger_control := (ledger_control l1)\<lparr>lc_status := ''blocked''\<rparr>\<rparr>
      else l1)"

text \<open>\<open>{str(t["task_id"]): t for t in manifest["task_graph"]}\<close>.\<close>

definition nodes_by_id :: "val list \<Rightarrow> (string \<times> val) list res" where
  "nodes_by_id graph =
     foldR (\<lambda>m t. bindR (item t ''task_id'') (\<lambda>tid. Inr (AList.update (py_str tid) t m))) [] graph"

definition lookup_node :: "(string \<times> val) list \<Rightarrow> string \<Rightarrow> val res" where
  "lookup_node m t = (case map_of m t of None \<Rightarrow> Inl (KeyError t) | Some n \<Rightarrow> Inr n)"

definition node_deps :: "val \<Rightarrow> string list res" where
  "node_deps node = bindR (get_or node ''depends_on'' (VList [])) (\<lambda>ds. bindR (iter ds) (\<lambda>ds. Inr (map py_str ds)))"

definition stops :: "string \<Rightarrow> bool" where
  "stops state = (state \<in> {''aborted'', ''paused''})"

text \<open>The \<open>for task_id in topo_order(...)\<close> loop: the final \<open>run_state\<close> and ledger.\<close>

fun drive_loop ::
  "digest \<Rightarrow> string \<Rightarrow> 'w env \<Rightarrow> int \<Rightarrow> rat \<Rightarrow> (string \<times> val) list \<Rightarrow> string list \<Rightarrow> string set \<Rightarrow> ledger
     \<Rightarrow> ('w, string \<times> ledger) io" where
  "drive_loop H agent env mr bb by_id [] completed l = retI (''completed'', l)"
| "drive_loop H agent env mr bb by_id (task_id # rest) completed l =
     bindI (liftI (find_task l task_id)) (\<lambda>e.
     if te_status e = ''completed''
     then drive_loop H agent env mr bb by_id rest (insert task_id completed) l else
     bindI (control env) (\<lambda>state.
     if stops state then retI (state, l) else
     bindI (liftI (lookup_node by_id task_id)) (\<lambda>node.
     bindI (liftI (node_deps node)) (\<lambda>deps.
     if set deps \<subseteq> completed
     then bindI (run_task H agent env mr bb node l) (\<lambda>l.
          bindI (liftI (find_task l task_id)) (\<lambda>e.
          drive_loop H agent env mr bb by_id rest
            (if te_status e = ''completed'' then insert task_id completed else completed) l))
     else bindI (block_unmet_deps H env node l) (\<lambda>l.
          drive_loop H agent env mr bb by_id rest completed l)))))"

definition set_run_state :: "string \<Rightarrow> ledger \<Rightarrow> ledger" where
  "set_run_state s l = l\<lparr>ledger_control := (ledger_control l)\<lparr>run_state := s\<rparr>\<rparr>"

record run_result =
  rr_ledger :: ledger
  rr_gate :: gate_result

definition drive ::
  "digest \<Rightarrow> string \<Rightarrow> 'w env \<Rightarrow> int \<Rightarrow> rat \<Rightarrow> val \<Rightarrow> val \<Rightarrow> string set \<Rightarrow> ledger \<Rightarrow> ('w, run_result) io" where
  "drive H agent env mr bb gate manifest completed l =
     bindI (liftI (bindR (item manifest ''task_graph'') iter)) (\<lambda>graph.
     bindI (liftI (nodes_by_id graph)) (\<lambda>by_id.
     bindI (liftI (topo_order graph)) (\<lambda>order.
     bindI (drive_loop H agent env mr bb by_id order completed l) (\<lambda>(final_state, l).
     let l = reconcile (set_run_state final_state l) in
     liftI (bindR (run_gate H (ledger_val l) (or_else gate default_gate)) (\<lambda>g.
       Inr \<lparr>rr_ledger = l, rr_gate = g\<rparr>))))))"

definition run ::
  "digest \<Rightarrow> string \<Rightarrow> 'w env \<Rightarrow> int \<Rightarrow> rat \<Rightarrow> val \<Rightarrow> val \<Rightarrow> ('w, run_result) io" where
  "run H agent env mr bb gate manifest =
     bindI (liftI (validate_intake manifest)) (\<lambda>findings.
     if status_of findings = ''fail''
     then raiseI (ValueError ''intake manifest failed validation'') else
     bindI (liftI (init_ledger manifest)) (\<lambda>l.
     drive H agent env mr bb gate manifest {} l))"

definition completed_ids :: "ledger \<Rightarrow> string set" where
  "completed_ids l = (\<lambda>t. py_str (te_task_id t)) ` {t \<in> set (task_ledger l). te_status t = ''completed''}"

definition resume ::
  "digest \<Rightarrow> string \<Rightarrow> 'w env \<Rightarrow> int \<Rightarrow> rat \<Rightarrow> val \<Rightarrow> val \<Rightarrow> ledger \<Rightarrow> ('w, run_result) io" where
  "resume H agent env mr bb gate manifest l =
     drive H agent env mr bb gate manifest (completed_ids l) (set_run_state ''running'' l)"

section \<open>Landing\<close>

definition str_path :: "val \<Rightarrow> string res" where
  "str_path v = (case v of VStr s \<Rightarrow> Inr s | _ \<Rightarrow> Inl TypeError)"

definition edited_paths :: "val \<Rightarrow> string list res" where
  "edited_paths e =
     bindR (item e ''event_type'') (\<lambda>et.
     if \<not> py_eq et (VStr ''file_edited'') then Inr [] else
     bindR (get_or e ''touched_paths'' (VList [])) (\<lambda>ps. bindR (iter ps) (mapR str_path)))"

definition add_commit :: "string \<Rightarrow> commit_entry \<Rightarrow> ledger \<Rightarrow> ledger" where
  "add_commit branch c l = l\<lparr>vcs := Some \<lparr>vcs_branch = branch,
     vcs_commits = (case vcs l of None \<Rightarrow> [] | Some v \<Rightarrow> vcs_commits v) @ [c]\<rparr>\<rparr>"

definition land ::
  "digest \<Rightarrow> 'w env \<Rightarrow> val \<Rightarrow> string \<Rightarrow> string \<Rightarrow> string \<Rightarrow> ledger \<Rightarrow> ('w, run_result) io" where
  "land H env gate workspace branch msg l =
     bindI (git_has_changes env workspace) (\<lambda>changed.
     bindI (if \<not> changed then retI l else
        bindI (git_commit_all env workspace branch msg) (\<lambda>sha.
        bindI (clock env) (\<lambda>stamp.
        liftI (bindR (mapR edited_paths (execution_log l)) (\<lambda>pss.
          let touched = sort (remdups (concat pss)) in
          bindR (log_event H (mk_event (isolation_scope l) ''commit'' ''LANDING'' stamp touched)
            (add_commit branch \<lparr>c_sha = sha, c_message = msg, c_at = stamp, c_touched = touched\<rparr> l)) (\<lambda>l.
          Inr (l\<lparr>ledger_control := (ledger_control l)\<lparr>requires_landing := Some True\<rparr>\<rparr>))))))) (\<lambda>l.
     liftI (bindR (run_gate H (ledger_val l) (or_else gate default_gate)) (\<lambda>g.
       Inr \<lparr>rr_ledger = l, rr_gate = g\<rparr>))))"

end
