(* ===== verification/LoopFacts.thy ===== *)
theory LoopFacts
  imports Loop
begin

text \<open>
  What each step of the run loop does to the ledger. \<open>touches H tid l l'\<close> is the frame
  of a step on the task \<open>tid\<close>: only its entry changes, the event log, the blockers and
  the history grow by entries about it, and a verified hash chain stays verified. It is
  transitive, so the frame of a whole task run is composed from its parts; the exact status
  changes are stated beside it.
\<close>

section \<open>The frame of a step\<close>

definition about :: "string \<Rightarrow> (string \<times> val) list \<Rightarrow> val \<Rightarrow> bool" where
  "about tid scope e \<longleftrightarrow> (\<exists>kvs. e = VDict kvs \<and> dget kvs ''subject_id'' = VStr tid
     \<and> dget kvs ''client_id'' = dget scope ''client_id''
     \<and> dget kvs ''project_id'' = dget scope ''project_id'')"

text \<open>At most the first entry of the task differs, and not in its id, title or criteria.\<close>

definition same_task :: "string \<Rightarrow> task_entry \<Rightarrow> task_entry \<Rightarrow> bool" where
  "same_task tid e e' \<longleftrightarrow> is_entry tid e \<and> te_task_id e' = te_task_id e \<and> te_title e' = te_title e
     \<and> te_criteria e' = te_criteria e"

definition same_tasks :: "string \<Rightarrow> task_entry list \<Rightarrow> task_entry list \<Rightarrow> bool" where
  "same_tasks tid ts ts' \<longleftrightarrow> ts' = ts \<or> (\<exists>us e e' vs. ts = us @ e # vs \<and> ts' = us @ e' # vs
     \<and> (\<forall>u \<in> set us. \<not> is_entry tid u) \<and> same_task tid e e')"

definition same_control :: "ledger \<Rightarrow> ledger \<Rightarrow> bool" where
  "same_control l l' \<longleftrightarrow> ledger_control l' = ledger_control l \<and> isolation_scope l' = isolation_scope l
     \<and> vcs l' = vcs l \<and> resolutions l' = resolutions l \<and> reconciled l' = reconciled l"

definition extends :: "('a \<Rightarrow> bool) \<Rightarrow> 'a list \<Rightarrow> 'a list \<Rightarrow> bool" where
  "extends p xs ys \<longleftrightarrow> (\<exists>zs. ys = xs @ zs \<and> (\<forall>z \<in> set zs. p z))"

definition touches :: "digest \<Rightarrow> string \<Rightarrow> ledger \<Rightarrow> ledger \<Rightarrow> bool" where
  "touches H tid l l' \<longleftrightarrow> same_control l l'
     \<and> same_tasks tid (task_ledger l) (task_ledger l')
     \<and> extends (about tid (isolation_scope l)) (execution_log l) (execution_log l')
     \<and> (verify_chain H (execution_log l) = Inr True \<longrightarrow> verify_chain H (execution_log l') = Inr True)
     \<and> extends (\<lambda>b. b_task_id b = tid \<and> b_decision_owner b = ''operator'') (blockers l) (blockers l')
     \<and> extends (\<lambda>h. h_task_id h = tid) (execution_history l) (execution_history l')"

lemma extends_refl [simp]: "extends p xs xs"
  by (simp add: extends_def)

lemma extends_snoc [simp]: "p x \<Longrightarrow> extends p xs (xs @ [x])"
  by (auto simp: extends_def)

lemma extends_trans: "extends p xs ys \<Longrightarrow> extends p ys zs \<Longrightarrow> extends p xs zs"
  unfolding extends_def by (metis (no_types, lifting) Un_iff append.assoc set_append)

lemma is_entry_unique: "is_entry t e \<Longrightarrow> is_entry tid e \<Longrightarrow> t = tid"
  by (simp add: is_entry_iff)

lemma is_entry_cong: "te_task_id e' = te_task_id e \<Longrightarrow> is_entry t e' = is_entry t e"
  by (simp add: is_entry_iff)

lemma same_task_entry: "same_task tid e e' \<Longrightarrow> is_entry tid e \<and> is_entry tid e'"
  by (simp add: same_task_def is_entry_iff)

lemma same_task_trans: "same_task tid a b \<Longrightarrow> same_task tid b c \<Longrightarrow> same_task tid a c"
  by (auto simp: same_task_def)

lemma first_split_unique:
  "us @ x # vs = us' @ x' # vs' \<Longrightarrow> \<forall>u \<in> set us. \<not> p u \<Longrightarrow> p x \<Longrightarrow> \<forall>u \<in> set us'. \<not> p u \<Longrightarrow> p x'
     \<Longrightarrow> us = us' \<and> x = x' \<and> vs = vs'"
proof (induction us arbitrary: us')
  case Nil
  then show ?case by (cases us') auto
next
  case (Cons u us)
  then show ?case by (cases us') auto
qed

lemma same_tasks_refl [simp]: "same_tasks tid ts ts"
  by (simp add: same_tasks_def)

lemma same_tasks_trans:
  assumes "same_tasks tid ts ts'" "same_tasks tid ts' ts''"
  shows "same_tasks tid ts ts''"
proof (cases "ts' = ts \<or> ts'' = ts'")
  case True
  with assms show ?thesis by auto
next
  case False
  with assms(1) obtain us e e' vs where
    1: "ts = us @ e # vs" "ts' = us @ e' # vs" "\<forall>u \<in> set us. \<not> is_entry tid u" "same_task tid e e'"
    unfolding same_tasks_def by blast
  from False assms(2) obtain us' f f' vs' where
    2: "ts' = us' @ f # vs'" "ts'' = us' @ f' # vs'" "\<forall>u \<in> set us'. \<not> is_entry tid u" "same_task tid f f'"
    unfolding same_tasks_def by blast
  have "us = us' \<and> e' = f \<and> vs = vs'"
    by (rule first_split_unique [where p = "is_entry tid"])
      (use 1 2 same_task_entry in auto)
  with 1 2 same_task_trans [of tid e e' f'] show ?thesis unfolding same_tasks_def by blast
qed

lemma touches_refl [simp]: "touches H tid l l"
  by (simp add: touches_def same_control_def)

lemma touches_trans: "touches H tid a b \<Longrightarrow> touches H tid b c \<Longrightarrow> touches H tid a c"
  unfolding touches_def same_control_def
  by (auto intro: extends_trans same_tasks_trans)

lemma touches_leases [simp]: "touches H tid l (l\<lparr>agent_leases := x\<rparr>)"
  by (simp add: touches_def same_control_def)

lemma touches_journal [simp]: "touches H tid l (l\<lparr>saga_journal := x\<rparr>)"
  by (simp add: touches_def same_control_def)

lemma touches_evidence [simp]: "touches H tid l (l\<lparr>execution_evidence := x\<rparr>)"
  by (simp add: touches_def same_control_def)

lemma touches_set_lease [simp]: "touches H tid l (set_lease i f l)"
  by (simp add: set_lease_def)

lemma touches_set_txn [simp]: "touches H tid l (set_txn i f l)"
  by (simp add: set_txn_def)

lemma touches_add_blocker [simp]: "touches H tid l (add_blocker bid tid why l)"
  by (simp add: touches_def same_control_def add_blocker_def)

lemma touches_add_history [simp]: "touches H tid l (add_history l tid a b t)"
  by (simp add: touches_def same_control_def add_history_def)

lemma touches_open [simp]:
  "touches H tid l (add_lease lid tid' agent acquired l)" "touches H tid l (add_txn tx tid' l)"
  by (simp_all add: add_lease_def add_txn_def)

lemma update_first_same:
  assumes "update_first (is_entry tid) f ts = Some ts'"
    and "\<And>e. te_task_id (f e) = te_task_id e \<and> te_title (f e) = te_title e \<and> te_criteria (f e) = te_criteria e"
  shows "same_tasks tid ts ts'"
proof -
  from update_first_Some [OF assms(1)] obtain us x vs where
    "ts = us @ x # vs" "is_entry tid x" "\<forall>u \<in> set us. \<not> is_entry tid u" "ts' = us @ f x # vs" by blast
  moreover from this(2) have "same_task tid x (f x)" using assms(2) by (simp add: same_task_def)
  ultimately show ?thesis unfolding same_tasks_def by blast
qed

lemma touches_update_task:
  assumes "update_task tid f l = Inr l'"
    and "\<And>e. te_task_id (f e) = te_task_id e \<and> te_title (f e) = te_title e \<and> te_criteria (f e) = te_criteria e"
  shows "touches H tid l l'"
  using update_task_frame [OF assms(1)] update_first_same [OF _ assms(2)]
  by (auto simp: touches_def same_control_def)

lemma touches_set_status: "set_status l tid st = Inr l' \<Longrightarrow> touches H tid l l'"
  unfolding set_status_def by (erule touches_update_task) simp

lemma chained_fields:
  assumes "chain_event H elog ev = Inr e"
  obtains kvs where "e = VDict kvs"
    "\<And>k. k \<notin> {''sequence'', ''previous_event_hash'', ''event_hash''} \<Longrightarrow> dget kvs k = dget ev k"
proof -
  from chain_event_fields [OF assms] obtain kvs where "e = VDict kvs"
    "\<forall>k. k \<notin> {''sequence'', ''previous_event_hash'', ''event_hash''} \<longrightarrow> map_of kvs k = map_of ev k"
    by blast
  then show ?thesis using that [of kvs] unfolding dget_def by presburger
qed

lemma touches_log_event:
  assumes "log_event H (mk_event (isolation_scope l) et tid t ps) l = Inr l'"
  shows "touches H tid l l'"
proof -
  from assms obtain e where e: "chain_event H (execution_log l) (mk_event (isolation_scope l) et tid t ps) = Inr e"
    and l': "l' = l\<lparr>execution_log := execution_log l @ [e]\<rparr>"
    by (auto simp: log_event_Inr)
  have "append_log H (execution_log l) (mk_event (isolation_scope l) et tid t ps) = Inr (execution_log l @ [e])"
    using e by (simp add: append_log_Inr_iff)
  then have v: "verify_chain H (execution_log l) = Inr True \<longrightarrow> verify_chain H (execution_log l @ [e]) = Inr True"
    by (intro impI) (rule verify_chain_append_log)
  obtain kvs where kvs: "e = VDict kvs" and get: "\<And>k. k \<notin> {''sequence'', ''previous_event_hash'', ''event_hash''} \<Longrightarrow>
      dget kvs k = dget (mk_event (isolation_scope l) et tid t ps) k"
    by (rule chained_fields [OF e]) blast
  have "about tid (isolation_scope l) e"
    by (simp add: about_def kvs get)
  with v show ?thesis by (simp add: touches_def same_control_def l')
qed

section \<open>Reading a task after a step\<close>

lemma find_update_first:
  assumes "update_first (is_entry tid) f ts = Some ts'" and "\<And>e. te_task_id (f e) = te_task_id e"
  shows "find (is_entry t) ts' =
     (if t = tid then map_option f (find (is_entry tid) ts) else find (is_entry t) ts)"
  using assms(1)
proof (induction ts arbitrary: ts')
  case (Cons e ts)
  have f: "is_entry t (f e) = is_entry t e" by (rule is_entry_cong) (rule assms(2))
  show ?case
  proof (cases "is_entry tid e")
    case True
    then have "t \<noteq> tid \<Longrightarrow> \<not> is_entry t e" using is_entry_unique by blast
    moreover have "ts' = f e # ts" using True Cons.prems by simp
    ultimately show ?thesis using True f by (cases "t = tid") simp_all
  next
    case False
    with Cons.prems obtain us where us: "update_first (is_entry tid) f ts = Some us" "ts' = e # us" by auto
    show ?thesis using Cons.IH [OF us(1)] us(2) False by (cases "t = tid") simp_all
  qed
qed simp

lemma find_task_update:
  assumes "update_task tid f l = Inr l'" and "\<And>e. te_task_id (f e) = te_task_id e"
  shows "\<exists>e. find_task l tid = Inr e \<and>
    (\<forall>t. find_task l' t = (if t = tid then Inr (f e) else find_task l t))"
proof -
  from update_task_frame [OF assms(1)] obtain ts where
    ts: "l' = l\<lparr>task_ledger := ts\<rparr>" "update_first (is_entry tid) f (task_ledger l) = Some ts" by blast
  then have "find (is_entry tid) (task_ledger l) \<noteq> None"
    by (metis find_None_iff option.distinct(1) update_first_None)
  then show ?thesis
    using find_update_first [OF ts(2) assms(2)] ts(1)
    by (auto simp: find_task_def split: option.splits)
qed

lemma find_task_set_status:
  assumes "set_status l tid st = Inr l'"
  shows "\<exists>e. find_task l tid = Inr e \<and>
    (\<forall>t. find_task l' t = (if t = tid then Inr (e\<lparr>te_status := st\<rparr>) else find_task l t))"
  using find_task_update [of tid "\<lambda>e. e\<lparr>te_status := st\<rparr>" l l'] assms by (simp add: set_status_def)

lemma find_task_frame [simp]:
  "find_task (l\<lparr>agent_leases := a\<rparr>) t = find_task l t"
  "find_task (l\<lparr>saga_journal := b\<rparr>) t = find_task l t"
  "find_task (l\<lparr>execution_evidence := c\<rparr>) t = find_task l t"
  "find_task (l\<lparr>execution_log := d\<rparr>) t = find_task l t"
  "find_task (l\<lparr>ledger_control := g\<rparr>) t = find_task l t"
  "find_task (set_lease i f l) t = find_task l t"
  "find_task (set_txn i f' l) t = find_task l t"
  "find_task (add_lease lid tid' agent acquired l) t = find_task l t"
  "find_task (add_txn tx tid' l) t = find_task l t"
  "find_task (add_history l tid x y z) t = find_task l t"
  "find_task (add_blocker bid tid why l) t = find_task l t"
  by (simp_all add: find_task_def set_lease_def set_txn_def add_history_def add_blocker_def
      add_lease_def add_txn_def)

lemma find_task_log_event: "log_event H ev l = Inr l' \<Longrightarrow> find_task l' t = find_task l t"
  by (auto simp: log_event_Inr)

text \<open>Fields the updates of a task leave alone.\<close>

lemma update_task_fields:
  assumes "update_task tid f l = Inr l'"
  shows "agent_leases l' = agent_leases l" "saga_journal l' = saga_journal l"
    "blockers l' = blockers l" "execution_log l' = execution_log l"
    "execution_history l' = execution_history l" "execution_evidence l' = execution_evidence l"
    "isolation_scope l' = isolation_scope l"
  using update_task_frame [OF assms] by auto

lemma set_status_fields:
  assumes "set_status l tid st = Inr l'"
  shows "agent_leases l' = agent_leases l" "saga_journal l' = saga_journal l"
    "blockers l' = blockers l" "execution_log l' = execution_log l"
    "execution_history l' = execution_history l" "execution_evidence l' = execution_evidence l"
    "isolation_scope l' = isolation_scope l"
  using assms unfolding set_status_def by (auto dest: update_task_fields)

lemma log_event_fields:
  assumes "log_event H ev l = Inr l'"
  shows "agent_leases l' = agent_leases l" "saga_journal l' = saga_journal l"
    "blockers l' = blockers l" "task_ledger l' = task_ledger l"
    "execution_history l' = execution_history l" "execution_evidence l' = execution_evidence l"
    "isolation_scope l' = isolation_scope l"
  using assms by (auto simp: log_event_Inr)

lemma add_fields [simp]:
  "agent_leases (add_history l tid x y z) = agent_leases l"
  "saga_journal (add_history l tid x y z) = saga_journal l"
  "blockers (add_history l tid x y z) = blockers l"
  "isolation_scope (add_history l tid x y z) = isolation_scope l"
  "execution_log (add_history l tid x y z) = execution_log l"
  "execution_evidence (add_history l tid x y z) = execution_evidence l"
  "task_ledger (add_history l tid x y z) = task_ledger l"
  "execution_history (add_history l tid x y z) = execution_history l @ [\<lparr>h_at = z, h_task_id = tid, from_status = x, to_status = y\<rparr>]"
  "agent_leases (add_blocker bid tid why l) = agent_leases l"
  "saga_journal (add_blocker bid tid why l) = saga_journal l"
  "isolation_scope (add_blocker bid tid why l) = isolation_scope l"
  "execution_log (add_blocker bid tid why l) = execution_log l"
  "execution_evidence (add_blocker bid tid why l) = execution_evidence l"
  "execution_history (add_blocker bid tid why l) = execution_history l"
  "task_ledger (add_blocker bid tid why l) = task_ledger l"
  "blockers (add_blocker bid tid why l) = blockers l @
     [\<lparr>blocker_id = bid, b_task_id = tid, b_description = why, b_decision_owner = ''operator''\<rparr>]"
  by (simp_all add: add_history_def add_blocker_def)

lemma open_fields [simp]:
  "saga_journal (add_lease lid tid agent acquired l) = saga_journal l"
  "blockers (add_lease lid tid agent acquired l) = blockers l"
  "isolation_scope (add_lease lid tid agent acquired l) = isolation_scope l"
  "execution_log (add_lease lid tid agent acquired l) = execution_log l"
  "execution_history (add_lease lid tid agent acquired l) = execution_history l"
  "execution_evidence (add_lease lid tid agent acquired l) = execution_evidence l"
  "task_ledger (add_lease lid tid agent acquired l) = task_ledger l"
  "agent_leases (add_lease lid tid agent acquired l) = agent_leases l @
     [\<lparr>lease_id = lid, l_task_id = tid, agent_id = agent, acquired_at = acquired,
       expires_at = None, released_at = None\<rparr>]"
  "agent_leases (add_txn tx tid l) = agent_leases l"
  "blockers (add_txn tx tid l) = blockers l"
  "isolation_scope (add_txn tx tid l) = isolation_scope l"
  "execution_log (add_txn tx tid l) = execution_log l"
  "execution_history (add_txn tx tid l) = execution_history l"
  "execution_evidence (add_txn tx tid l) = execution_evidence l"
  "task_ledger (add_txn tx tid l) = task_ledger l"
  "saga_journal (add_txn tx tid l) = saga_journal l @
     [\<lparr>txn_id = tx, x_task_id = tid, x_action = ''execute'', x_compensation = ''revert'',
       idempotency_key = tid @ ''-execute'', x_status = ''pending'', timeout_s = 600,
       attempts = None\<rparr>]"
  by (simp_all add: add_lease_def add_txn_def)

lemma set_fields [simp]:
  "agent_leases (set_txn i f l) = agent_leases l"
  "blockers (set_txn i f l) = blockers l"
  "isolation_scope (set_txn i f l) = isolation_scope l"
  "execution_log (set_txn i f l) = execution_log l"
  "execution_history (set_txn i f l) = execution_history l"
  "execution_evidence (set_txn i f l) = execution_evidence l"
  "task_ledger (set_txn i f l) = task_ledger l"
  "saga_journal (set_txn i f l) = (saga_journal l)[i := f (saga_journal l ! i)]"
  "saga_journal (set_lease i g l) = saga_journal l"
  "blockers (set_lease i g l) = blockers l"
  "isolation_scope (set_lease i g l) = isolation_scope l"
  "execution_log (set_lease i g l) = execution_log l"
  "execution_history (set_lease i g l) = execution_history l"
  "execution_evidence (set_lease i g l) = execution_evidence l"
  "task_ledger (set_lease i g l) = task_ledger l"
  "agent_leases (set_lease i g l) = (agent_leases l)[i := g (agent_leases l ! i)]"
  by (simp_all add: set_txn_def set_lease_def)

section \<open>Blocking\<close>

text \<open>
  The tail shared by escalation and dependency blocking: after the blocker is added, the
  entry is written, the status set and the event logged.
\<close>

definition block_tail ::
  "digest \<Rightarrow> string \<Rightarrow> string \<Rightarrow> string \<Rightarrow> string \<Rightarrow> ledger \<Rightarrow> ledger res" where
  "block_tail H task_id why from_st stamp l =
     bindR (update_task task_id (block_entry why) l) (\<lambda>l.
     bindR (set_status l task_id ''blocked'') (\<lambda>l.
     log_event H (mk_event (isolation_scope l) ''task_blocked'' task_id stamp [])
       (add_history l task_id from_st ''blocked'' stamp)))"

lemma escalate_tail:
  "escalate H env task_id why stamp l =
     bindI (ids env ''B'') (\<lambda>bid.
     liftI (block_tail H task_id why ''in_progress'' stamp (add_blocker bid task_id why l)))"
  by (simp add: escalate_def block_tail_def)

definition blocked_entry :: "string \<Rightarrow> task_entry \<Rightarrow> task_entry" where
  "blocked_entry why e = e\<lparr>te_blocked_reason := Some why, te_decision_owner := Some ''operator'',
     te_status := ''blocked''\<rparr>"

lemma block_entry_id [simp]: "te_task_id (block_entry why e) = te_task_id e"
  "te_title (block_entry why e) = te_title e" "te_criteria (block_entry why e) = te_criteria e"
  by (simp_all add: block_entry_def)

lemma block_tail_effect:
  assumes "block_tail H tid why from_st stamp l = Inr l'"
  shows "touches H tid l l'"
    and "\<exists>e. find_task l tid = Inr e \<and>
       (\<forall>t. find_task l' t = (if t = tid then Inr (blocked_entry why e) else find_task l t))"
    and "agent_leases l' = agent_leases l" "saga_journal l' = saga_journal l"
      "execution_evidence l' = execution_evidence l" "blockers l' = blockers l"
    and "execution_history l' = execution_history l @
       [\<lparr>h_at = stamp, h_task_id = tid, from_status = from_st, to_status = ''blocked''\<rparr>]"
    and "\<exists>ev. chain_event H (execution_log l)
          (mk_event (isolation_scope l) ''task_blocked'' tid stamp []) = Inr ev
        \<and> execution_log l' = execution_log l @ [ev]"
proof -
  from assms obtain l1 l2 where
    1: "update_task tid (block_entry why) l = Inr l1" and
    2: "set_status l1 tid ''blocked'' = Inr l2" and
    3: "log_event H (mk_event (isolation_scope l2) ''task_blocked'' tid stamp [])
          (add_history l2 tid from_st ''blocked'' stamp) = Inr l'"
    by (auto simp: block_tail_def bindR_Inr_iff)
  note f = update_task_fields [OF 1] set_status_fields [OF 2] log_event_fields [OF 3]
  have t1: "touches H tid l l1" by (rule touches_update_task [OF 1]) simp
  have t2: "touches H tid l1 l2" by (rule touches_set_status [OF 2])
  have t3: "touches H tid (add_history l2 tid from_st ''blocked'' stamp) l'"
    by (rule touches_log_event) (use 3 in simp)
  show "touches H tid l l'"
    by (rule touches_trans [OF t1 touches_trans [OF t2 touches_trans [OF touches_add_history t3]]])
  show "\<exists>e. find_task l tid = Inr e \<and>
       (\<forall>t. find_task l' t = (if t = tid then Inr (blocked_entry why e) else find_task l t))"
    using find_task_update [OF 1] find_task_set_status [OF 2] find_task_log_event [OF 3]
    by (auto simp: blocked_entry_def block_entry_def)
  show "agent_leases l' = agent_leases l" "saga_journal l' = saga_journal l"
      "execution_evidence l' = execution_evidence l" "blockers l' = blockers l"
    "execution_history l' = execution_history l @
       [\<lparr>h_at = stamp, h_task_id = tid, from_status = from_st, to_status = ''blocked''\<rparr>]"
    using f by simp_all
  show "\<exists>ev. chain_event H (execution_log l)
          (mk_event (isolation_scope l) ''task_blocked'' tid stamp []) = Inr ev
        \<and> execution_log l' = execution_log l @ [ev]"
    using 3 f by (auto simp: log_event_Inr)
qed

lemma escalate_effect:
  assumes "escalate H env tid why stamp l w = (Inr l', w')"
  obtains bid where "block_tail H tid why ''in_progress'' stamp (add_blocker bid tid why l) = Inr l'"
  using assms by (auto simp: escalate_tail bindI_Inr_iff)

lemma block_unmet_effect:
  assumes "block_unmet_deps H env node l w = (Inr l', w')" and "item node ''task_id'' = Inr tid"
  obtains bid stamp where
    "block_tail H (py_str tid) ''dependency not satisfied'' ''pending'' stamp
       (add_blocker bid (py_str tid) ''dependency not satisfied'' l) = Inr l'"
  using assms by (auto simp: block_unmet_deps_def block_tail_def bindI_Inr_iff Let_def)

end
