(* ===== verification/StepFacts.thy ===== *)
theory StepFacts
  imports LoopFacts
begin

text \<open>
  The effect of running one task, composed from the effects of its parts.
  \<open>moves H tid l l' hs es bs\<close> is a step on the task \<open>tid\<close> that appends exactly the
  history transitions \<open>hs\<close>, the events \<open>es\<close> and the blockers \<open>bs\<close>, each seen
  through a projection that forgets clock readings, ids and hashes.
\<close>

section \<open>Traces\<close>

definition ev_sig :: "val \<Rightarrow> string \<times> string \<times> val" where
  "ev_sig e = (case e of
      VDict kvs \<Rightarrow> (py_str (dget kvs ''event_type''), py_str (dget kvs ''subject_id''), dget kvs ''touched_paths'')
    | _ \<Rightarrow> ([], [], VNone))"

definition hist_sig :: "history_entry \<Rightarrow> string \<times> string \<times> string" where
  "hist_sig h = (h_task_id h, from_status h, to_status h)"

definition blk_sig :: "blocker \<Rightarrow> string \<times> string" where
  "blk_sig b = (b_task_id b, b_description b)"

definition moves ::
  "digest \<Rightarrow> string \<Rightarrow> ledger \<Rightarrow> ledger \<Rightarrow> (string \<times> string \<times> string) list
     \<Rightarrow> (string \<times> string \<times> val) list \<Rightarrow> (string \<times> string) list \<Rightarrow> bool" where
  "moves H tid l l' hs es bs \<longleftrightarrow> touches H tid l l'
     \<and> map hist_sig (execution_history l') = map hist_sig (execution_history l) @ hs
     \<and> map ev_sig (execution_log l') = map ev_sig (execution_log l) @ es
     \<and> map blk_sig (blockers l') = map blk_sig (blockers l) @ bs"

lemma moves_touches: "moves H tid l l' hs es bs \<Longrightarrow> touches H tid l l'"
  by (simp add: moves_def)

lemma moves_refl [simp]: "moves H tid l l [] [] []"
  by (simp add: moves_def)

lemma moves_trans:
  "moves H tid a b hs es bs \<Longrightarrow> moves H tid b c hs' es' bs' \<Longrightarrow> moves H tid a c (hs @ hs') (es @ es') (bs @ bs')"
  by (auto simp: moves_def intro: touches_trans)

lemma moves_set [simp]:
  "moves H tid l (set_lease i f l) [] [] []"
  "moves H tid l (set_txn i g l) [] [] []"
  "moves H tid l (l\<lparr>agent_leases := a\<rparr>) [] [] []"
  "moves H tid l (l\<lparr>saga_journal := b\<rparr>) [] [] []"
  "moves H tid l (l\<lparr>execution_evidence := c\<rparr>) [] [] []"
  "moves H tid l (add_lease lid tid' agent acquired l) [] [] []"
  "moves H tid l (add_txn tx tid' l) [] [] []"
  by (simp_all add: moves_def)

lemma moves_add_history [simp]: "moves H tid l (add_history l tid a b t) [(tid, a, b)] [] []"
  by (simp add: moves_def hist_sig_def)

lemma moves_add_blocker [simp]: "moves H tid l (add_blocker bid tid why l) [] [] [(tid, why)]"
  by (simp add: moves_def blk_sig_def)

lemma moves_set_status: "set_status l tid st = Inr l' \<Longrightarrow> moves H tid l l' [] [] []"
  by (simp add: moves_def touches_set_status set_status_fields)

lemma chained_sig:
  assumes "chain_event H elog (mk_event sc et tid t ps) = Inr e"
  shows "ev_sig e = (et, tid, strs ps)"
proof -
  obtain kvs where "e = VDict kvs" and get: "\<And>k. k \<notin> {''sequence'', ''previous_event_hash'', ''event_hash''} \<Longrightarrow>
      dget kvs k = dget (mk_event sc et tid t ps) k"
    by (rule chained_fields [OF assms]) blast
  then show ?thesis by (simp add: ev_sig_def get)
qed

lemma moves_log_event:
  assumes "log_event H (mk_event (isolation_scope l) et tid t ps) l = Inr l'"
  shows "moves H tid l l' [] [(et, tid, strs ps)] []"
proof -
  from assms obtain e where "chain_event H (execution_log l) (mk_event (isolation_scope l) et tid t ps) = Inr e"
    and l': "l' = l\<lparr>execution_log := execution_log l @ [e]\<rparr>"
    by (auto simp: log_event_Inr)
  from chained_sig [OF this(1)] touches_log_event [OF assms] show ?thesis
    by (simp add: moves_def l')
qed

section \<open>Other tasks\<close>

lemma find_append: "find p (xs @ ys) = (case find p xs of None \<Rightarrow> find p ys | Some x \<Rightarrow> Some x)"
  by (induction xs) auto

lemma find_same_task:
  assumes "same_tasks tid ts ts'" and "t \<noteq> tid"
  shows "find (is_entry t) ts' = find (is_entry t) ts"
proof (cases "ts' = ts")
  case False
  with assms(1) obtain us e e' vs where
    ts: "ts = us @ e # vs" "ts' = us @ e' # vs" "same_task tid e e'"
    unfolding same_tasks_def by blast
  from same_task_entry [OF ts(3)] assms(2) have "\<not> is_entry t e" "\<not> is_entry t e'"
    using is_entry_unique by blast+
  then show ?thesis by (simp add: ts find_append split: option.splits)
qed simp

text \<open>The entries after a step: those before it, and the task's own.\<close>

lemma find_entry:
  assumes "\<forall>u \<in> set us. \<not> is_entry t u" and "is_entry t e"
  shows "find (is_entry t) (us @ e # vs) = Some e"
proof -
  from assms(1) have "find (is_entry t) us = None" by (simp add: find_None_iff)
  with assms(2) show ?thesis by (simp add: find_append)
qed

lemma same_tasks_members:
  assumes "same_tasks tid ts ts'" and "find (is_entry tid) ts = Some e" and "find (is_entry tid) ts' = Some e'"
  obtains us vs where "ts = us @ e # vs" "ts' = us @ e' # vs"
proof (cases "ts' = ts")
  case True
  with assms(2,3) have "e' = e" by simp
  from assms(2) obtain us vs where "ts = us @ e # vs"
    by (auto simp: find_Some_iff) (metis id_take_nth_drop)
  with True \<open>e' = e\<close> that show ?thesis by blast
next
  case False
  with assms(1) obtain us f f' vs where
    ts: "ts = us @ f # vs" "ts' = us @ f' # vs" "\<forall>u \<in> set us. \<not> is_entry tid u" "same_task tid f f'"
    unfolding same_tasks_def by blast
  with same_task_entry [OF ts(4)] assms(2,3) have "f = e" "f' = e'" by (simp_all add: find_entry)
  with ts that show ?thesis by blast
qed

lemma find_task_find: "find_task l t = Inr e \<longleftrightarrow> find (is_entry t) (task_ledger l) = Some e"
  by (simp add: find_task_def split: option.splits)

lemma touches_members:
  assumes "touches H tid l l'" and "find_task l tid = Inr e" and "find_task l' tid = Inr e'"
  obtains us vs where "task_ledger l = us @ e # vs" "task_ledger l' = us @ e' # vs"
  using same_tasks_members [of tid "task_ledger l" "task_ledger l'" e e'] assms
  unfolding find_task_find touches_def by blast

lemma touches_find_other: "touches H tid l l' \<Longrightarrow> t \<noteq> tid \<Longrightarrow> find_task l' t = find_task l t"
  using find_same_task [of tid "task_ledger l" "task_ledger l'" t] by (simp add: touches_def find_task_def)

lemma touches_scope: "touches H tid l l' \<Longrightarrow> isolation_scope l' = isolation_scope l"
  by (simp add: touches_def same_control_def)

section \<open>The parts of a task run\<close>

lemma block_tail_moves:
  assumes "block_tail H tid why from_st stamp (add_blocker bid tid why l) = Inr l'"
  shows "moves H tid l l' [(tid, from_st, ''blocked'')] [(''task_blocked'', tid, strs [])] [(tid, why)]"
proof -
  note b = block_tail_effect [OF assms]
  have "touches H tid l l'" by (rule touches_trans [OF touches_add_blocker b(1)])
  moreover obtain ev where "chain_event H (execution_log l)
      (mk_event (isolation_scope l) ''task_blocked'' tid stamp []) = Inr ev" "execution_log l' = execution_log l @ [ev]"
    using b(8) by auto
  ultimately show ?thesis
    using b(6,7) chained_sig by (auto simp: moves_def hist_sig_def blk_sig_def)
qed

lemma open_task_effect:
  assumes "open_task H agent env tid acquired l w = (Inr l', w')"
  shows "moves H tid l l' [(tid, ''pending'', ''in_progress'')] [(''task_started'', tid, strs [])] []"
    and "\<exists>e. find_task l tid = Inr e \<and> find_task l' tid = Inr (e\<lparr>te_status := ''in_progress''\<rparr>)"
    and "\<exists>x. agent_leases l' = agent_leases l @ [x] \<and> l_task_id x = tid \<and> agent_id x = agent"
    and "\<exists>x. saga_journal l' = saga_journal l @ [x] \<and> x_task_id x = tid
       \<and> idempotency_key x = tid @ ''-execute'' \<and> x_status x = ''pending''"
    and "execution_evidence l' = execution_evidence l"
proof -
  let ?la = "\<lambda>lid. add_lease lid tid agent acquired l"
  let ?lb = "\<lambda>lid tx. add_txn tx tid (?la lid)"
  from assms obtain lid tx st l1 where
    1: "set_status (?lb lid tx) tid ''in_progress'' = Inr l1" and
    2: "log_event H (mk_event (isolation_scope l1) ''task_started'' tid st [])
         (add_history l1 tid ''pending'' ''in_progress'' st) = Inr l'"
    by (auto simp: open_task_def bindI_Inr_iff bindR_Inr_iff)
  note f = set_status_fields [OF 1] log_event_fields [OF 2]
  have m: "moves H tid l (?la lid) [] [] []" "moves H tid (?la lid) (?lb lid tx) [] [] []"
    by simp_all
  have "moves H tid (add_history l1 tid ''pending'' ''in_progress'' st) l' [] [(''task_started'', tid, strs [])] []"
    by (rule moves_log_event) (use 2 in simp)
  from moves_trans [OF moves_trans [OF moves_trans [OF m] moves_set_status [OF 1]] moves_trans [OF moves_add_history this]]
  show "moves H tid l l' [(tid, ''pending'', ''in_progress'')] [(''task_started'', tid, strs [])] []"
    by simp
  show "\<exists>e. find_task l tid = Inr e \<and> find_task l' tid = Inr (e\<lparr>te_status := ''in_progress''\<rparr>)"
    using find_task_set_status [OF 1] find_task_log_event [OF 2] by auto
  show "\<exists>x. agent_leases l' = agent_leases l @ [x] \<and> l_task_id x = tid \<and> agent_id x = agent"
    "\<exists>x. saga_journal l' = saga_journal l @ [x] \<and> x_task_id x = tid
       \<and> idempotency_key x = tid @ ''-execute'' \<and> x_status x = ''pending''"
    "execution_evidence l' = execution_evidence l"
    using f by simp_all
qed

end
