(* ===== verification/TaskRun.thy ===== *)
theory TaskRun
  imports StepFacts
begin

text \<open>
  One task run, whole: the outcomes of \<open>_run_task\<close> as a datatype-free case analysis
  (skipped, refused by a lease, completed, failed), each with the entry of the task, the
  lease, the transaction and the exact trace it leaves.
\<close>

section \<open>Success\<close>

lemma record_file_moves:
  assumes "record_file H env tid l p w = (Inr l', w')"
  shows "moves H tid l l' [] [(''file_edited'', tid, strs [p])] []"
    and "agent_leases l' = agent_leases l" "saga_journal l' = saga_journal l"
      "execution_evidence l' = execution_evidence l" "find_task l' t = find_task l t"
proof -
  from assms obtain st where
    e: "log_event H (mk_event (isolation_scope l) ''file_edited'' tid st [p]) l = Inr l'"
    by (auto simp: record_file_def bindI_Inr_iff)
  show "moves H tid l l' [] [(''file_edited'', tid, strs [p])] []" by (rule moves_log_event [OF e])
  show "agent_leases l' = agent_leases l" "saga_journal l' = saga_journal l"
      "execution_evidence l' = execution_evidence l" "find_task l' t = find_task l t"
    using log_event_fields [OF e] find_task_log_event [OF e] by simp_all
qed

definition file_sigs :: "string \<Rightarrow> string list \<Rightarrow> (string \<times> string \<times> val) list" where
  "file_sigs tid ps = map (\<lambda>p. (''file_edited'', tid, strs [p])) ps"

lemma record_files_moves:
  assumes "foldI (record_file H env tid) l ps w = (Inr l', w')"
  shows "moves H tid l l' [] (file_sigs tid ps) [] \<and> agent_leases l' = agent_leases l
    \<and> saga_journal l' = saga_journal l \<and> execution_evidence l' = execution_evidence l
    \<and> (\<forall>t. find_task l' t = find_task l t)"
  using assms
proof (induction ps arbitrary: l w)
  case Nil
  then show ?case by (simp add: file_sigs_def)
next
  case (Cons p ps)
  from Cons.prems obtain l1 w1 where 1: "record_file H env tid l p w = (Inr l1, w1)"
    and 2: "foldI (record_file H env tid) l1 ps w1 = (Inr l', w')"
    by (auto simp: bindI_Inr_iff)
  note m = moves_trans [OF record_file_moves(1) [OF 1] Cons.IH [OF 2, THEN conjunct1]]
  show ?case using m Cons.IH [OF 2] record_file_moves(2-5) [OF 1] by (simp add: file_sigs_def)
qed

definition add_evidence_ref :: "string \<Rightarrow> task_entry \<Rightarrow> task_entry" where
  "add_evidence_ref eid e = e\<lparr>te_evidence_refs := te_evidence_refs e @ [eid], te_result := ''pass''\<rparr>"

text \<open>The entry after the evidence step: referenced and passed exactly when evidence came back.\<close>

definition evidenced :: "exec_result \<Rightarrow> task_entry \<Rightarrow> task_entry \<Rightarrow> bool" where
  "evidenced result e e' \<longleftrightarrow>
     (if evidence result = None then e' = e else \<exists>eid. e' = add_evidence_ref eid e)"

lemma record_evidence_moves:
  assumes "record_evidence env tid result l w = (Inr l', w')" and "find_task l tid = Inr e"
  shows "moves H tid l l' [] [] []"
    and "\<exists>e'. evidenced result e e' \<and> find_task l' tid = Inr e'"
    and "agent_leases l' = agent_leases l" "saga_journal l' = saga_journal l"
    and "length (execution_evidence l') = length (execution_evidence l) + (if evidence result = None then 0 else 1)"
proof -
  have "moves H tid l l' [] [] [] \<and> (\<exists>e'. evidenced result e e' \<and> find_task l' tid = Inr e')
    \<and> agent_leases l' = agent_leases l \<and> saga_journal l' = saga_journal l
    \<and> length (execution_evidence l') = length (execution_evidence l) + (if evidence result = None then 0 else 1)"
  proof (cases "evidence result")
    case None
    with assms show ?thesis by (simp add: record_evidence_def evidenced_def)
  next
    case (Some ev)
    let ?lb = "\<lambda>eid. l\<lparr>execution_evidence := execution_evidence l @ [evidence_entry eid tid ev]\<rparr>"
    from assms(1) Some obtain eid where
      u: "update_task tid (add_evidence_ref eid) (?lb eid) = Inr l'"
      by (auto simp: record_evidence_def bindI_Inr_iff add_evidence_ref_def [abs_def])
    note f = update_task_fields [OF u]
    have t: "touches H tid (?lb eid) l'" by (rule touches_update_task [OF u]) (simp add: add_evidence_ref_def)
    have m: "moves H tid (?lb eid) l' [] [] []" using t f by (simp add: moves_def)
    have "moves H tid l l' [] [] []" using moves_trans [OF moves_set(5) m] by simp
    moreover have "find_task l' tid = Inr (add_evidence_ref eid e)"
      using find_task_update [OF u] assms(2) by (auto simp: add_evidence_ref_def)
    ultimately show ?thesis using f Some by (auto simp: evidenced_def)
  qed
  then show "moves H tid l l' [] [] []" "\<exists>e'. evidenced result e e' \<and> find_task l' tid = Inr e'"
    "agent_leases l' = agent_leases l" "saga_journal l' = saga_journal l"
    "length (execution_evidence l') = length (execution_evidence l) + (if evidence result = None then 0 else 1)"
    by blast+
qed

definition success_sigs :: "string \<Rightarrow> exec_result \<Rightarrow> (string \<times> string \<times> val) list" where
  "success_sigs tid result = file_sigs tid (touched_paths result) @ [(''task_completed'', tid, strs [])]"

lemma complete_task_effect:
  assumes "complete_task H env tid xi result l w = (Inr l', w')" and e: "find_task l tid = Inr e"
  shows "moves H tid l l' [(tid, ''in_progress'', ''completed'')] (success_sigs tid result) []"
    and "\<exists>e'. evidenced result e e' \<and> find_task l' tid = Inr (e'\<lparr>te_status := ''completed''\<rparr>)"
    and "agent_leases l' = agent_leases l"
    and "saga_journal l' = (saga_journal l)[xi := (saga_journal l ! xi)\<lparr>x_status := ''committed''\<rparr>]"
proof -
  from assms(1) obtain l1 w1 l2 w2 st l3 l4 where
    1: "foldI (record_file H env tid) l (touched_paths result) w = (Inr l1, w1)" and
    2: "record_evidence env tid result l1 w1 = (Inr l2, w2)" and
    3: "set_status l2 tid ''completed'' = Inr l3" and
    4: "log_event H (mk_event (isolation_scope l3) ''task_completed'' tid st [])
         (add_history l3 tid ''in_progress'' ''completed'' st) = Inr l4" and
    5: "l' = set_txn xi (\<lambda>x. x\<lparr>x_status := ''committed''\<rparr>) l4"
    by (auto simp: complete_task_def bindI_Inr_iff bindR_Inr_iff)
  note r1 = record_files_moves [OF 1]
  have e1: "find_task l1 tid = Inr e" using r1 e by simp
  note r2 = record_evidence_moves [OF 2 e1]
  note f = set_status_fields [OF 3] log_event_fields [OF 4]
  have m4: "moves H tid (add_history l3 tid ''in_progress'' ''completed'' st) l4 []
      [(''task_completed'', tid, strs [])] []"
    by (rule moves_log_event) (use 4 in simp)
  note m12 = moves_trans [OF r1 [THEN conjunct1] moves_trans [OF r2(1) moves_set_status [OF 3]]]
  note m34 = moves_trans [OF moves_add_history moves_trans [OF m4 moves_set(2)]]
  show "moves H tid l l' [(tid, ''in_progress'', ''completed'')] (success_sigs tid result) []"
    using moves_trans [OF m12 m34] by (simp add: 5 success_sigs_def)
  show "\<exists>e'. evidenced result e e' \<and> find_task l' tid = Inr (e'\<lparr>te_status := ''completed''\<rparr>)"
    using r2(2) find_task_set_status [OF 3] find_task_log_event [OF 4] by (auto simp: 5)
  show "agent_leases l' = agent_leases l"
    using r1 r2(3) f by (simp add: 5)
  show "saga_journal l' = (saga_journal l)[xi := (saga_journal l ! xi)\<lparr>x_status := ''committed''\<rparr>]"
    using r1 r2(4) f by (simp add: 5)
qed

section \<open>Failure\<close>

definition failure_sigs :: "string \<Rightarrow> exec_result \<Rightarrow> (string \<times> string \<times> val) list" where
  "failure_sigs tid result =
     (if touched_paths result = [] then [] else [(''compensation'', tid, strs (touched_paths result))])
     @ [(''task_blocked'', tid, strs [])]"

definition failed_txn :: "exec_result \<Rightarrow> txn \<Rightarrow> txn" where
  "failed_txn result x = (if touched_paths result = [] then x else x\<lparr>x_status := ''compensated''\<rparr>)"

lemma compensation_effect:
  assumes "(if touched_paths result = [] then retI l else
        bindI (compensate env (touched_paths result)) (\<lambda>_.
        bindI (clock env) (\<lambda>stamp.
        bindI (liftI (log_event H (mk_event (isolation_scope l) ''compensation'' tid stamp
                 (touched_paths result)) l)) (\<lambda>l.
        retI (set_txn xi (\<lambda>x. x\<lparr>x_status := ''compensated''\<rparr>) l))))) w = (Inr l', w')"
    and "xi < length (saga_journal l)"
  shows "moves H tid l l' []
      (if touched_paths result = [] then [] else [(''compensation'', tid, strs (touched_paths result))]) []"
    and "find_task l' t = find_task l t" "agent_leases l' = agent_leases l"
    and "saga_journal l' = (saga_journal l)[xi := failed_txn result (saga_journal l ! xi)]"
proof -
  have "moves H tid l l' []
      (if touched_paths result = [] then [] else [(''compensation'', tid, strs (touched_paths result))]) []
    \<and> find_task l' t = find_task l t \<and> agent_leases l' = agent_leases l
    \<and> saga_journal l' = (saga_journal l)[xi := failed_txn result (saga_journal l ! xi)]"
  proof (cases "touched_paths result = []")
    case True
    with assms show ?thesis by (simp add: failed_txn_def)
  next
    case False
    with assms(1) obtain st l1 where
      1: "log_event H (mk_event (isolation_scope l) ''compensation'' tid st (touched_paths result)) l = Inr l1"
      and 2: "l' = set_txn xi (\<lambda>x. x\<lparr>x_status := ''compensated''\<rparr>) l1"
      by (auto simp: bindI_Inr_iff)
    show ?thesis
      using moves_trans [OF moves_log_event [OF 1] moves_set(2)] log_event_fields [OF 1] find_task_log_event [OF 1] False
      by (simp add: 2 failed_txn_def)
  qed
  then show "moves H tid l l' []
      (if touched_paths result = [] then [] else [(''compensation'', tid, strs (touched_paths result))]) []"
    "find_task l' t = find_task l t" "agent_leases l' = agent_leases l"
    "saga_journal l' = (saga_journal l)[xi := failed_txn result (saga_journal l ! xi)]"
    by blast+
qed

lemma fail_task_effect:
  assumes "fail_task H env tid xi result l w = (Inr l', w')" and "find_task l tid = Inr e"
    and xi: "xi < length (saga_journal l)"
  shows "moves H tid l l' [(tid, ''in_progress'', ''blocked'')] (failure_sigs tid result)
      [(tid, failure_reason result)]"
    and "find_task l' tid = Inr (blocked_entry (failure_reason result) e)"
    and "agent_leases l' = agent_leases l"
    and "saga_journal l' = (saga_journal l)[xi := failed_txn result (saga_journal l ! xi)]"
proof -
  from assms(1) obtain l1 w1 st w2 where
    1: "(if touched_paths result = [] then retI l else
        bindI (compensate env (touched_paths result)) (\<lambda>_.
        bindI (clock env) (\<lambda>stamp.
        bindI (liftI (log_event H (mk_event (isolation_scope l) ''compensation'' tid stamp
                 (touched_paths result)) l)) (\<lambda>l.
        retI (set_txn xi (\<lambda>x. x\<lparr>x_status := ''compensated''\<rparr>) l))))) w = (Inr l1, w1)"
    and 2: "escalate H env tid (failure_reason result) st l1 w2 = (Inr l', w')"
    unfolding fail_task_def by (auto simp only: bindI_Inr_iff)
  note c = compensation_effect [OF 1 xi]
  obtain bid where b: "block_tail H tid (failure_reason result) ''in_progress'' st
      (add_blocker bid tid (failure_reason result) l1) = Inr l'"
    by (rule escalate_effect [OF 2])
  show "moves H tid l l' [(tid, ''in_progress'', ''blocked'')] (failure_sigs tid result)
      [(tid, failure_reason result)]"
    using moves_trans [OF c(1) block_tail_moves [OF b]] by (simp add: failure_sigs_def)
  show "find_task l' tid = Inr (blocked_entry (failure_reason result) e)"
    using block_tail_effect(2) [OF b] c(2) [of tid] assms(2) by auto
  show "agent_leases l' = agent_leases l"
    "saga_journal l' = (saga_journal l)[xi := failed_txn result (saga_journal l ! xi)]"
    using block_tail_effect(3,4) [OF b] c(3,4) by simp_all
qed

section \<open>Attempts\<close>

definition succeeded :: "exec_result \<Rightarrow> bool" where
  "succeeded result \<longleftrightarrow> outcome result = ''success''"

lemma retry_loop_bounds:
  "retry_loop env node sc mr bb attempt w = (Inr (result, n), w') \<Longrightarrow>
     attempt < n \<and> n \<le> max (attempt + 1) (mr + 1)
     \<and> (succeeded result \<or> \<not> retriable result \<or> mr < n)"
proof (induction env node sc mr bb attempt arbitrary: w rule: retry_loop.induct)
  case (1 env node sc mr bb attempt)
  from "1.prems" obtain r w1 where r: "execute env node sc w = (Inr r, w1)"
    by (subst (asm) retry_loop.simps) (auto simp: bindI_Inr_iff)
  show ?case
  proof (cases "outcome r \<noteq> ''success'' \<and> retriable r \<and> attempt + 1 \<le> mr")
    case True
    with "1.prems" r obtain w2 where
      "retry_loop env node sc mr bb (attempt + 1) w2 = (Inr (result, n), w')"
      by (subst (asm) retry_loop.simps) (auto simp: bindI_Inr_iff)
    from "1.IH" [of r, OF _ _ this] True show ?thesis by auto
  next
    case False
    with "1.prems" r have "result = r \<and> n = attempt + 1"
      by (subst (asm) retry_loop.simps) (auto simp: bindI_Inr_iff split: if_splits)
    with False show ?thesis by (auto simp: succeeded_def)
  qed
qed

section \<open>The whole run of a task\<close>

definition ran_hist :: "string \<Rightarrow> exec_result \<Rightarrow> (string \<times> string \<times> string) list" where
  "ran_hist tid result = [(tid, ''pending'', ''in_progress''),
     (tid, ''in_progress'', if succeeded result then ''completed'' else ''blocked'')]"

definition ran_sigs :: "string \<Rightarrow> exec_result \<Rightarrow> (string \<times> string \<times> val) list" where
  "ran_sigs tid result = (''task_started'', tid, strs []) #
     (if succeeded result then success_sigs tid result else failure_sigs tid result)"

definition ran_entry :: "exec_result \<Rightarrow> task_entry \<Rightarrow> task_entry \<Rightarrow> bool" where
  "ran_entry result e e' \<longleftrightarrow>
     (if succeeded result
      then \<exists>e1. evidenced result (e\<lparr>te_status := ''in_progress''\<rparr>) e1 \<and> e' = e1\<lparr>te_status := ''completed''\<rparr>
      else e' = blocked_entry (failure_reason result) (e\<lparr>te_status := ''in_progress''\<rparr>))"

definition ran_txn :: "string \<Rightarrow> exec_result \<Rightarrow> int \<Rightarrow> txn \<Rightarrow> bool" where
  "ran_txn tid result n x \<longleftrightarrow> x_task_id x = tid \<and> idempotency_key x = tid @ ''-execute''
     \<and> attempts x = Some n \<and> x_status x =
        (if succeeded result then ''committed'' else if touched_paths result = [] then ''pending'' else ''compensated'')"

definition task_ran ::
  "digest \<Rightarrow> string \<Rightarrow> string \<Rightarrow> exec_result \<Rightarrow> int \<Rightarrow> ledger \<Rightarrow> ledger \<Rightarrow> bool" where
  "task_ran H agent tid result n l l' \<longleftrightarrow>
     moves H tid l l' (ran_hist tid result) (ran_sigs tid result)
       (if succeeded result then [] else [(tid, failure_reason result)])
     \<and> (\<exists>e e'. find_task l tid = Inr e \<and> find_task l' tid = Inr e' \<and> ran_entry result e e')
     \<and> (\<exists>x t. agent_leases l' = agent_leases l @ [x] \<and> l_task_id x = tid \<and> agent_id x = agent \<and> released_at x = Some t)
     \<and> (\<exists>x. saga_journal l' = saga_journal l @ [x] \<and> ran_txn tid result n x)"

lemma run_task_ran:
  assumes o: "open_task H agent env tid acquired l w0 = (Inr l1, w1)"
    and x: "execute_with_retry env node (isolation_scope l1) mr bb w1 = (Inr (result, n), w2)"
    and d: "(if outcome result = ''success''
        then complete_task H env tid (length (saga_journal l)) result
          (set_txn (length (saga_journal l)) (\<lambda>x. x\<lparr>attempts := Some n\<rparr>) l1)
        else fail_task H env tid (length (saga_journal l)) result
          (set_txn (length (saga_journal l)) (\<lambda>x. x\<lparr>attempts := Some n\<rparr>) l1)) w2 = (Inr l2, w3)"
  shows "task_ran H agent tid result n l (set_lease (length (agent_leases l)) (\<lambda>x. x\<lparr>released_at := Some t\<rparr>) l2)"
proof -
  let ?i = "length (saga_journal l)" and ?j = "length (agent_leases l)"
  let ?l = "set_txn ?i (\<lambda>x. x\<lparr>attempts := Some n\<rparr>) l1"
  note op = open_task_effect [OF o]
  from op(2) obtain e where e: "find_task l tid = Inr e" "find_task l1 tid = Inr (e\<lparr>te_status := ''in_progress''\<rparr>)"
    by blast
  then have e1: "find_task ?l tid = Inr (e\<lparr>te_status := ''in_progress''\<rparr>)" by simp
  from op(3) obtain le where le: "agent_leases l1 = agent_leases l @ [le]" "l_task_id le = tid" "agent_id le = agent" by blast
  from op(4) obtain x where x: "saga_journal l1 = saga_journal l @ [x]" "x_task_id x = tid"
    "idempotency_key x = tid @ ''-execute''" "x_status x = ''pending''" by blast
  have xi: "?i < length (saga_journal ?l)" by (simp add: x)
  note m1 = moves_trans [OF op(1) moves_set(2) [of H tid l1 ?i "\<lambda>x. x\<lparr>attempts := Some n\<rparr>"]]
  show ?thesis
  proof (cases "succeeded result")
    case True
    with d have c: "complete_task H env tid ?i result ?l w2 = (Inr l2, w3)" by (simp add: succeeded_def)
    note ce = complete_task_effect [OF c e1]
    show ?thesis
      using moves_trans [OF m1 moves_trans [OF ce(1) moves_set(1)]] ce(2-4) e le x True
      by (auto simp: task_ran_def ran_hist_def ran_sigs_def ran_entry_def ran_txn_def)
  next
    case False
    with d have c: "fail_task H env tid ?i result ?l w2 = (Inr l2, w3)" by (simp add: succeeded_def)
    note fe = fail_task_effect [OF c e1 xi]
    show ?thesis
      using moves_trans [OF m1 moves_trans [OF fe(1) moves_set(1)]] fe(2-4) e le x False
      by (auto simp: task_ran_def ran_hist_def ran_sigs_def ran_entry_def ran_txn_def failed_txn_def)
  qed
qed

declare bindI_lift [simp]

lemma run_task_cases:
  assumes "run_task H agent env mr bb node l w = (Inr l', w')"
    and "item node ''task_id'' = Inr v" and "tid = py_str v"
  obtains
    (skipped) "already_committed l (tid @ ''-execute'')" "l' = l" "w' = w"
  | (refused) bid stamp where "\<not> already_committed l (tid @ ''-execute'')"
      "\<not> can_acquire (agent_leases l) tid stamp"
      "block_tail H tid ''lease conflict'' ''in_progress'' stamp (add_blocker bid tid ''lease conflict'' l) = Inr l'"
  | (ran) result n w1 w2 where "\<not> already_committed l (tid @ ''-execute'')"
      "execute_with_retry env node (isolation_scope l) mr bb w1 = (Inr (result, n), w2)"
      "task_ran H agent tid result n l l'"
proof -
  have u: "(if already_committed l (tid @ ''-execute'') then retI l else
     bindI (clock env) (\<lambda>acquired.
     if \<not> can_acquire (agent_leases l) tid acquired
     then escalate H env tid ''lease conflict'' acquired l else
     let li = length (agent_leases l); xi = length (saga_journal l) in
     bindI (open_task H agent env tid acquired l) (\<lambda>l.
     bindI (execute_with_retry env node (isolation_scope l) mr bb) (\<lambda>(result, n).
     let l = set_txn xi (\<lambda>x. x\<lparr>attempts := Some n\<rparr>) l in
     bindI (if outcome result = ''success'' then complete_task H env tid xi result l
            else fail_task H env tid xi result l) (\<lambda>l.
     bindI (clock env) (\<lambda>released.
     retI (set_lease li (\<lambda>x. x\<lparr>released_at := Some released\<rparr>) l))))))) w = (Inr l', w')"
    using assms(1) by (simp only: run_task_def assms(2,3) bindI_lift Let_def)
  show ?thesis
  proof (cases "already_committed l (tid @ ''-execute'')")
    case True
    have "l' = l" "w' = w" using u [unfolded if_P [OF True]] by simp_all
    with True show ?thesis by (rule skipped)
  next
    case False
    note u = u [unfolded if_not_P [OF False]]
    from u obtain a w1 where a: "clock env w = (Inr a, w1)" unfolding bindI_Inr_iff by blast
    show ?thesis
    proof (cases "can_acquire (agent_leases l) tid a")
      case no: False
      with u a have "escalate H env tid ''lease conflict'' a l w1 = (Inr l', w')" by (simp add: bindI_app)
      then obtain bid where "block_tail H tid ''lease conflict'' ''in_progress'' a
          (add_blocker bid tid ''lease conflict'' l) = Inr l'" by (rule escalate_effect)
      with refused False no show ?thesis by blast
    next
      case yes: True
      from u a have v: "bindI (open_task H agent env tid a l) (\<lambda>l1.
          bindI (execute_with_retry env node (isolation_scope l1) mr bb) (\<lambda>(result, n).
          bindI (if outcome result = ''success''
            then complete_task H env tid (length (saga_journal l)) result
              (set_txn (length (saga_journal l)) (\<lambda>x. x\<lparr>attempts := Some n\<rparr>) l1)
            else fail_task H env tid (length (saga_journal l)) result
              (set_txn (length (saga_journal l)) (\<lambda>x. x\<lparr>attempts := Some n\<rparr>) l1)) (\<lambda>l2.
          bindI (clock env) (\<lambda>released.
          retI (set_lease (length (agent_leases l)) (\<lambda>x. x\<lparr>released_at := Some released\<rparr>) l2))))) w1 = (Inr l', w')"
        by (simp only: bindI_app [of "clock env" _ w] a Let_def yes not_True_eq_False if_False prod.case sum.case)
      obtain l1 w2 where o: "open_task H agent env tid a l w1 = (Inr l1, w2)"
        using v unfolding bindI_Inr_iff by blast
      obtain result n w3 where x: "execute_with_retry env node (isolation_scope l1) mr bb w2 = (Inr (result, n), w3)"
        using v o by (auto simp add: bindI_app split: prod.splits sum.splits)
      from v o x obtain l2 w4 t where
        d: "(if outcome result = ''success''
          then complete_task H env tid (length (saga_journal l)) result
            (set_txn (length (saga_journal l)) (\<lambda>x. x\<lparr>attempts := Some n\<rparr>) l1)
          else fail_task H env tid (length (saga_journal l)) result
            (set_txn (length (saga_journal l)) (\<lambda>x. x\<lparr>attempts := Some n\<rparr>) l1)) w3 = (Inr l2, w4)" and
        l': "l' = set_lease (length (agent_leases l)) (\<lambda>x. x\<lparr>released_at := Some t\<rparr>) l2"
        by (auto simp only: bindI_app [of "open_task H agent env tid a l"] bindI_app [of "execute_with_retry _ _ _ _ _"]
            prod.case sum.case bindI_Inr_iff retI_app prod.inject sum.inject)
      have "isolation_scope l1 = isolation_scope l"
        by (rule touches_scope [OF moves_touches [OF open_task_effect(1) [OF o]]])
      with ran [OF False] x run_task_ran [OF o x d, of t] l' show ?thesis by metis
    qed
  qed
qed

end
