(* ===== verification/DriveFacts.thy ===== *)
theory DriveFacts
  imports TaskRun
begin

text \<open>
  The loop over the topological order. \<open>fresh rest c l\<close> is the invariant of a run that
  started from an empty ledger, with \<open>rest\<close> the ids still to visit and \<open>c\<close> the completed
  ones. Under it no task is skipped by the idempotency test or refused by a lease, so a loop
  rule for the properties of a run only has to treat the two steps that do happen: a task
  that ran, and a task whose dependencies are not satisfied.
\<close>

definition is_done :: "ledger \<Rightarrow> string \<Rightarrow> bool" where
  "is_done l t \<longleftrightarrow> (case find_task l t of Inr e \<Rightarrow> te_status e = ''completed'' | Inl _ \<Rightarrow> False)"

definition is_pending :: "ledger \<Rightarrow> string \<Rightarrow> bool" where
  "is_pending l t \<longleftrightarrow> (case find_task l t of Inr e \<Rightarrow> te_status e = ''pending'' | Inl _ \<Rightarrow> False)"

lemma pending_not_done: "is_pending l t \<Longrightarrow> \<not> is_done l t"
  by (auto simp: is_pending_def is_done_def split: sum.splits)

definition fresh :: "string list \<Rightarrow> string set \<Rightarrow> ledger \<Rightarrow> bool" where
  "fresh rest c l \<longleftrightarrow> distinct rest \<and> c = {t. is_done l t}
     \<and> (\<forall>x \<in> set (agent_leases l). released_at x \<noteq> None \<and> l_task_id x \<notin> set rest)
     \<and> (\<forall>x \<in> set (saga_journal l). \<exists>t. t \<notin> set rest \<and> idempotency_key x = t @ ''-execute'')
     \<and> (\<forall>t \<in> set rest. \<forall>e. find_task l t = Inr e \<longrightarrow> te_status e = ''pending'')"

definition keyed :: "(string \<times> val) list \<Rightarrow> bool" where
  "keyed by_id \<longleftrightarrow> (\<forall>t node. lookup_node by_id t = Inr node \<longrightarrow>
     (\<exists>v. item node ''task_id'' = Inr v \<and> py_str v = t))"

lemma nodes_by_id_keyed: "nodes_by_id graph = Inr by_id \<Longrightarrow> keyed by_id"
  unfolding nodes_by_id_def
  by (erule foldR_invariant)
    (auto simp: keyed_def lookup_node_def bindR_Inr_iff split: option.splits if_splits)

lemma is_done_set: "find_task l t = Inr e \<Longrightarrow> is_done l t \<longleftrightarrow> te_status e = ''completed''"
  by (simp add: is_done_def)

lemma is_done_cong: "find_task l' t = find_task l t \<Longrightarrow> is_done l' t = is_done l t"
  by (simp add: is_done_def)

lemma ran_entry_status:
  "ran_entry result e e' \<Longrightarrow> te_status e' = (if succeeded result then ''completed'' else ''blocked'')"
  by (auto simp: ran_entry_def blocked_entry_def split: if_splits)

lemma ran_done:
  assumes "task_ran H agent t result n l l'" and "\<not> is_done l t"
  shows "{u. is_done l' u} = (if succeeded result then insert t {u. is_done l u} else {u. is_done l u})"
proof -
  from assms(1) obtain e e' where "find_task l' t = Inr e'" "ran_entry result e e'"
    and m: "touches H t l l'" by (auto simp: task_ran_def moves_def)
  then have "is_done l' t = succeeded result"
    using ran_entry_status [of result e e'] by (simp add: is_done_set)
  moreover have "is_done l' u = is_done l u" if "u \<noteq> t" for u
    by (rule is_done_cong) (rule touches_find_other [OF m that])
  ultimately show ?thesis using assms(2)
    by (intro set_eqI, rename_tac u, case_tac "u = t") simp_all
qed

lemma block_tail_done:
  assumes "block_tail H t why st stamp (add_blocker bid t why l) = Inr l'" and "\<not> is_done l t"
  shows "{u. is_done l' u} = {u. is_done l u}"
proof -
  from block_tail_effect(2) [OF assms(1)] obtain e where
    f: "\<And>u. find_task l' u = (if u = t then Inr (blocked_entry why e) else find_task l u)"
    unfolding find_task_frame by blast
  have "is_done l' u = is_done l u" for u
  proof (cases "u = t")
    case True
    with f have "\<not> is_done l' u" by (simp add: is_done_set blocked_entry_def)
    with True assms(2) show ?thesis by simp
  next
    case False
    then show ?thesis by (intro is_done_cong) (simp add: f)
  qed
  then show ?thesis by simp
qed

section \<open>Steps of a fresh loop\<close>

lemma key_inject [simp]: "t @ ''-execute'' = u @ ''-execute'' \<longleftrightarrow> t = u"
  by simp

lemma fresh_not_committed: "fresh (t # rest) c l \<Longrightarrow> \<not> already_committed l (t @ ''-execute'')"
  by (fastforce simp: fresh_def already_committed_def)

lemma fresh_can_acquire: "fresh (t # rest) c l \<Longrightarrow> can_acquire (agent_leases l) t now"
  by (auto simp: fresh_def can_acquire_def)

lemma fresh_run_task:
  assumes "fresh (t # rest) c l" and "keyed by_id" and "lookup_node by_id t = Inr node"
    and "run_task H agent env mr bb node l w = (Inr l', w')"
  obtains result n w1 w2 where "task_ran H agent t result n l l'"
    "execute_with_retry env node (isolation_scope l) mr bb w1 = (Inr (result, n), w2)"
proof -
  from assms(2,3) obtain v where v: "item node ''task_id'' = Inr v" "t = py_str v"
    unfolding keyed_def by blast
  show ?thesis
    by (rule run_task_cases [OF assms(4) v])
      (use fresh_not_committed [OF assms(1)] fresh_can_acquire [OF assms(1)] that in blast)+
qed

lemma fresh_ran:
  assumes f: "fresh (t # rest) c l" and r: "task_ran H agent t result n l l'" and d: "\<not> is_done l t"
  shows "fresh rest (if succeeded result then insert t c else c) l'"
proof -
  from f have f': "distinct (t # rest)" "c = {t. is_done l t}"
    "\<And>x. x \<in> set (agent_leases l) \<Longrightarrow> released_at x \<noteq> None \<and> l_task_id x \<notin> set (t # rest)"
    "\<And>x. x \<in> set (saga_journal l) \<Longrightarrow> \<exists>u. u \<notin> set (t # rest) \<and> idempotency_key x = u @ ''-execute''"
    "\<And>u e. u \<in> set (t # rest) \<Longrightarrow> find_task l u = Inr e \<Longrightarrow> te_status e = ''pending''"
    unfolding fresh_def by blast+
  from r have m: "touches H t l l'" by (simp add: task_ran_def moves_def)
  from r obtain x s where x: "agent_leases l' = agent_leases l @ [x]" "l_task_id x = t" "released_at x = Some s"
    unfolding task_ran_def by blast
  from r obtain y where y: "saga_journal l' = saga_journal l @ [y]" "idempotency_key y = t @ ''-execute''"
    unfolding task_ran_def ran_txn_def by blast
  have "te_status e = ''pending''" if u: "u \<in> set rest" "find_task l' u = Inr e" for u e
  proof -
    have "u \<noteq> t" using u(1) f'(1) by auto
    with touches_find_other [OF m] u f'(5) [of u e] show ?thesis by simp
  qed
  moreover have "\<exists>u. u \<notin> set rest \<and> idempotency_key z = u @ ''-execute''" if "z \<in> set (saga_journal l')" for z
  proof (cases "z = y")
    case True
    with y(2) f'(1) show ?thesis by auto
  next
    case False
    with that y(1) f'(4) [of z] show ?thesis by auto
  qed
  moreover have "released_at z \<noteq> None \<and> l_task_id z \<notin> set rest" if "z \<in> set (agent_leases l')" for z
    using that f'(1,3) x by auto
  moreover have "(if succeeded result then insert t c else c) = {u. is_done l' u}"
    using ran_done [OF r d] f'(2) by simp
  ultimately show ?thesis using f'(1) unfolding fresh_def by simp
qed

lemma fresh_block:
  assumes f: "fresh (t # rest) c l" and b: "block_tail H t why st stamp (add_blocker bid t why l) = Inr l'"
    and d: "\<not> is_done l t"
  shows "fresh rest c l'"
proof -
  note e = block_tail_effect [OF b]
  have "find_task l' u = find_task l u" if "u \<in> set rest" for u
    using e(2) that f by (auto simp: fresh_def)
  moreover have "{u. is_done l' u} = c" using block_tail_done [OF b d] f by (simp add: fresh_def)
  ultimately show ?thesis using f e(3,4) by (auto simp: fresh_def)
qed

section \<open>The loop rule\<close>

text \<open>What one id makes the loop do, when the loop returns.\<close>

lemma drive_loop_cases [consumes 1, case_names skipped stopped ran unmet]:
  assumes "drive_loop H agent env mr bb by_id (t # rest) c l w = (Inr (st, l'), w')"
    and skipped: "\<And>e. find_task l t = Inr e \<Longrightarrow> te_status e = ''completed'' \<Longrightarrow>
      drive_loop H agent env mr bb by_id rest (insert t c) l w = (Inr (st, l'), w') \<Longrightarrow> P"
    and stopped: "\<And>e. find_task l t = Inr e \<Longrightarrow> te_status e \<noteq> ''completed'' \<Longrightarrow>
      control env w = (Inr st, w') \<Longrightarrow> stops st \<Longrightarrow> l' = l \<Longrightarrow> P"
    and ran: "\<And>e state w1 node deps l1 w2 e1. find_task l t = Inr e \<Longrightarrow> te_status e \<noteq> ''completed'' \<Longrightarrow>
      control env w = (Inr state, w1) \<Longrightarrow> \<not> stops state \<Longrightarrow> lookup_node by_id t = Inr node \<Longrightarrow>
      node_deps node = Inr deps \<Longrightarrow> set deps \<subseteq> c \<Longrightarrow> run_task H agent env mr bb node l w1 = (Inr l1, w2) \<Longrightarrow>
      find_task l1 t = Inr e1 \<Longrightarrow> drive_loop H agent env mr bb by_id rest
        (if te_status e1 = ''completed'' then insert t c else c) l1 w2 = (Inr (st, l'), w') \<Longrightarrow> P"
    and unmet: "\<And>e state w1 node deps l1 w2. find_task l t = Inr e \<Longrightarrow> te_status e \<noteq> ''completed'' \<Longrightarrow>
      control env w = (Inr state, w1) \<Longrightarrow> \<not> stops state \<Longrightarrow> lookup_node by_id t = Inr node \<Longrightarrow>
      node_deps node = Inr deps \<Longrightarrow> \<not> set deps \<subseteq> c \<Longrightarrow> block_unmet_deps H env node l w1 = (Inr l1, w2) \<Longrightarrow>
      drive_loop H agent env mr bb by_id rest c l1 w2 = (Inr (st, l'), w') \<Longrightarrow> P"
  shows P
proof -
  obtain e where e: "find_task l t = Inr e" using assms(1) by (auto simp: bindI_Inr_iff)
  show P
  proof (cases "te_status e = ''completed''")
    case True
    with assms(1) e show P by (intro skipped [OF e True]) simp
  next
    case open_e: False
    note loop = assms(1) [unfolded drive_loop.simps e bindI_lift if_not_P [OF open_e]]
    obtain state w1 where state: "control env w = (Inr state, w1)" using loop by (auto simp: bindI_Inr_iff)
    note loop = loop [unfolded bindI_app [of "control env"] state prod.case sum.case]
    show P
    proof (cases "stops state")
      case True
      with loop have "st = state" "l' = l" "w' = w1" by auto
      with state True show P by (intro stopped [OF e open_e]) simp_all
    next
      case go: False
      note loop = loop [unfolded if_not_P [OF go]]
      obtain node where node: "lookup_node by_id t = Inr node" using loop by (auto simp: bindI_Inr_iff)
      note loop = loop [unfolded node bindI_lift]
      obtain deps where deps: "node_deps node = Inr deps" using loop by (auto simp: bindI_Inr_iff)
      note loop = loop [unfolded deps bindI_lift]
      show P
      proof (cases "set deps \<subseteq> c")
        case True
        from loop [unfolded if_P [OF True] bindI_Inr_iff liftI_app prod.inject] show P
          using ran [OF e open_e state go node deps True] by blast
      next
        case False
        from loop [unfolded if_not_P [OF False] bindI_Inr_iff] show P
          using unmet [OF e open_e state go node deps False] by blast
      qed
    qed
  qed
qed

lemma keyed_block_unmet:
  assumes "keyed by_id" "lookup_node by_id t = Inr node" "block_unmet_deps H env node l w = (Inr l', w')"
  obtains bid stamp where "block_tail H t ''dependency not satisfied'' ''pending'' stamp
    (add_blocker bid t ''dependency not satisfied'' l) = Inr l'"
proof -
  from assms(1,2) obtain v where "item node ''task_id'' = Inr v" "py_str v = t" unfolding keyed_def by blast
  with block_unmet_effect [OF assms(3) this(1)] show ?thesis using that by blast
qed

lemma fresh_loop_rule:
  assumes "drive_loop H agent env mr bb by_id order c l w = (Inr (st, l'), w')"
    and "fresh order c l" and "J c l" and k: "keyed by_id"
    and ran: "\<And>t c l l' result n node deps w1 w2. J c l \<Longrightarrow> is_pending l t \<Longrightarrow> c = {u. is_done l u} \<Longrightarrow> lookup_node by_id t = Inr node
       \<Longrightarrow> node_deps node = Inr deps \<Longrightarrow> set deps \<subseteq> c
       \<Longrightarrow> execute_with_retry env node (isolation_scope l) mr bb w1 = (Inr (result, n), w2) \<Longrightarrow> task_ran H agent t result n l l'
       \<Longrightarrow> J (if succeeded result then insert t c else c) l'"
    and blocked: "\<And>t c l l' node deps stamp bid. J c l \<Longrightarrow> is_pending l t \<Longrightarrow> c = {u. is_done l u} \<Longrightarrow> lookup_node by_id t = Inr node
       \<Longrightarrow> node_deps node = Inr deps \<Longrightarrow> \<not> set deps \<subseteq> c
       \<Longrightarrow> block_tail H t ''dependency not satisfied'' ''pending'' stamp
             (add_blocker bid t ''dependency not satisfied'' l) = Inr l'
       \<Longrightarrow> J c l'"
  shows "\<exists>rest c'. fresh rest c' l' \<and> J c' l' \<and> suffix rest order \<and> (rest = [] \<and> st = ''completed'' \<or> rest \<noteq> [] \<and> stops st)"
  using assms(1,2,3)
proof (induction order arbitrary: c l w)
  case Nil
  then show ?case by auto
next
  case (Cons t rest)
  obtain e where e: "find_task l t = Inr e" using Cons.prems(1) by (auto simp: bindI_Inr_iff)
  with Cons.prems(2) have pending: "te_status e = ''pending''" by (simp add: fresh_def)
  then have nd: "\<not> is_done l t" by (simp add: is_done_set [OF e])
  with Cons.prems(2) pending have tc: "is_pending l t" "c = {u. is_done l u}"
    by (simp_all add: fresh_def is_pending_def e)
  from Cons.prems(1) show ?case
  proof (cases rule: drive_loop_cases)
    case (skipped e')
    with nd show ?thesis by (simp add: is_done_set)
  next
    case (stopped e)
    with Cons.prems(2,3) show ?thesis by blast
  next
    case (ran e state w1 node deps l1 w2 e1)
    obtain result n u1 u2 where ran1: "task_ran H agent t result n l l1" and
      x: "execute_with_retry env node (isolation_scope l) mr bb u1 = (Inr (result, n), u2)"
      by (rule fresh_run_task [OF Cons.prems(2) k ran(5,8)])
    from ran1 obtain e0 where "ran_entry result e0 e1" using ran(9) unfolding task_ran_def by auto
    from ran_entry_status [OF this]
    have c1: "(if te_status e1 = ''completed'' then insert t c else c) = (if succeeded result then insert t c else c)"
      by simp
    from Cons.IH [OF ran(10) [unfolded c1] fresh_ran [OF Cons.prems(2) ran1 nd]
        assms(5) [OF Cons.prems(3) tc ran(5-7) x ran1]]
    show ?thesis by (blast intro: suffix_ConsI)
  next
    case (unmet e state w1 node deps l1 w2)
    obtain bid stamp where bt: "block_tail H t ''dependency not satisfied'' ''pending'' stamp
        (add_blocker bid t ''dependency not satisfied'' l) = Inr l1"
      by (rule keyed_block_unmet [OF k unmet(5,8)])
    from Cons.IH [OF unmet(9) fresh_block [OF Cons.prems(2) bt nd] blocked [OF Cons.prems(3) tc unmet(5-7) bt]]
    show ?thesis by (blast intro: suffix_ConsI)
  qed
qed

end
