(* ===== verification/RunProps.thy ===== *)
theory RunProps
  imports DriveFacts
begin

text \<open>
  What a run leaves in its ledger, for every executor, clock and control flag: the hash
  chain, the order of starts and completions, leases, transactions, transition histories,
  statuses and blockers, and the reconciliation.
\<close>

section \<open>The initial ledger\<close>

lemma init_task_fields:
  "init_task v = Inr e \<Longrightarrow> te_status e = ''pending'' \<and> te_evidence_refs e = [] \<and> te_result e = ''none''
     \<and> te_blocked_reason e = None \<and> te_decision_owner e = None"
  by (auto simp: init_task_def bindR_Inr_iff)

lemma init_ledger_fields:
  assumes "init_ledger m = Inr l"
  shows "agent_leases l = []" "saga_journal l = []" "execution_log l = []" "blockers l = []"
    "execution_history l = []" "execution_evidence l = []" "vcs l = None" "resolutions l = None"
    "requires_landing (ledger_control l) = None"
    "item m ''isolation_scope'' = Inr (VDict (isolation_scope l))"
  using assms by (auto simp: init_ledger_def bindR_Inr_iff)

lemma init_ledger_tasks:
  assumes "init_ledger m = Inr l" and "e \<in> set (task_ledger l)"
  shows "te_status e = ''pending'' \<and> te_evidence_refs e = [] \<and> te_result e = ''none''
       \<and> te_blocked_reason e = None \<and> te_decision_owner e = None"
proof -
  from assms(1) obtain graph where "mapR init_task graph = Inr (task_ledger l)"
    by (auto simp: init_ledger_def bindR_Inr_iff)
  from mapR_mem [OF this assms(2)] show ?thesis using init_task_fields by blast
qed

lemma init_fresh:
  assumes "init_ledger m = Inr l" and "distinct order"
  shows "fresh order {} l"
proof -
  note f = init_ledger_fields [OF assms(1)]
  have p: "find_task l t = Inr e \<Longrightarrow> te_status e = ''pending''" for t e
    using init_ledger_tasks [OF assms(1)] find_task_Inr by blast
  then have "\<not> is_done l t" for t by (auto simp: is_done_def split: sum.splits)
  with p assms(2) show ?thesis by (simp add: fresh_def f)
qed

lemma topo_order_distinct: "topo_order graph = Inr order \<Longrightarrow> distinct order"
  by (auto simp: topo_order_def bindR_Inr_iff dest: order_loop_perm)

section \<open>The shape of a run\<close>

definition graph_of :: "val \<Rightarrow> val list res" where
  "graph_of manifest = bindR (item manifest ''task_graph'') iter"

lemma drive_Inr:
  assumes "drive H agent env mr bb gate manifest c l w = (Inr r, w')"
  obtains graph by_id order st l1 w1 where
    "graph_of manifest = Inr graph" "nodes_by_id graph = Inr by_id" "topo_order graph = Inr order"
    "drive_loop H agent env mr bb by_id order c l w = (Inr (st, l1), w1)"
    "rr_ledger r = reconcile (set_run_state st l1)"
    "run_gate H (ledger_val (rr_ledger r)) (or_else gate default_gate) = Inr (rr_gate r)"
  using assms unfolding drive_def graph_of_def [symmetric]
  by (auto simp: bindI_Inr_iff bindR_Inr_iff Let_def)

lemma run_Inr:
  assumes "run H agent env mr bb gate manifest w = (Inr r, w')"
  obtains findings l where "validate_intake manifest = Inr findings" "status_of findings \<noteq> ''fail''"
    "init_ledger manifest = Inr l" "drive H agent env mr bb gate manifest {} l w = (Inr r, w')"
  using assms unfolding run_def by (auto simp: bindI_Inr_iff split: if_splits)

lemma reconcile_fields [simp]:
  "agent_leases (reconcile l) = agent_leases l" "saga_journal (reconcile l) = saga_journal l"
  "execution_log (reconcile l) = execution_log l" "blockers (reconcile l) = blockers l"
  "execution_history (reconcile l) = execution_history l" "task_ledger (reconcile l) = task_ledger l"
  "execution_evidence (reconcile l) = execution_evidence l" "isolation_scope (reconcile l) = isolation_scope l"
  "vcs (reconcile l) = vcs l" "run_state (ledger_control (reconcile l)) = run_state (ledger_control l)"
  "requires_landing (ledger_control (reconcile l)) = requires_landing (ledger_control l)"
  "source_iplan (ledger_control (reconcile l)) = source_iplan (ledger_control l)"
  by (simp_all add: reconcile_def Let_def)

lemma set_run_state_fields [simp]:
  "agent_leases (set_run_state s l) = agent_leases l" "saga_journal (set_run_state s l) = saga_journal l"
  "execution_log (set_run_state s l) = execution_log l" "blockers (set_run_state s l) = blockers l"
  "execution_history (set_run_state s l) = execution_history l" "task_ledger (set_run_state s l) = task_ledger l"
  "execution_evidence (set_run_state s l) = execution_evidence l" "isolation_scope (set_run_state s l) = isolation_scope l"
  "vcs (set_run_state s l) = vcs l" "run_state (ledger_control (set_run_state s l)) = s"
  "requires_landing (ledger_control (set_run_state s l)) = requires_landing (ledger_control l)"
  by (simp_all add: set_run_state_def)

text \<open>
  The rule every property below uses: an invariant of the two steps that holds of the initial
  ledger holds of the ledger the run hands to the gate, before it is reconciled.
\<close>

lemma run_rule:
  assumes "run H agent env mr bb gate manifest w = (Inr r, w')"
    and init: "\<And>l. init_ledger manifest = Inr l \<Longrightarrow> J {} l"
    and ran: "\<And>t c l l' result n by_id node deps w1 w2. J c l \<Longrightarrow> is_pending l t \<Longrightarrow> c = {u. is_done l u}
       \<Longrightarrow> bindR (graph_of manifest) nodes_by_id = Inr by_id \<Longrightarrow> lookup_node by_id t = Inr node
       \<Longrightarrow> node_deps node = Inr deps \<Longrightarrow> set deps \<subseteq> c
       \<Longrightarrow> execute_with_retry env node (isolation_scope l) mr bb w1 = (Inr (result, n), w2) \<Longrightarrow> task_ran H agent t result n l l'
       \<Longrightarrow> J (if succeeded result then insert t c else c) l'"
    and blocked: "\<And>t c l l' by_id node deps stamp bid. J c l \<Longrightarrow> is_pending l t \<Longrightarrow> c = {u. is_done l u}
       \<Longrightarrow> bindR (graph_of manifest) nodes_by_id = Inr by_id \<Longrightarrow> lookup_node by_id t = Inr node
       \<Longrightarrow> node_deps node = Inr deps \<Longrightarrow> \<not> set deps \<subseteq> c
       \<Longrightarrow> block_tail H t ''dependency not satisfied'' ''pending'' stamp
             (add_blocker bid t ''dependency not satisfied'' l) = Inr l'
       \<Longrightarrow> J c l'"
  obtains l st rest where "rr_ledger r = reconcile (set_run_state st l)" "J {u. is_done l u} l"
    "fresh rest {u. is_done l u} l"
    "rest = [] \<and> st = ''completed'' \<or> rest \<noteq> [] \<and> stops st"
proof -
  from run_Inr [OF assms(1)] obtain l0 where l0: "init_ledger manifest = Inr l0"
    and d: "drive H agent env mr bb gate manifest {} l0 w = (Inr r, w')" by metis
  from drive_Inr [OF d] obtain graph by_id order st l1 w1 where
    g: "graph_of manifest = Inr graph" "nodes_by_id graph = Inr by_id" "topo_order graph = Inr order"
    and loop: "drive_loop H agent env mr bb by_id order {} l0 w = (Inr (st, l1), w1)"
    and r: "rr_ledger r = reconcile (set_run_state st l1)" by metis
  have b: "bindR (graph_of manifest) nodes_by_id = Inr by_id" using g by simp
  have "\<exists>rest c'. fresh rest c' l1 \<and> J c' l1 \<and> suffix rest order \<and>
      (rest = [] \<and> st = ''completed'' \<or> rest \<noteq> [] \<and> stops st)"
    by (rule fresh_loop_rule [where J = J, OF loop init_fresh [OF l0 topo_order_distinct [OF g(3)]] init [OF l0]
          nodes_by_id_keyed [OF g(2)] ran blocked]) (assumption | rule b)+
  then obtain rest c' where *: "fresh rest c' l1" "J c' l1"
    "rest = [] \<and> st = ''completed'' \<or> rest \<noteq> [] \<and> stops st" by blast
  moreover from *(1) have "c' = {u. is_done l1 u}" by (simp add: fresh_def)
  ultimately show ?thesis using that [OF r] by blast
qed

section \<open>The hash chain\<close>

lemma task_ran_touches: "task_ran H agent t result n l l' \<Longrightarrow> touches H t l l'"
  by (simp add: task_ran_def moves_def)

lemma block_touches:
  "block_tail H t why st stamp (add_blocker bid t why l) = Inr l' \<Longrightarrow> touches H t l l'"
  by (rule moves_touches) (rule block_tail_moves)

text \<open>Every event is of the run's client and project.\<close>

definition scoped :: "(string \<times> val) list \<Rightarrow> val \<Rightarrow> bool" where
  "scoped scope e \<longleftrightarrow> (\<exists>kvs. e = VDict kvs \<and> dget kvs ''client_id'' = dget scope ''client_id''
     \<and> dget kvs ''project_id'' = dget scope ''project_id'')"

definition log_inv :: "digest \<Rightarrow> ledger \<Rightarrow> bool" where
  "log_inv H l \<longleftrightarrow> verify_chain H (execution_log l) = Inr True
     \<and> (\<forall>e \<in> set (execution_log l). scoped (isolation_scope l) e)"

lemma about_scoped: "about tid sc e \<Longrightarrow> scoped sc e"
  by (auto simp: about_def scoped_def)

lemma touches_log_inv:
  assumes "touches H t l l'" and "log_inv H l"
  shows "log_inv H l'"
proof -
  from assms(1) obtain es where es: "execution_log l' = execution_log l @ es" "\<forall>e \<in> set es. about t (isolation_scope l) e"
    unfolding touches_def extends_def by blast
  have "\<forall>e \<in> set (execution_log l'). scoped (isolation_scope l) e"
    using es assms(2) about_scoped by (auto simp: log_inv_def)
  then show ?thesis
    using assms touches_scope [OF assms(1)] unfolding log_inv_def touches_def by simp
qed

lemma run_log_inv:
  assumes "run H agent env mr bb gate manifest w = (Inr r, w')"
  shows "log_inv H (rr_ledger r)"
proof -
  obtain l st where r: "rr_ledger r = reconcile (set_run_state st l)" and l: "log_inv H l"
  proof (rule run_rule [where J = "\<lambda>_. log_inv H", OF assms])
    show "log_inv H l" if "init_ledger manifest = Inr l" for l
      using init_ledger_fields [OF that] by (simp add: log_inv_def verify_chain_def)
    show "log_inv H l'" if "log_inv H l" "task_ran H agent t result n l l'" for t l l' result n
      by (rule touches_log_inv [OF task_ran_touches [OF that(2)] that(1)])
    show "log_inv H l'" if "log_inv H l" "block_tail H t ''dependency not satisfied'' ''pending'' stamp
             (add_blocker bid t ''dependency not satisfied'' l) = Inr l'" for t l l' stamp bid
      by (rule touches_log_inv [OF block_touches [OF that(2)] that(1)])
  qed blast
  then show ?thesis by (simp add: log_inv_def)
qed

section \<open>Dependencies\<close>

text \<open>
  Read a trace from the left with the ids completed so far: a start is allowed only when
  every dependency of the task is among them.
\<close>

fun deps_first :: "(string \<Rightarrow> string list) \<Rightarrow> string set \<Rightarrow> (string \<times> string \<times> val) list \<Rightarrow> bool" where
  "deps_first deps fin [] = True"
| "deps_first deps fin ((et, t, ps) # es) =
     ((et = ''task_started'' \<longrightarrow> set (deps t) \<subseteq> fin)
      \<and> deps_first deps (if et = ''task_completed'' then insert t fin else fin) es)"

definition completions :: "(string \<times> string \<times> val) list \<Rightarrow> string set" where
  "completions es = {t. \<exists>ps. (''task_completed'', t, ps) \<in> set es}"

definition deps_of :: "(string \<times> val) list \<Rightarrow> string \<Rightarrow> string list" where
  "deps_of by_id t = (case bindR (lookup_node by_id t) node_deps of Inr ds \<Rightarrow> ds | Inl _ \<Rightarrow> [])"

lemma completions_simps [simp]:
  "completions [] = {}"
  "completions ((et, t, ps) # es) = (if et = ''task_completed'' then insert t (completions es) else completions es)"
  "completions (es @ fs) = completions es \<union> completions fs"
  by (auto simp: completions_def)

lemma deps_first_append:
  "deps_first deps fin (es @ fs) \<longleftrightarrow> deps_first deps fin es \<and> deps_first deps (fin \<union> completions es) fs"
  by (induction deps fin es rule: deps_first.induct) (auto simp: insert_commute Un_commute)

lemma file_sigs_facts [simp]: "deps_first deps fin (file_sigs t ps)" "completions (file_sigs t ps) = {}"
  by (induction ps arbitrary: fin) (simp_all add: file_sigs_def)

lemma ran_sigs_facts [simp]:
  "deps_first deps fin (ran_sigs t result) \<longleftrightarrow> set (deps t) \<subseteq> fin"
  "completions (ran_sigs t result) = (if succeeded result then {t} else {})"
  by (simp_all add: ran_sigs_def success_sigs_def failure_sigs_def deps_first_append)

definition deps_inv :: "(string \<times> val) list \<Rightarrow> string set \<Rightarrow> ledger \<Rightarrow> bool" where
  "deps_inv by_id c l \<longleftrightarrow> c = completions (map ev_sig (execution_log l))
     \<and> deps_first (deps_of by_id) {} (map ev_sig (execution_log l))
     \<and> (\<forall>t \<in> c. set (deps_of by_id t) \<subseteq> c)"

lemma deps_inv_ran:
  assumes "deps_inv by_id c l" "set (deps_of by_id t) \<subseteq> c" "task_ran H agent t result n l l'"
  shows "deps_inv by_id (if succeeded result then insert t c else c) l'"
proof -
  have "map ev_sig (execution_log l') = map ev_sig (execution_log l) @ ran_sigs t result"
    using assms(3) by (simp add: task_ran_def moves_def)
  with assms(1,2) show ?thesis by (auto simp: deps_inv_def deps_first_append)
qed

lemma deps_inv_block:
  assumes "deps_inv by_id c l" "block_tail H t why st stamp (add_blocker bid t why l) = Inr l'"
  shows "deps_inv by_id c l'"
  using assms(1) block_tail_moves [OF assms(2)]
  by (auto simp: moves_def deps_inv_def deps_first_append)

lemma run_deps_inv:
  assumes "run H agent env mr bb gate manifest w = (Inr r, w')"
    and b: "bindR (graph_of manifest) nodes_by_id = Inr by_id"
  shows "deps_inv by_id {t. is_done (rr_ledger r) t} (rr_ledger r)"
proof -
  obtain l st rest where r: "rr_ledger r = reconcile (set_run_state st l)" and d: "deps_inv by_id {t. is_done l t} l"
  proof (rule run_rule [where J = "deps_inv by_id", OF assms(1)])
    show "deps_inv by_id {} l" if "init_ledger manifest = Inr l" for l
      using init_ledger_fields [OF that] by (simp add: deps_inv_def)
    show "deps_inv by_id (if succeeded result then insert t c else c) l'"
      if "deps_inv by_id c l" "bindR (graph_of manifest) nodes_by_id = Inr by_id'" "lookup_node by_id' t = Inr node"
        "node_deps node = Inr deps" "set deps \<subseteq> c" "task_ran H agent t result n l l'"
      for t c l l' result n by_id' node deps
      using that b by (intro deps_inv_ran [OF that(1) _ that(6)]) (simp add: deps_of_def)
    show "deps_inv by_id c l'"
      if "deps_inv by_id c l" "block_tail H t ''dependency not satisfied'' ''pending'' stamp
             (add_blocker bid t ''dependency not satisfied'' l) = Inr l'" for t c l l' stamp bid
      by (rule deps_inv_block [OF that])
  qed blast
  have "is_done (rr_ledger r) t = is_done l t" for t
    by (rule is_done_cong) (simp add: r find_task_def)
  moreover have "deps_inv by_id c (rr_ledger r) = deps_inv by_id c l" for c
    by (simp add: deps_inv_def r)
  ultimately show ?thesis using d by simp
qed

end
