(* ===== verification/RunTasks.thy ===== *)
theory RunTasks
  imports RunProps
begin

text \<open>
  The tasks of a finished run: every entry is pending, completed or blocked with the fields
  that state needs, blocked entries and blockers match, the history of every task is one of
  the four lifecycles, every task is leased and executed at most once, and the
  reconciliation block says exactly whether every task completed.
\<close>

section \<open>Entries and blockers\<close>

definition blocker_of :: "task_entry \<Rightarrow> blocker \<Rightarrow> bool" where
  "blocker_of e b \<longleftrightarrow> te_task_id e = VStr (b_task_id b) \<and> te_blocked_reason e = Some (b_description b)
     \<and> b_decision_owner b = ''operator''"

definition untouched_entry :: "task_entry \<Rightarrow> bool" where
  "untouched_entry e \<longleftrightarrow> te_evidence_refs e = [] \<and> te_result e = ''none''
     \<and> te_blocked_reason e = None \<and> te_decision_owner e = None"

definition completed_entry :: "task_entry \<Rightarrow> bool" where
  "completed_entry e \<longleftrightarrow> te_blocked_reason e = None \<and> te_decision_owner e = None
     \<and> (te_evidence_refs e = [] \<and> te_result e = ''none'' \<or> length (te_evidence_refs e) = 1 \<and> te_result e = ''pass'')"

definition entry_ok :: "blocker list \<Rightarrow> task_entry \<Rightarrow> bool" where
  "entry_ok bs e \<longleftrightarrow>
     te_status e = ''pending'' \<and> untouched_entry e
   \<or> te_status e = ''completed'' \<and> completed_entry e
   \<or> te_status e = ''blocked'' \<and> te_decision_owner e = Some ''operator'' \<and> (\<exists>b \<in> set bs. blocker_of e b)"

definition entries_inv :: "ledger \<Rightarrow> bool" where
  "entries_inv l \<longleftrightarrow> (\<forall>e \<in> set (task_ledger l). entry_ok (blockers l) e)
     \<and> (\<forall>b \<in> set (blockers l). \<exists>e \<in> set (task_ledger l). te_status e = ''blocked'' \<and> blocker_of e b)"

lemma entry_ok_mono: "entry_ok bs e \<Longrightarrow> set bs \<subseteq> set bs' \<Longrightarrow> entry_ok bs' e"
  by (auto simp: entry_ok_def)

text \<open>
  A step that replaces one pending entry by a finished one, with a blocker exactly when it
  is blocked, keeps the invariant.
\<close>

lemma entries_inv_step:
  assumes inv: "entries_inv l"
    and l: "task_ledger l = us @ e # vs" "task_ledger l' = us @ e' # vs"
    and e: "te_status e = ''pending''"
    and b: "blockers l' = blockers l @ bs" "\<forall>b \<in> set bs. te_status e' = ''blocked'' \<and> blocker_of e' b"
    and ok: "untouched_entry e \<Longrightarrow> entry_ok bs e'"
  shows "entries_inv l'"
proof -
  have e_in: "e \<in> set (task_ledger l)" using l(1) by simp
  with inv have ok_e: "entry_ok (blockers l) e" unfolding entries_inv_def by blast
  then have "untouched_entry e" using e by (simp add: entry_ok_def)
  then have e': "entry_ok (blockers l') e'" using ok b(1) by (auto intro: entry_ok_mono)
  have "entry_ok (blockers l') x" if "x \<in> set us \<union> set vs" for x
  proof (rule entry_ok_mono)
    show "entry_ok (blockers l) x" using inv that l(1) by (auto simp: entries_inv_def)
  qed (simp add: b(1))
  with e' have 1: "\<forall>x \<in> set (task_ledger l'). entry_ok (blockers l') x" using l(2) by auto
  have "\<exists>x \<in> set (task_ledger l'). te_status x = ''blocked'' \<and> blocker_of x c"
    if c: "c \<in> set (blockers l')" for c
  proof (cases "c \<in> set bs")
    case True
    with b(2) l(2) show ?thesis by auto
  next
    case False
    with c b(1) have "c \<in> set (blockers l)" by simp
    with inv obtain x where x: "x \<in> set (task_ledger l)" "te_status x = ''blocked''" "blocker_of x c"
      unfolding entries_inv_def by blast
    with e have "x \<noteq> e" by auto
    with x l show ?thesis by auto
  qed
  with 1 show ?thesis by (simp add: entries_inv_def)
qed

lemma pending_entry:
  assumes "is_pending l t" "find_task l t = Inr e"
  shows "te_status e = ''pending''" "te_task_id e = VStr t"
  using assms find_task_Inr by (auto simp: is_pending_def)

text \<open>Blockers are only added, by the frame of the step.\<close>

lemma moves_blockers:
  assumes "moves H t l l' hs es bs"
  obtains cs where "blockers l' = blockers l @ cs" "map blk_sig cs = bs"
    "\<forall>b \<in> set cs. b_task_id b = t \<and> b_decision_owner b = ''operator''"
proof -
  from assms obtain cs where "blockers l' = blockers l @ cs"
    "\<forall>b \<in> set cs. b_task_id b = t \<and> b_decision_owner b = ''operator''"
    unfolding moves_def touches_def extends_def by blast
  with assms that show ?thesis by (simp add: moves_def)
qed

lemma blocked_entry_fields [simp]:
  "te_status (blocked_entry why e) = ''blocked''" "te_task_id (blocked_entry why e) = te_task_id e"
  "te_blocked_reason (blocked_entry why e) = Some why" "te_decision_owner (blocked_entry why e) = Some ''operator''"
  by (simp_all add: blocked_entry_def)

lemma completed_after_evidence:
  assumes "untouched_entry e" "evidenced result (e\<lparr>te_status := st\<rparr>) e1"
  shows "completed_entry (e1\<lparr>te_status := st'\<rparr>)"
  using assms by (auto simp: untouched_entry_def completed_entry_def evidenced_def add_evidence_ref_def split: if_splits)

lemma entries_inv_ran:
  assumes inv: "entries_inv l" and p: "is_pending l t" and r: "task_ran H agent t result n l l'"
  shows "entries_inv l'"
proof -
  from r obtain e e' where e: "find_task l t = Inr e" "find_task l' t = Inr e'" "ran_entry result e e'"
    unfolding task_ran_def by blast
  obtain us vs where l: "task_ledger l = us @ e # vs" "task_ledger l' = us @ e' # vs"
    by (rule touches_members [OF task_ran_touches [OF r] e(1,2)])
  obtain cs where cs: "blockers l' = blockers l @ cs"
      "map blk_sig cs = (if succeeded result then [] else [(t, failure_reason result)])"
      "\<forall>b \<in> set cs. b_task_id b = t \<and> b_decision_owner b = ''operator''"
    using r by (auto simp: task_ran_def elim: moves_blockers)
  note pe = pending_entry [OF p e(1)]
  show ?thesis
  proof (cases "succeeded result")
    case True
    with cs(2) have "cs = []" by simp
    moreover from True e(3) have "untouched_entry e \<Longrightarrow> entry_ok [] e'"
      by (auto simp: ran_entry_def entry_ok_def intro: completed_after_evidence)
    ultimately show ?thesis by (intro entries_inv_step [OF inv l pe(1) cs(1)]) simp_all
  next
    case False
    with cs(2) obtain b where b: "cs = [b]" "b_task_id b = t" "b_description b = failure_reason result"
      by (auto simp: blk_sig_def)
    from False e(3) have "e' = blocked_entry (failure_reason result) (e\<lparr>te_status := ''in_progress''\<rparr>)"
      by (simp add: ran_entry_def)
    with b cs(3) pe have "te_status e' = ''blocked'' \<and> blocker_of e' b" "entry_ok [b] e'"
      by (simp_all add: blocker_of_def entry_ok_def)
    with b(1) show ?thesis by (intro entries_inv_step [OF inv l pe(1) cs(1)]) simp_all
  qed
qed

lemma entries_inv_block:
  assumes inv: "entries_inv l" and p: "is_pending l t"
    and b: "block_tail H t why st stamp (add_blocker bid t why l) = Inr l'"
  shows "entries_inv l'"
proof -
  from block_tail_effect(2) [OF b] obtain e where e: "find_task l t = Inr e" "find_task l' t = Inr (blocked_entry why e)"
    by auto
  obtain us vs where l: "task_ledger l = us @ e # vs" "task_ledger l' = us @ blocked_entry why e # vs"
    by (rule touches_members [OF block_touches [OF b] e])
  note pe = pending_entry [OF p e(1)]
  let ?b = "\<lparr>blocker_id = bid, b_task_id = t, b_description = why, b_decision_owner = ''operator''\<rparr>"
  have bl: "blockers l' = blockers l @ [?b]" using block_tail_effect(6) [OF b] by simp
  have "blocker_of (blocked_entry why e) ?b" using pe by (simp add: blocker_of_def)
  then show ?thesis by (intro entries_inv_step [OF inv l pe(1) bl]) (simp_all add: entry_ok_def)
qed

lemma run_entries:
  assumes "run H agent env mr bb gate manifest w = (Inr r, w')"
  shows "entries_inv (rr_ledger r)"
proof -
  obtain l st where r: "rr_ledger r = reconcile (set_run_state st l)" and l: "entries_inv l"
  proof (rule run_rule [where J = "\<lambda>_. entries_inv", OF assms])
    show "entries_inv l" if "init_ledger manifest = Inr l" for l
      using init_ledger_fields [OF that] init_ledger_tasks [OF that]
      by (simp add: entries_inv_def entry_ok_def untouched_entry_def)
  qed (auto intro: entries_inv_ran entries_inv_block)
  then show ?thesis by (simp add: entries_inv_def)
qed

section \<open>Reconciliation\<close>

definition all_completed :: "ledger \<Rightarrow> bool" where
  "all_completed l \<longleftrightarrow> (\<forall>e \<in> set (task_ledger l). te_status e = ''completed'')"

lemma reconcile_allowed:
  "r_allowed (reconciled (reconcile l)) \<longleftrightarrow> (\<forall>e \<in> set (task_ledger l). \<not> is_open e) \<and> blockers l = []"
  by (simp add: reconcile_def Let_def filter_empty_conv)

lemma reconcile_counts:
  "pending_tasks (reconciled (reconcile l)) = length (filter is_open (task_ledger l))"
  "open_blockers (reconciled (reconcile l)) = length (blockers l)"
  by (simp_all add: reconcile_def Let_def)

lemma reconcile_status:
  "lc_status (ledger_control (reconcile l)) =
     (if r_allowed (reconciled (reconcile l)) then ''completed''
      else if blockers l \<noteq> [] then ''blocked'' else lc_status (ledger_control l))"
  by (auto simp: reconcile_def Let_def)

lemma entries_allowed:
  assumes "entries_inv l"
  shows "(\<forall>e \<in> set (task_ledger l). \<not> is_open e) \<and> blockers l = [] \<longleftrightarrow> all_completed l"
proof
  assume a: "(\<forall>e \<in> set (task_ledger l). \<not> is_open e) \<and> blockers l = []"
  with assms show "all_completed l" by (auto simp: entries_inv_def entry_ok_def is_open_def all_completed_def)
next
  assume a: "all_completed l"
  have "blockers l = []"
  proof (rule ccontr)
    assume "blockers l \<noteq> []"
    then obtain b where "b \<in> set (blockers l)" by (cases "blockers l") auto
    with assms obtain e where "e \<in> set (task_ledger l)" "te_status e = ''blocked''"
      unfolding entries_inv_def by blast
    with a show False by (auto simp: all_completed_def)
  qed
  with a show "(\<forall>e \<in> set (task_ledger l). \<not> is_open e) \<and> blockers l = []"
    by (auto simp: all_completed_def is_open_def)
qed

section \<open>Lifecycles\<close>

definition transitions :: "ledger \<Rightarrow> string \<Rightarrow> (string \<times> string) list" where
  "transitions l t = map snd (filter (\<lambda>h. fst h = t) (map hist_sig (execution_history l)))"

definition lifecycles :: "string \<Rightarrow> (string \<times> string) list set" where
  "lifecycles status =
     (if status = ''pending'' then {[]}
      else if status = ''completed'' then {[(''pending'', ''in_progress''), (''in_progress'', ''completed'')]}
      else if status = ''blocked'' then {[(''pending'', ''blocked'')],
             [(''pending'', ''in_progress''), (''in_progress'', ''blocked'')]}
      else {})"

definition expected_transitions :: "ledger \<Rightarrow> string \<Rightarrow> (string \<times> string) list set" where
  "expected_transitions l t = (case find_task l t of Inr e \<Rightarrow> lifecycles (te_status e) | Inl _ \<Rightarrow> {[]})"

definition history_inv :: "ledger \<Rightarrow> bool" where
  "history_inv l \<longleftrightarrow> (\<forall>t. transitions l t \<in> expected_transitions l t)"

lemma history_inv_step:
  assumes inv: "history_inv l" and p: "is_pending l t" and m: "moves H t l l' hs es bs"
    and hs: "\<forall>h \<in> set hs. fst h = t" and e': "find_task l' t = Inr e'" "map snd hs \<in> lifecycles (te_status e')"
  shows "history_inv l'"
  unfolding history_inv_def
proof
  fix u
  have tr: "transitions l' u = transitions l u @ map snd (filter (\<lambda>h. fst h = u) hs)" for u
    using m by (simp add: moves_def transitions_def)
  show "transitions l' u \<in> expected_transitions l' u"
  proof (cases "u = t")
    case True
    from p obtain e where "find_task l t = Inr e" "te_status e = ''pending''"
      by (auto simp: is_pending_def split: sum.splits)
    with inv have "transitions l t = []"
      unfolding history_inv_def by (auto simp: lifecycles_def expected_transitions_def dest!: spec [of _ t])
    moreover have "filter (\<lambda>h. fst h = t) hs = hs" using hs by simp
    ultimately show ?thesis using True e' tr by (simp add: expected_transitions_def)
  next
    case False
    have "filter (\<lambda>h. fst h = u) hs = []" using hs False by (auto simp: filter_empty_conv)
    then have "transitions l' u = transitions l u" using tr by simp
    moreover have "find_task l' u = find_task l u"
      by (rule touches_find_other [OF moves_touches [OF m] False])
    ultimately show ?thesis using inv by (simp add: history_inv_def expected_transitions_def)
  qed
qed

lemma history_inv_ran:
  assumes inv: "history_inv l" and p: "is_pending l t" and r: "task_ran H agent t result n l l'"
  shows "history_inv l'"
proof -
  from r obtain e e' where e: "find_task l' t = Inr e'" "ran_entry result e e'" unfolding task_ran_def by blast
  from r have m: "moves H t l l' (ran_hist t result) (ran_sigs t result)
       (if succeeded result then [] else [(t, failure_reason result)])" by (simp add: task_ran_def)
  show ?thesis
    by (rule history_inv_step [OF inv p m _ e(1)])
      (use ran_entry_status [OF e(2)] in \<open>auto simp: ran_hist_def lifecycles_def\<close>)
qed

lemma history_inv_block:
  assumes inv: "history_inv l" and p: "is_pending l t"
    and b: "block_tail H t why ''pending'' stamp (add_blocker bid t why l) = Inr l'"
  shows "history_inv l'"
proof -
  from block_tail_effect(2) [OF b] obtain e where e: "find_task l' t = Inr (blocked_entry why e)" by auto
  show ?thesis
    by (rule history_inv_step [OF inv p block_tail_moves [OF b] _ e]) (simp_all add: lifecycles_def)
qed

lemma run_history:
  assumes "run H agent env mr bb gate manifest w = (Inr r, w')"
  shows "history_inv (rr_ledger r)"
proof -
  obtain l st where r: "rr_ledger r = reconcile (set_run_state st l)" and l: "history_inv l"
  proof (rule run_rule [where J = "\<lambda>_. history_inv", OF assms])
    show "history_inv l" if "init_ledger manifest = Inr l" for l
      using init_ledger_fields [OF that] init_ledger_tasks [OF that] find_task_Inr [of l]
      by (auto simp: history_inv_def expected_transitions_def transitions_def lifecycles_def split: sum.splits)
  qed (auto intro: history_inv_ran history_inv_block)
  have "find_task (rr_ledger r) t = find_task l t" "transitions (rr_ledger r) t = transitions l t" for t
    by (simp_all add: r transitions_def find_task_def)
  with l show ?thesis by (simp add: history_inv_def expected_transitions_def)
qed

section \<open>Leases and transactions\<close>

definition txn_ok :: "int \<Rightarrow> ledger \<Rightarrow> txn \<Rightarrow> bool" where
  "txn_ok mr l x \<longleftrightarrow> idempotency_key x = x_task_id x @ ''-execute''
     \<and> (\<exists>n. attempts x = Some n \<and> 1 \<le> n \<and> n \<le> max 1 (mr + 1))
     \<and> (x_status x = ''committed'' \<longleftrightarrow> is_done l (x_task_id x))
     \<and> x_status x \<in> {''pending'', ''committed'', ''compensated''}"

definition exec_inv :: "int \<Rightarrow> ledger \<Rightarrow> bool" where
  "exec_inv mr l \<longleftrightarrow> map x_task_id (saga_journal l) = map l_task_id (agent_leases l)
     \<and> distinct (map l_task_id (agent_leases l))
     \<and> (\<forall>x \<in> set (agent_leases l). released_at x \<noteq> None \<and> \<not> is_pending l (l_task_id x))
     \<and> (\<forall>x \<in> set (saga_journal l). txn_ok mr l x)"

lemma execute_bounds:
  assumes "execute_with_retry env node sc mr bb w = (Inr (result, n), w')"
  shows "1 \<le> n \<and> n \<le> max 1 (mr + 1)"
  using retry_loop_bounds assms by (fastforce simp: execute_with_retry_def)

lemma is_pending_cong: "find_task l' t = find_task l t \<Longrightarrow> is_pending l' t = is_pending l t"
  by (simp add: is_pending_def)

lemma exec_inv_ran:
  assumes inv: "exec_inv mr l" and p: "is_pending l t" and r: "task_ran H agent t result n l l'"
    and n: "1 \<le> n \<and> n \<le> max 1 (mr + 1)"
  shows "exec_inv mr l'"
proof -
  from r obtain x s where x: "agent_leases l' = agent_leases l @ [x]" "l_task_id x = t" "released_at x = Some s"
    unfolding task_ran_def by blast
  from r obtain y where y: "saga_journal l' = saga_journal l @ [y]" "ran_txn t result n y"
    unfolding task_ran_def by blast
  from r obtain e e' where e: "find_task l' t = Inr e'" "ran_entry result e e'" unfolding task_ran_def by blast
  have st: "\<not> is_pending l' t" "is_done l' t = succeeded result"
    using e ran_entry_status [OF e(2)] by (simp_all add: is_pending_def is_done_def)
  have t_new: "t \<notin> set (map l_task_id (agent_leases l))" using inv p by (auto simp: exec_inv_def)
  have ids: "map x_task_id (saga_journal l) = map l_task_id (agent_leases l)" using inv by (simp add: exec_inv_def)
  have same: "find_task l' u = find_task l u" if "u \<noteq> t" for u
    by (rule touches_find_other [OF task_ran_touches [OF r] that])
  have "txn_ok mr l' z" if z: "z \<in> set (saga_journal l)" for z
  proof -
    have "x_task_id z \<in> set (map l_task_id (agent_leases l))" using z ids [symmetric] by simp
    with t_new have "x_task_id z \<noteq> t" by blast
    then have "is_done l' (x_task_id z) = is_done l (x_task_id z)" by (intro is_done_cong same)
    then have "txn_ok mr l' z = txn_ok mr l z" by (simp add: txn_ok_def)
    with inv z show ?thesis by (simp add: exec_inv_def)
  qed
  moreover have "txn_ok mr l' y" using y(2) n st(2) by (auto simp: ran_txn_def txn_ok_def)
  moreover have "released_at z \<noteq> None \<and> \<not> is_pending l' (l_task_id z)" if z: "z \<in> set (agent_leases l)" for z
  proof -
    have "l_task_id z \<noteq> t" using t_new z by auto
    then have "is_pending l' (l_task_id z) = is_pending l (l_task_id z)" by (intro is_pending_cong same)
    with inv z show ?thesis by (simp add: exec_inv_def)
  qed
  moreover have "x_task_id y = t" using y(2) by (simp add: ran_txn_def)
  ultimately show ?thesis
    using inv ids t_new x y(1) st(1) by (auto simp: exec_inv_def)
qed

lemma exec_inv_block:
  assumes inv: "exec_inv mr l" and p: "is_pending l t"
    and b: "block_tail H t why ''pending'' stamp (add_blocker bid t why l) = Inr l'"
  shows "exec_inv mr l'"
proof -
  note e = block_tail_effect [OF b]
  from e(2) obtain d where f: "find_task l' t = Inr (blocked_entry why d)" by auto
  have same: "find_task l' u = find_task l u" if "u \<noteq> t" for u
    by (rule touches_find_other [OF block_touches [OF b] that])
  have dn: "is_done l' u = is_done l u" for u
  proof (cases "u = t")
    case True
    with f pending_not_done [OF p] show ?thesis by (simp add: is_done_def)
  qed (intro is_done_cong same)
  have pn: "is_pending l' u \<Longrightarrow> is_pending l u" for u
    by (cases "u = t") (use p is_pending_cong [OF same] in auto)
  show ?thesis using inv e(3,4) dn pn by (auto simp: exec_inv_def txn_ok_def)
qed

lemma run_exec:
  assumes "run H agent env mr bb gate manifest w = (Inr r, w')"
  shows "exec_inv mr (rr_ledger r)"
proof -
  obtain l st where r: "rr_ledger r = reconcile (set_run_state st l)" and l: "exec_inv mr l"
  proof (rule run_rule [where J = "\<lambda>_. exec_inv mr", OF assms])
    show "exec_inv mr l" if "init_ledger manifest = Inr l" for l
      using init_ledger_fields [OF that] by (simp add: exec_inv_def)
    show "exec_inv mr l'" if "exec_inv mr l" "is_pending l t" "task_ran H agent t result n l l'"
      "execute_with_retry env node (isolation_scope l) mr bb w1 = (Inr (result, n), w2)" for t l l' result n node w1 w2
      by (rule exec_inv_ran [OF that(1-3) execute_bounds [OF that(4)]])
  qed (auto intro: exec_inv_block)
  have d: "is_done (rr_ledger r) t = is_done l t" and p: "is_pending (rr_ledger r) t = is_pending l t" for t
    by (simp_all add: r is_done_def is_pending_def find_task_def)
  have "txn_ok mr (rr_ledger r) x = txn_ok mr l x" for x by (simp add: txn_ok_def d)
  with l show ?thesis by (simp add: exec_inv_def p) (simp add: r)
qed

end
