(* ===== verification/IntakeFacts.thy ===== *)
theory IntakeFacts
  imports IntakeRules
begin

text \<open>
  What a manifest that passes intake validation satisfies. Every rule of the category is an
  error, so a manifest passes only when none fired, and then each check has succeeded.
\<close>

lemma status_fail_iff: "status_of fs = ''fail'' \<longleftrightarrow> (\<exists>f \<in> set fs. severity f = ''error'')"
  by (auto simp: status_of_def Let_def image_iff)

lemma emit_if_passes:
  assumes "emit_if c r m fs = Inr fs'" and "catalogued r" and "r \<noteq> ''MON.PROBE_MISSING''"
    and "status_of fs' \<noteq> ''fail''"
  shows "\<not> c \<and> fs' = fs"
proof (rule ccontr)
  assume n: "\<not> (\<not> c \<and> fs' = fs)"
  have fs': "fs' = fs @ (if c then [finding_of r m] else [])"
    using assms(1) emit_if_catalogued [OF assms(2)] by simp
  with n have "finding_of r m \<in> set fs'" by (cases c) simp_all
  moreover have "severity (finding_of r m) = ''error''"
    using severity_error [OF assms(2,3)] by (simp add: severity_finding_of)
  ultimately show False using assms(4) status_fail_iff by blast
qed

definition task_complete :: "val \<Rightarrow> bool" where
  "task_complete t \<longleftrightarrow> all_truthy t [''task_id'', ''title'', ''acceptance''] = Inr True"

definition deps_known :: "val list \<Rightarrow> val \<Rightarrow> bool" where
  "deps_known ids t \<longleftrightarrow> (\<exists>ds dl. get_or t ''depends_on'' (VList []) = Inr ds \<and> iter ds = Inr dl
     \<and> (\<forall>d \<in> set dl. in_set d ids = Inr True))"

lemma dep_fold:
  assumes "foldR (\<lambda>bad dep. bindR (in_set dep ids) (\<lambda>known. Inr (bad \<or> \<not> known))) b ds = Inr b'" and "\<not> b'"
  shows "\<not> b \<and> (\<forall>d \<in> set ds. in_set d ids = Inr True)"
  using assms
proof (induction ds arbitrary: b)
  case (Cons d ds)
  from Cons.prems(1) obtain k where k: "in_set d ids = Inr k"
    "foldR (\<lambda>bad dep. bindR (in_set dep ids) (\<lambda>known. Inr (bad \<or> \<not> known))) (b \<or> \<not> k) ds = Inr b'"
    by (auto simp: bindR_Inr_iff)
  from Cons.IH [OF k(2) Cons.prems(2)] k(1) show ?case by simp
qed simp

lemma scan_task_passes:
  assumes "scan_task ids flags t = Inr flags'" and "\<not> fst flags'" and "\<not> snd flags'"
  shows "\<not> fst flags \<and> \<not> snd flags \<and> task_complete t \<and> deps_known ids t"
proof -
  from assms(1) obtain c ds dl b where *: "all_truthy t [''task_id'', ''title'', ''acceptance''] = Inr c"
    "get_or t ''depends_on'' (VList []) = Inr ds" "iter ds = Inr dl"
    "foldR (\<lambda>bad dep. bindR (in_set dep ids) (\<lambda>known. Inr (bad \<or> \<not> known))) (snd flags) dl = Inr b"
    "flags' = (fst flags \<or> \<not> c, b)"
    unfolding scan_task_def bindR_Inr_iff by blast
  with dep_fold [OF *(4)] assms(2,3) show ?thesis by (auto simp: task_complete_def deps_known_def)
qed

lemma scan_tasks_pass:
  assumes "foldR (scan_task ids) flags ts = Inr flags'" and "\<not> fst flags'" and "\<not> snd flags'"
  shows "\<not> fst flags \<and> \<not> snd flags \<and> (\<forall>t \<in> set ts. task_complete t \<and> deps_known ids t)"
  using assms
proof (induction ts arbitrary: flags)
  case (Cons t ts)
  from Cons.prems(1) obtain fl where fl: "scan_task ids flags t = Inr fl" "foldR (scan_task ids) fl ts = Inr flags'"
    by (auto simp: bindR_Inr_iff)
  from Cons.IH [OF fl(2) Cons.prems(2,3)] have "\<not> fst fl" "\<not> snd fl" "\<forall>t \<in> set ts. task_complete t \<and> deps_known ids t"
    by blast+
  with scan_task_passes [OF fl(1)] show ?case by simp
qed simp

text \<open>The content of a passed validation.\<close>

record intake_parts =
  ip_control :: val
  ip_scope :: val
  ip_tasks :: "val list"

definition intake_passed :: "val \<Rightarrow> intake_parts \<Rightarrow> bool" where
  "intake_passed doc p \<longleftrightarrow>
     (\<exists>md schema. get_or doc ''metadata'' (VDict []) = Inr md \<and> get md ''schema_version'' = Inr schema
        \<and> in_set schema SUPPORTED_SCHEMAS = Inr True)
   \<and> get_or doc ''intake_control'' (VDict []) = Inr (ip_control p)
   \<and> all_truthy (ip_control p) [''source_iplan'', ''source_iplan_version'', ''source_iplan_checksum''] = Inr True
   \<and> (\<exists>a s n. get (ip_control p) ''approved'' = Inr a \<and> truthy a
        \<and> get (ip_control p) ''exec_ready_score'' = Inr s \<and> py_int (or_else s (VInt 0)) = Inr n \<and> EXEC_READY_MIN \<le> n)
   \<and> get_or doc ''isolation_scope'' (VDict []) = Inr (ip_scope p)
   \<and> all_truthy (ip_scope p) [''client_id'', ''project_id'', ''allowed_roots''] = Inr True
   \<and> (\<exists>g. get_or doc ''task_graph'' (VList []) = Inr g \<and> truthy g \<and> iter g = Inr (ip_tasks p))
   \<and> (\<exists>ids. set_of_field ''task_id'' (ip_tasks p) = Inr ids
        \<and> (\<forall>t \<in> set (ip_tasks p). task_complete t \<and> deps_known ids t))"

lemma validate_intake_passes:
  assumes v: "validate_intake doc = Inr fs" and s: "status_of fs \<noteq> ''fail''"
  obtains p where "intake_passed doc p"
proof -
  from v obtain md schema sup fs1 control src fs2 approved insuff fs3 scope sok fs4 tasks fs5 ts ids flags fs6 where
    a: "get_or doc ''metadata'' (VDict []) = Inr md" "get md ''schema_version'' = Inr schema"
      "in_set schema SUPPORTED_SCHEMAS = Inr sup"
    and e1: "emit_if (\<not> sup) ''INTAKE.SCHEMA_UNSUPPORTED'' ''unsupported intake schema_version'' [] = Inr fs1"
    and b: "get_or doc ''intake_control'' (VDict []) = Inr control"
      "all_truthy control [''source_iplan'', ''source_iplan_version'', ''source_iplan_checksum''] = Inr src"
    and e2: "emit_if (\<not> src) ''INTAKE.SOURCE_MISSING'' ''source IPLAN id/version/checksum missing'' fs1 = Inr fs2"
    and c: "get control ''approved'' = Inr approved"
      "(if \<not> truthy approved then Inr True else
        bindR (get control ''exec_ready_score'') (\<lambda>score.
        bindR (py_int (or_else score (VInt 0))) (\<lambda>n. Inr (n < EXEC_READY_MIN)))) = Inr insuff"
    and e3: "emit_if insuff ''INTAKE.APPROVAL_INSUFFICIENT''
       ''IPLAN not approved or exec_ready_score below minimum'' fs2 = Inr fs3"
    and d: "get_or doc ''isolation_scope'' (VDict []) = Inr scope"
      "all_truthy scope [''client_id'', ''project_id'', ''allowed_roots''] = Inr sok"
    and e4: "emit_if (\<not> sok) ''INTAKE.SCOPE_MISSING'' ''isolation_scope is incomplete'' fs3 = Inr fs4"
    and t: "get_or doc ''task_graph'' (VList []) = Inr tasks"
    and e5: "emit_if (\<not> truthy tasks) ''INTAKE.NO_TASKS'' ''task_graph is empty'' fs4 = Inr fs5"
    and u: "iter tasks = Inr ts" "set_of_field ''task_id'' ts = Inr ids"
      "foldR (scan_task ids) (False, False) ts = Inr flags"
    and e6: "emit_if (fst flags) ''INTAKE.TASK_FIELDS_MISSING'' ''a task lacks id/title/acceptance'' fs5 = Inr fs6"
    and e7: "emit_if (snd flags) ''INTAKE.DEP_UNRESOLVED'' ''a depends_on references an unknown task'' fs6 = Inr fs"
    unfolding validate_intake_def bindR_Inr_iff by blast
  have p7: "\<not> snd flags \<and> fs = fs6" by (rule emit_if_passes [OF e7]) (use s in simp_all)
  have p6: "\<not> fst flags \<and> fs6 = fs5" by (rule emit_if_passes [OF e6]) (use s p7 in simp_all)
  have p5: "truthy tasks \<and> fs5 = fs4" using emit_if_passes [OF e5] s p6 p7 by simp
  have p4: "sok \<and> fs4 = fs3" using emit_if_passes [OF e4] s p5 p6 p7 by simp
  have p3: "\<not> insuff \<and> fs3 = fs2" using emit_if_passes [OF e3] s p4 p5 p6 p7 by simp
  have p2: "src \<and> fs2 = fs1" using emit_if_passes [OF e2] s p3 p4 p5 p6 p7 by simp
  have p1: "sup" using emit_if_passes [OF e1] s p2 p3 p4 p5 p6 p7 by simp
  from c(2) p3 have ap: "truthy approved"
    "\<exists>sc n. get control ''exec_ready_score'' = Inr sc \<and> py_int (or_else sc (VInt 0)) = Inr n \<and> EXEC_READY_MIN \<le> n"
    by (auto simp: bindR_Inr_iff split: if_splits)
  have tk: "\<forall>t \<in> set ts. task_complete t \<and> deps_known ids t"
    using scan_tasks_pass [OF u(3)] p6 p7 by blast
  have "intake_passed doc \<lparr>ip_control = control, ip_scope = scope, ip_tasks = ts\<rparr>"
    unfolding intake_passed_def using a p1 b p2 c(1) ap d p4 t p5 u(1,2) tk by auto
  then show ?thesis by (rule that)
qed

end
