(* ===== verification/GateRun.thy ===== *)
theory GateRun
  imports RunTasks IntakeFacts
begin

text \<open>
  The verdict of the default gate on the ledger of a finished run: which validator rules can
  fire on it, reduced from the rendered document to the entries and the touched paths.
\<close>

section \<open>The task rules on typed entries\<close>

definition weak :: "task_entry \<Rightarrow> bool" where
  "weak e \<longleftrightarrow> te_status e = ''completed'' \<and> te_result e \<noteq> ''pass''"

definition unowned :: "task_entry \<Rightarrow> bool" where
  "unowned e \<longleftrightarrow> te_status e = ''blocked'' \<and> \<not> truthy_opt (te_decision_owner e)"

text \<open>
  The evidence rule looks for an evidence block when the entry has no reference; an entry
  with a reference never fires it.
\<close>

lemma check_task_rules:
  assumes "check_task evd fs (task_val e) = Inr fs'"
  shows "\<exists>E. (E \<longrightarrow> te_status e = ''completed'' \<and> te_evidence_refs e = []) \<and>
    rule_ids fs' = rule_ids fs \<union> (if E then {''LEDGER.EVIDENCE_REQUIRED''} else {})
      \<union> (if weak e then {''LEDGER.ACCEPTANCE_WEAK''} else {})
      \<union> (if unowned e then {''LEDGER.BLOCKED_WITHOUT_OWNER''} else {})"
proof (cases "te_status e = ''completed''")
  case True
  let ?m1 = "''completed task '' @ py_str (te_task_id e) @ '' has no evidence''"
  let ?m2 = "''completed task '' @ py_str (te_task_id e) @ '' acceptance is not pass''"
  have "check_task evd fs (task_val e) = check_completed evd (task_val e) fs"
    by (cases "check_completed evd (task_val e) fs") (simp_all add: check_task_def get_simps True)
  also have "\<dots> = bindR (if te_evidence_refs e \<noteq> [] then Inr True
        else bindR (iter evd) (anyR (\<lambda>ev. bindR (get ev ''task_id'') (\<lambda>t. Inr (py_eq t (te_task_id e))))))
     (\<lambda>b. Inr (fs @ (if b then [] else [finding_of ''LEDGER.EVIDENCE_REQUIRED'' ?m1])
        @ (if te_result e = ''pass'' then [] else [finding_of ''LEDGER.ACCEPTANCE_WEAK'' ?m2])))"
    by (cases "bindR (iter evd) (anyR (\<lambda>ev. bindR (get ev ''task_id'') (\<lambda>t. Inr (py_eq t (te_task_id e)))))";
        simp add: check_completed_def get_simps or_else_def emit_if_catalogued dget_def)
  finally have "bindR (if te_evidence_refs e \<noteq> [] then Inr True
        else bindR (iter evd) (anyR (\<lambda>ev. bindR (get ev ''task_id'') (\<lambda>t. Inr (py_eq t (te_task_id e))))))
     (\<lambda>b. Inr (fs @ (if b then [] else [finding_of ''LEDGER.EVIDENCE_REQUIRED'' ?m1])
        @ (if te_result e = ''pass'' then [] else [finding_of ''LEDGER.ACCEPTANCE_WEAK'' ?m2]))) = Inr fs'"
    using assms by (rule trans [OF sym])
  then obtain b where "(if te_evidence_refs e \<noteq> [] then Inr True
        else bindR (iter evd) (anyR (\<lambda>ev. bindR (get ev ''task_id'') (\<lambda>t. Inr (py_eq t (te_task_id e)))))) = Inr b"
    and fs': "fs' = fs @ (if b then [] else [finding_of ''LEDGER.EVIDENCE_REQUIRED'' ?m1])
        @ (if te_result e = ''pass'' then [] else [finding_of ''LEDGER.ACCEPTANCE_WEAK'' ?m2])"
    unfolding bindR_Inr_iff sum.inject by blast
  then have b: "te_evidence_refs e \<noteq> [] \<longrightarrow> b" by (metis sum.inject(2))
  from fs' have "rule_ids fs' = rule_ids fs \<union> (if \<not> b then {''LEDGER.EVIDENCE_REQUIRED''} else {})
      \<union> (if te_result e \<noteq> ''pass'' then {''LEDGER.ACCEPTANCE_WEAK''} else {})"
    by auto
  with True b show ?thesis by (intro exI [of _ "\<not> b"]) (auto simp add: weak_def unowned_def)
next
  case False
  with assms have "fs' = fs @ (if unowned e then [finding_of ''LEDGER.BLOCKED_WITHOUT_OWNER''
      (''blocked task '' @ py_str (te_task_id e) @ '' has no decision_owner'')] else [])"
    by (simp add: check_task_def get_simps unowned_def emit_if_catalogued split: if_splits)
  then have "rule_ids fs' = rule_ids fs \<union> (if unowned e then {''LEDGER.BLOCKED_WITHOUT_OWNER''} else {})"
    by simp
  with False show ?thesis by (intro exI [of _ False]) (simp add: weak_def)
qed

lemma check_tasks_rules:
  assumes "foldR (check_task evd) fs (map task_val es) = Inr fs'"
    and "\<forall>e \<in> set es. te_status e = ''completed'' \<longrightarrow> te_evidence_refs e \<noteq> [] \<or> weak e"
    and "\<forall>e \<in> set es. \<not> unowned e"
  shows "rule_ids fs' \<inter> {''LEDGER.EVIDENCE_REQUIRED'', ''LEDGER.ACCEPTANCE_WEAK''} = {} \<longleftrightarrow>
      rule_ids fs \<inter> {''LEDGER.EVIDENCE_REQUIRED'', ''LEDGER.ACCEPTANCE_WEAK''} = {} \<and> (\<forall>e \<in> set es. \<not> weak e)"
    and "rule_ids fs' - {''LEDGER.EVIDENCE_REQUIRED'', ''LEDGER.ACCEPTANCE_WEAK''}
      = rule_ids fs - {''LEDGER.EVIDENCE_REQUIRED'', ''LEDGER.ACCEPTANCE_WEAK''}"
proof -
  let ?R = "{''LEDGER.EVIDENCE_REQUIRED'', ''LEDGER.ACCEPTANCE_WEAK''}"
  have "(rule_ids fs' \<inter> ?R = {} \<longleftrightarrow> rule_ids fs \<inter> ?R = {} \<and> (\<forall>e \<in> set es. \<not> weak e))
      \<and> rule_ids fs' - ?R = rule_ids fs - ?R"
    using assms
  proof (induction es arbitrary: fs)
    case (Cons e es)
    from Cons.prems(1) obtain gs where g: "check_task evd fs (task_val e) = Inr gs"
      "foldR (check_task evd) gs (map task_val es) = Inr fs'" by (auto simp: bindR_Inr_iff)
    from check_task_rules [OF g(1)] obtain E where
      E: "E \<longrightarrow> te_status e = ''completed'' \<and> te_evidence_refs e = []"
      "rule_ids gs = rule_ids fs \<union> (if E then {''LEDGER.EVIDENCE_REQUIRED''} else {})
        \<union> (if weak e then {''LEDGER.ACCEPTANCE_WEAK''} else {})"
      using Cons.prems(3) by auto
    have "E \<longrightarrow> weak e" using E(1) Cons.prems(2) by auto
    with E(2) have s: "rule_ids gs \<inter> ?R = {} \<longleftrightarrow> rule_ids fs \<inter> ?R = {} \<and> \<not> weak e"
      "rule_ids gs - ?R = rule_ids fs - ?R" by auto
    have "\<forall>e \<in> set es. te_status e = ''completed'' \<longrightarrow> te_evidence_refs e \<noteq> [] \<or> weak e"
      "\<forall>e \<in> set es. \<not> unowned e" using Cons.prems(2,3) by simp_all
    note i = Cons.IH [OF g(2) this, THEN conjunct1] Cons.IH [OF g(2) this, THEN conjunct2]
    show ?case
      by (rule conjI, unfold i s list.set(2) ball_simps(7), blast, rule refl)
  qed simp
  then show "rule_ids fs' \<inter> ?R = {} \<longleftrightarrow> rule_ids fs \<inter> ?R = {} \<and> (\<forall>e \<in> set es. \<not> weak e)"
    "rule_ids fs' - ?R = rule_ids fs - ?R" by (rule conjunct1, rule conjunct2)
qed

lemma check_blockers_rules:
  assumes "foldR check_blocker fs (map blocker_val bs) = Inr fs'"
    and "\<forall>b \<in> set bs. b_decision_owner b = ''operator''"
  shows "fs' = fs"
  using assms
proof (induction bs arbitrary: fs)
  case (Cons b bs)
  from Cons.prems obtain gs where g: "check_blocker fs (blocker_val b) = Inr gs"
    "foldR check_blocker gs (map blocker_val bs) = Inr fs'" by (auto simp: bindR_Inr_iff)
  from g(1) Cons.prems(2) have "gs = fs"
    by (auto simp: check_blocker_def get_simps bindR_Inr_iff emit_if_def)
  with Cons.IH [OF g(2)] Cons.prems(2) show ?case by simp
qed simp

section \<open>Leases, reconciliation, landing\<close>

lemma check_leases_released:
  assumes "\<forall>x \<in> set ls. released_at x \<noteq> None"
  shows "group_unreleased fld (map lease_val ls) = Inr []"
  using assms by (induction ls) (auto simp: group_unreleased_def get_simps)

lemma check_reconciliation_rules:
  assumes "get_or doc ''reconciliation'' (VDict []) = Inr (reconciliation_val r)"
    and "check_reconciliation doc fs = Inr fs'"
  shows "rule_ids fs' = rule_ids fs \<union> (if r_allowed r \<and> (0 < pending_tasks r \<or> 0 < open_blockers r)
      then {''LEDGER.RECONCILE_INCONSISTENT''} else {})"
proof -
  have "check_reconciliation doc fs = Inr (fs @ (if r_allowed r \<and> (0 < pending_tasks r \<or> 0 < open_blockers r)
      then [finding_of ''LEDGER.RECONCILE_INCONSISTENT'' ''reconciliation allowed while tasks/blockers remain''] else []))"
    apply (cases "r_allowed r")
     apply (simp_all add: check_reconciliation_def assms(1) get_reconciliation_val or_else_def del: append_Cons)
     apply (cases "pending_tasks r = 0"; cases "open_blockers r = 0")
        apply (simp_all add: emit_if_catalogued)
    done
  from this [symmetric] assms(2) have "fs' = fs @ (if r_allowed r \<and> (0 < pending_tasks r \<or> 0 < open_blockers r)
      then [finding_of ''LEDGER.RECONCILE_INCONSISTENT'' ''reconciliation allowed while tasks/blockers remain''] else [])"
    by (metis sum.inject(2))
  then show ?thesis by (simp only: rule_ids_simps rule_ids_if rule_id_finding_of)
qed

section \<open>Events\<close>

definition event_paths :: "val \<Rightarrow> string list" where
  "event_paths e = (case snd (snd (ev_sig e)) of VList ps \<Rightarrow> map py_str ps | _ \<Rightarrow> [])"

definition typed_event :: "string \<Rightarrow> string \<Rightarrow> val \<Rightarrow> bool" where
  "typed_event client project e \<longleftrightarrow> (\<exists>kvs ps. e = VDict kvs \<and> dget kvs ''client_id'' = VStr client
     \<and> dget kvs ''project_id'' = VStr project \<and> dget kvs ''touched_paths'' = strs ps)"

definition path_ok :: "string list \<Rightarrow> string \<Rightarrow> bool" where
  "path_ok roots p \<longleftrightarrow> (\<exists>r \<in> set roots. prefix r p)"

lemma dget_or_dget: "dget kvs k \<noteq> VNone \<Longrightarrow> dget_or kvs k d = dget kvs k"
  by (auto simp: dget_or_def dget_def split: option.splits)

lemma fold_bad: "foldl (\<lambda>bad p. bad \<or> \<not> q p) b ps \<longleftrightarrow> b \<or> (\<exists>p \<in> set ps. \<not> q p)"
  by (induction ps arbitrary: b) auto

lemma scan_event_typed:
  assumes "typed_event client project e"
  shows "scan_event (strs roots) (VStr client) (VStr project) flags e
     = Inr (fst flags \<or> (\<exists>p \<in> set (event_paths e). \<not> path_ok roots p), snd flags)"
proof -
  from assms obtain kvs ps where e: "e = VDict kvs" "dget kvs ''client_id'' = VStr client"
    "dget kvs ''project_id'' = VStr project" "dget kvs ''touched_paths'' = strs ps" unfolding typed_event_def by blast
  have t: "dget_or kvs ''touched_paths'' d = strs ps" for d
    using dget_or_dget [of kvs "''touched_paths''"] e(4) by (simp add: strs_def)
  have ps: "event_paths e = ps" by (simp add: event_paths_def ev_sig_def e strs_def comp_def)
  have "foldR (\<lambda>bad path. bindR (in_scope (py_str path) (strs roots)) (\<lambda>ok. Inr (bad \<or> \<not> ok))) b (map VStr ps)
     = Inr (b \<or> (\<exists>p \<in> set ps. \<not> path_ok roots p))" for b
  proof (induction ps arbitrary: b)
    case (Cons p ps)
    have "in_scope p (strs roots) = Inr (path_ok roots p)" by (simp add: strs_def path_ok_def)
    with Cons.IH [of "b \<or> \<not> path_ok roots p"] show ?case by (simp only: list.map foldR.simps py_str_simps bindR_simps) auto
  qed simp
  then show ?thesis
    by (simp add: scan_event_def t e ps [unfolded e(1)] event_in_scope_def)
qed

lemma scan_events_typed:
  assumes "\<forall>e \<in> set evs. typed_event client project e"
  shows "foldR (scan_event (strs roots) (VStr client) (VStr project)) flags evs
     = Inr (fst flags \<or> (\<exists>e \<in> set evs. \<exists>p \<in> set (event_paths e). \<not> path_ok roots p), snd flags)"
  using assms by (induction evs arbitrary: flags) (auto simp: scan_event_typed)

section \<open>The events of a run are typed\<close>

definition typed_scope :: "(string \<times> val) list \<Rightarrow> string \<Rightarrow> string \<Rightarrow> string list \<Rightarrow> bool" where
  "typed_scope scope client project roots \<longleftrightarrow> dget scope ''client_id'' = VStr client
     \<and> dget scope ''project_id'' = VStr project \<and> dget scope ''allowed_roots'' = strs roots"

definition path_sigs :: "ledger \<Rightarrow> bool" where
  "path_sigs l \<longleftrightarrow> (\<forall>s \<in> set (map ev_sig (execution_log l)). \<exists>ps. snd (snd s) = strs ps)"

lemma ran_sigs_paths: "s \<in> set (ran_sigs t result) \<Longrightarrow> \<exists>ps. snd (snd s) = strs ps"
  by (auto simp: ran_sigs_def success_sigs_def failure_sigs_def file_sigs_def split: if_splits)

lemma run_path_sigs:
  assumes "run H agent env mr bb gate manifest w = (Inr r, w')"
  shows "path_sigs (rr_ledger r)"
proof -
  obtain l st where r: "rr_ledger r = reconcile (set_run_state st l)" and l: "path_sigs l"
  proof (rule run_rule [where J = "\<lambda>_. path_sigs", OF assms])
    show "path_sigs l" if "init_ledger manifest = Inr l" for l
      using init_ledger_fields [OF that] by (simp add: path_sigs_def)
    show "path_sigs l'" if J: "path_sigs l" and m: "task_ran H agent t result n l l'" for t l l' result n
    proof -
      have e: "map ev_sig (execution_log l') = map ev_sig (execution_log l) @ ran_sigs t result"
        using m by (simp add: task_ran_def moves_def)
      show ?thesis using J ran_sigs_paths unfolding path_sigs_def e by (auto simp: ball_Un)
    qed
    show "path_sigs l'" if J: "path_sigs l" and b: "block_tail H t ''dependency not satisfied'' ''pending'' stamp
             (add_blocker bid t ''dependency not satisfied'' l) = Inr l'" for t l l' stamp bid
    proof -
      have e: "map ev_sig (execution_log l') = map ev_sig (execution_log l) @ [(''task_blocked'', t, strs [])]"
        using block_tail_moves [OF b] by (simp add: moves_def)
      show ?thesis using J unfolding path_sigs_def e by (auto simp: ball_Un)
    qed
  qed blast
  then show ?thesis by (simp add: path_sigs_def)
qed

lemma typed_events:
  assumes "log_inv H l" "path_sigs l" "typed_scope (isolation_scope l) client project roots"
  shows "\<forall>e \<in> set (execution_log l). typed_event client project e"
proof
  fix e assume e: "e \<in> set (execution_log l)"
  with assms(1) obtain kvs where kvs: "e = VDict kvs" "dget kvs ''client_id'' = dget (isolation_scope l) ''client_id''"
    "dget kvs ''project_id'' = dget (isolation_scope l) ''project_id''" by (auto simp: log_inv_def scoped_def)
  from e assms(2) obtain ps where "snd (snd (ev_sig e)) = strs ps" unfolding path_sigs_def by auto
  then have "dget kvs ''touched_paths'' = strs ps" by (simp add: ev_sig_def kvs(1))
  with kvs assms(3) show "typed_event client project e" unfolding typed_event_def typed_scope_def by auto
qed

section \<open>The rules that fire on a finished ledger\<close>

definition paths_ok :: "string list \<Rightarrow> ledger \<Rightarrow> bool" where
  "paths_ok roots l \<longleftrightarrow> (\<forall>e \<in> set (execution_log l). \<forall>p \<in> set (event_paths e). path_ok roots p)"

definition no_weak :: "ledger \<Rightarrow> bool" where
  "no_weak l \<longleftrightarrow> (\<forall>e \<in> set (task_ledger l). \<not> weak e)"

lemma entries_rules:
  assumes "entries_inv l"
  shows "\<forall>e \<in> set (task_ledger l). te_status e = ''completed'' \<longrightarrow> te_evidence_refs e \<noteq> [] \<or> weak e"
    and "\<forall>e \<in> set (task_ledger l). \<not> unowned e"
    and "\<forall>b \<in> set (blockers l). b_decision_owner b = ''operator''"
  using assms
  by (auto simp: entries_inv_def entry_ok_def completed_entry_def weak_def unowned_def truthy_opt_def blocker_of_def)

lemma check_scope_typed:
  assumes "typed_scope (isolation_scope l) client project roots"
    and "map_of (isolation_scope l) ''allowed_roots'' \<noteq> None" "map_of (isolation_scope l) ''client_id'' \<noteq> None"
      "map_of (isolation_scope l) ''project_id'' \<noteq> None"
    and ev: "\<forall>e \<in> set (execution_log l). typed_event client project e"
  shows "check_scope (ledger_val l) (VDict (isolation_scope l)) fs =
    Inr (fs @ (if paths_ok roots l then [] else
      [finding_of ''ISOLATION.PATH_OUTSIDE_ROOTS'' ''an event touched a path outside allowed_roots'']))"
proof -
  have i: "item (VDict (isolation_scope l)) ''allowed_roots'' = Inr (strs roots)"
    "item (VDict (isolation_scope l)) ''client_id'' = Inr (VStr client)"
    "item (VDict (isolation_scope l)) ''project_id'' = Inr (VStr project)"
    using assms(1-4) by (auto simp: typed_scope_def dget_def)
  have f: "foldR (scan_event (strs roots) (VStr client) (VStr project)) (False, False) (execution_log l)
      = Inr (\<not> paths_ok roots l, False)"
    using scan_events_typed [OF ev, of roots "(False, False)"] by (auto simp: paths_ok_def)
  show ?thesis
    unfolding check_scope_def i bindR_simps get_ledger_val iter_VList f
    by (simp add: emit_if_catalogued)
qed

theorem finished_rules:
  assumes inv: "entries_inv l" "log_inv H l" "path_sigs l"
    and rel: "\<forall>x \<in> set (agent_leases l). released_at x \<noteq> None"
    and sc: "typed_scope (isolation_scope l) client project roots" "client \<noteq> []" "project \<noteq> []" "roots \<noteq> []"
    and rq: "requires_landing (ledger_control l) = None"
    and v: "validate_ledger H (ledger_val l) = Inr fs"
  shows "rule_ids fs \<inter> default_gate_rules = {} \<longleftrightarrow> no_weak l \<and> paths_ok roots l"
proof -
  let ?R = "{''LEDGER.EVIDENCE_REQUIRED'', ''LEDGER.ACCEPTANCE_WEAK''}"
  have some: "map_of (isolation_scope l) ''allowed_roots'' \<noteq> None" "map_of (isolation_scope l) ''client_id'' \<noteq> None"
      "map_of (isolation_scope l) ''project_id'' \<noteq> None"
    using sc(1) by (auto simp: typed_scope_def dget_def strs_def split: option.splits)
  have scope_ok: "all_truthy (VDict (isolation_scope l)) [''client_id'', ''project_id'', ''allowed_roots''] = Inr True"
    using sc by (auto simp: typed_scope_def)
  have chain: "verify_chain H (execution_log l) = Inr True" using inv(2) by (simp add: log_inv_def)
  note cs = check_scope_typed [OF sc(1) some typed_events [OF inv(2,3) sc(1)]]
  from v obtain b fs0 fs1 fs2 fs3 fs4 where
    0: "emit_if b ''LEDGER.SOURCE_VERSION_MISSING'' ''ledger_control is missing source IPLAN id/version/checksum'' [] = Inr fs0"
    and 1: "foldR (check_task (VList (execution_evidence l))) fs0 (map task_val (task_ledger l)) = Inr fs1"
    and 2: "foldR check_blocker fs1 (map blocker_val (blockers l)) = Inr fs2"
    and 3: "check_leases (ledger_val l) fs2 = Inr fs3"
    and 4: "check_reconciliation (ledger_val l) fs3 = Inr fs4"
    and 5: "check_landing (ledger_val l) (control_val (ledger_control l))
        (fs4 @ (if paths_ok roots l then [] else
      [finding_of ''ISOLATION.PATH_OUTSIDE_ROOTS'' ''an event touched a path outside allowed_roots''])) = Inr fs"
    unfolding validate_ledger_def get_ledger_val bindR_simps scope_ok iter_VList chain cs if_True
      emit_if_catalogued [OF catalogued_ledger(7)] emit_if_catalogued [OF catalogued_ledger(10)]
    by (auto simp only: bindR_Inr_iff bindR_simps cs chain if_True if_False not_True_eq_False append_Nil2 HOL.simp_thms)
  have "rule_ids fs0 \<subseteq> {''LEDGER.SOURCE_VERSION_MISSING''}"
    using 0 by (cases b) (auto simp: emit_if_catalogued)
  then have r0: "rule_ids fs0 \<inter> default_gate_rules = {}" "rule_ids fs0 \<inter> ?R = {}"
    by (auto simp: default_gate_rules_def)
  have r1: "rule_ids fs1 \<inter> ?R = {} \<longleftrightarrow> no_weak l" "rule_ids fs1 - ?R = rule_ids fs0 - ?R"
    using check_tasks_rules [OF 1 entries_rules(1,2) [OF inv(1)]] r0(2) by (simp_all add: no_weak_def)
  have r2: "fs2 = fs1" by (rule check_blockers_rules [OF 2 entries_rules(3) [OF inv(1)]])
  have r3: "fs3 = fs2"
    using 3 check_leases_released [OF rel] by (simp add: check_leases_def get_ledger_val)
  have "rule_ids fs4 \<subseteq> rule_ids fs3 \<union> {''LEDGER.RECONCILE_INCONSISTENT''}" "rule_ids fs3 \<subseteq> rule_ids fs4"
    using check_reconciliation_rules [OF _ 4, of "reconciled l"] by (auto simp: get_ledger_val)
  then have r4: "rule_ids fs4 \<inter> default_gate_rules = rule_ids fs1 \<inter> default_gate_rules"
    using r2 r3 by (auto simp: default_gate_rules_def)
  have r5: "rule_ids fs = rule_ids fs4 \<union> (if paths_ok roots l then {} else {''ISOLATION.PATH_OUTSIDE_ROOTS''})"
    using 5 [symmetric] rq by (simp add: check_landing_def get_control_val emit_if_catalogued)
  have sub: "?R \<subseteq> default_gate_rules" by (simp add: default_gate_rules_def)
  have "rule_ids fs1 \<inter> default_gate_rules = {} \<longleftrightarrow> no_weak l"
  proof -
    have "rule_ids fs1 \<inter> default_gate_rules = (rule_ids fs1 \<inter> ?R) \<union> ((rule_ids fs1 - ?R) \<inter> default_gate_rules)"
      using sub by blast
    moreover have "(rule_ids fs0 - ?R) \<inter> default_gate_rules = {}" using r0(1) by blast
    ultimately show ?thesis using r1 by simp
  qed
  moreover have "''ISOLATION.PATH_OUTSIDE_ROOTS'' \<in> default_gate_rules" by (simp add: default_gate_rules_def)
  ultimately show ?thesis using r4 r5 by auto
qed

section \<open>The verdict on a run\<close>

lemma run_ledger_shape:
  assumes "run H agent env mr bb gate manifest w = (Inr r, w')"
  obtains l0 l st where "init_ledger manifest = Inr l0" "rr_ledger r = reconcile (set_run_state st l)"
    "isolation_scope l = isolation_scope l0" "requires_landing (ledger_control l) = None"
    "lc_status (ledger_control l) = ''in_progress''"
proof -
  obtain l0 where l0: "init_ledger manifest = Inr l0" using run_Inr [OF assms] by blast
  let ?J = "\<lambda>l. isolation_scope l = isolation_scope l0 \<and> ledger_control l = ledger_control l0"
  have t: "touches H t l l' \<Longrightarrow> ?J l \<Longrightarrow> ?J l'" for t l l' by (simp add: touches_def same_control_def)
  obtain l st where r: "rr_ledger r = reconcile (set_run_state st l)" and l: "?J l"
  proof (rule run_rule [where J = "\<lambda>_. ?J", OF assms])
    show "?J l" if "init_ledger manifest = Inr l" for l using that l0 by simp
    show "?J l'" if "?J l" "task_ran H agent t result n l l'" for t l l' result n
      by (rule t [OF task_ran_touches [OF that(2)] that(1)])
    show "?J l'" if "?J l" "block_tail H t ''dependency not satisfied'' ''pending'' stamp
             (add_blocker bid t ''dependency not satisfied'' l) = Inr l'" for t l l' stamp bid
      by (rule t [OF block_touches [OF that(2)] that(1)])
  qed blast
  have "lc_status (ledger_control l0) = ''in_progress''"
    using l0 by (auto simp: init_ledger_def bindR_Inr_iff)
  with r l init_ledger_fields(9) [OF l0] show ?thesis using that [OF l0 r] by simp
qed

lemma entries_reconcile [simp]: "entries_inv (reconcile (set_run_state st l)) = entries_inv l"
  by (simp add: entries_inv_def)

lemma run_reconcile_shape:
  assumes "run H agent env mr bb gate manifest w = (Inr r, w')"
  obtains l st where "rr_ledger r = reconcile (set_run_state st l)" "entries_inv l"
    "lc_status (ledger_control l) = ''in_progress''"
proof -
  obtain l st where "rr_ledger r = reconcile (set_run_state st l)" "lc_status (ledger_control l) = ''in_progress''"
    by (rule run_ledger_shape [OF assms])
  with run_entries [OF assms] that show ?thesis by simp
qed

lemma scope_nonempty:
  assumes "init_ledger manifest = Inr l" "validate_intake manifest = Inr fs" "status_of fs \<noteq> ''fail''"
    and "typed_scope (isolation_scope l) client project roots"
  shows "client \<noteq> []" "project \<noteq> []" "roots \<noteq> []"
proof -
  obtain p where p: "intake_passed manifest p" by (rule validate_intake_passes [OF assms(2,3)])
  have "item manifest ''isolation_scope'' = Inr (VDict (isolation_scope l))"
    using init_ledger_fields(10) [OF assms(1)] .
  then have "get_or manifest ''isolation_scope'' (VDict []) = Inr (VDict (isolation_scope l))"
    by (auto simp: item_Inr_iff dget_or_def)
  with p have "all_truthy (VDict (isolation_scope l)) [''client_id'', ''project_id'', ''allowed_roots''] = Inr True"
    by (simp add: intake_passed_def)
  with assms(4) show "client \<noteq> []" "project \<noteq> []" "roots \<noteq> []"
    by (auto simp: typed_scope_def split: if_splits)
qed

lemma gate_verdict:
  assumes run: "run H agent env mr bb VNone manifest w = (Inr r, w')"
    and sc: "typed_scope (isolation_scope (rr_ledger r)) client project roots"
  shows "g_status (rr_gate r) = (if no_weak (rr_ledger r) \<and> paths_ok roots (rr_ledger r) then ''passed'' else ''failed'')"
proof -
  obtain fs l where v: "validate_intake manifest = Inr fs" "status_of fs \<noteq> ''fail''"
    and l: "init_ledger manifest = Inr l" and d: "drive H agent env mr bb VNone manifest {} l w = (Inr r, w')"
    by (rule run_Inr [OF run])
  have "or_else VNone default_gate = default_gate" by (simp add: or_else_def)
  with drive_Inr [OF d] have g: "run_gate H (ledger_val (rr_ledger r)) default_gate = Inr (rr_gate r)" by metis
  obtain l0 l1 st where s: "init_ledger manifest = Inr l0" "rr_ledger r = reconcile (set_run_state st l1)"
    "isolation_scope l1 = isolation_scope l0" "requires_landing (ledger_control l1) = None"
    by (rule run_ledger_shape [OF run])
  have sc0: "typed_scope (isolation_scope l) client project roots" using sc s l by simp
  note ne = scope_nonempty [OF l v sc0]
  have rq: "requires_landing (ledger_control (rr_ledger r)) = None" using s by simp
  have rel: "\<forall>x \<in> set (agent_leases (rr_ledger r)). released_at x \<noteq> None"
    using run_exec [OF run] by (simp add: exec_inv_def)
  from g obtain findings where f: "validate_ledger H (ledger_val (rr_ledger r)) = Inr findings"
    by (auto simp: run_gate_def bindR_Inr_iff)
  have "rule_ids findings \<inter> default_gate_rules = {} \<longleftrightarrow> no_weak (rr_ledger r) \<and> paths_ok roots (rr_ledger r)"
    by (rule finished_rules [OF run_entries [OF run] run_log_inv [OF run] run_path_sigs [OF run] rel sc ne rq f])
  moreover have "rr_gate r = \<lparr>g_status = (if rule_ids findings \<inter> default_gate_rules = {} then ''passed'' else ''failed''),
     g_rules = map (\<lambda>(i, ids). gate_rule_result (rule_ids findings) i ids) default_rules\<rparr>"
    using g run_default_gate [OF f] by simp
  ultimately show ?thesis by simp
qed

end
