(* ===== verification/Examples.thy ===== *)
theory Examples
  imports GateRun
begin

text \<open>
  A concrete environment, manifest and digest on which the run loop is evaluated in the
  kernel: two tasks, the second depending on the first, with an executor that succeeds or
  fails per task. The witnesses of the run properties are instances of these.

  The evaluation is by the simplifier, call by value: the congruence rules keep it out of
  the continuation of a bind until its first action has a value.
\<close>

section \<open>The environment\<close>

definition ex_digest :: digest where
  "ex_digest b = ''h''"

definition ex_execute :: "(string \<Rightarrow> exec_result) \<Rightarrow> val \<Rightarrow> (string \<times> val) list \<Rightarrow> (unit, exec_result) io" where
  "ex_execute f t s = (case item t ''task_id'' of Inr (VStr i) \<Rightarrow> retI (f i) | _ \<Rightarrow> raiseI TypeError)"

definition ex_env :: "string \<Rightarrow> (string \<Rightarrow> exec_result) \<Rightarrow> unit env" where
  "ex_env flag f = \<lparr>clock = retI ''t'', ids = retI, sleep = (\<lambda>_. retI ()), control = retI flag,
     execute = ex_execute f, compensate = (\<lambda>_. retI ()),
     git_has_changes = (\<lambda>_. retI True), git_commit_all = (\<lambda>_ _ _. retI ''sha'')\<rparr>"

definition ex_task :: "string \<Rightarrow> string list \<Rightarrow> val" where
  "ex_task i ds = VDict [(''task_id'', VStr i), (''title'', VStr i), (''depends_on'', VList (map VStr ds)),
     (''acceptance'', VDict [(''criteria'', VList [VStr ''ok''])])]"

definition ex_scope :: "(string \<times> val) list" where
  "ex_scope = [(''client_id'', VStr ''a''), (''project_id'', VStr ''p''), (''allowed_roots'', VList [VStr ''src/''])]"

definition ex_manifest :: val where
  "ex_manifest = VDict [(''metadata'', VDict [(''schema_version'', VStr ''1.0'')]),
     (''intake_control'', VDict [(''source_iplan'', VStr ''I1''), (''source_iplan_version'', VStr ''1''),
        (''source_iplan_checksum'', VStr ''c''), (''exec_ready_score'', VInt 92), (''approved'', VBool True)]),
     (''isolation_scope'', VDict ex_scope),
     (''task_graph'', VList [ex_task ''T1'' [], ex_task ''T2'' [''T1'']])]"

definition ex_good :: exec_result where
  "ex_good = \<lparr>outcome = ''success'', touched_paths = [''src/a''], evidence = Some [(''kind'', VStr ''x'')],
     reason = None, retriable = False\<rparr>"

definition ex_bad :: exec_result where
  "ex_bad = \<lparr>outcome = ''failure'', touched_paths = [''src/b''], evidence = None,
     reason = Some ''boom'', retriable = True\<rparr>"

section \<open>Evaluation\<close>

lemma bindI_stop: "bindI m f w = bindI m f w"
  by (rule refl)

lemma bindI_stop2: "bindI m f = bindI m f"
  by (rule refl)

lemma bindR_weak: "m = m' \<Longrightarrow> bindR m f = bindR m' f"
  by simp

lemma ex_env_fields [simp]:
  "clock (ex_env flag f) = retI ''t''" "ids (ex_env flag f) = retI" "sleep (ex_env flag f) = (\<lambda>_. retI ())"
  "control (ex_env flag f) = retI flag" "execute (ex_env flag f) = ex_execute f"
  "compensate (ex_env flag f) = (\<lambda>_. retI ())" "git_has_changes (ex_env flag f) = (\<lambda>_. retI True)"
  "git_commit_all (ex_env flag f) = (\<lambda>_ _ _. retI ''sha'')"
  by (simp_all add: ex_env_def)

lemma ex_execute_app: "ex_execute f (ex_task i ds) sc w = (Inr (f i), w)"
  by (simp add: ex_execute_def ex_task_def)

lemmas eval_io = bindI_app retI_app liftI_app raiseI_app foldI.simps

lemma ex_validate: "validate_intake ex_manifest = Inr []"
  by code_simp

definition ex_entry :: "string \<Rightarrow> task_entry" where
  "ex_entry i = \<lparr>te_task_id = VStr i, te_title = VStr i, te_status = ''pending'', te_evidence_refs = [],
          te_criteria = VList [VStr ''ok''], te_result = ''none'', te_blocked_reason = None,
          te_decision_owner = None\<rparr>"

definition ex_ledger :: ledger where
  "ex_ledger = \<lparr>ledger_control = \<lparr>ledger_id = ''LEDGER-I1'', source_iplan = VStr ''I1'',
            source_iplan_version = VStr ''1'', source_iplan_checksum = VStr ''c'',
            lc_status = ''in_progress'', run_state = ''running'', requires_landing = None\<rparr>,
          isolation_scope = ex_scope, task_ledger = [ex_entry ''T1'', ex_entry ''T2''], agent_leases = [],
          execution_evidence = [], blockers = [],
          reconciled = \<lparr>r_allowed = False, pending_tasks = 2, open_blockers = 0\<rparr>,
          saga_journal = [], execution_history = [], execution_log = [],
          vcs = None, resolutions = None\<rparr>"

lemma ex_init: "init_ledger ex_manifest = Inr ex_ledger"
  by code_simp

lemma ex_nodes: "nodes_by_id [ex_task ''T1'' [], ex_task ''T2'' [''T1'']] =
    Inr [(''T1'', ex_task ''T1'' []), (''T2'', ex_task ''T2'' [''T1''])]"
  by code_simp

lemma ex_order: "topo_order [ex_task ''T1'' [], ex_task ''T2'' [''T1'']] = Inr [''T1'', ''T2'']"
  by code_simp

lemma ex_graph: "bindR (item ex_manifest ''task_graph'') iter = Inr [ex_task ''T1'' [], ex_task ''T2'' [''T1'']]"
  by code_simp

definition ex_event :: "int \<Rightarrow> val \<Rightarrow> string \<Rightarrow> string \<Rightarrow> string list \<Rightarrow> val" where
  "ex_event n prev et t ps = VDict [(''event_type'', VStr et), (''subject_id'', VStr t), (''at'', VStr ''t''),
     (''touched_paths'', VList (map VStr ps)), (''client_id'', VStr ''a''), (''project_id'', VStr ''p''),
     (''sequence'', VInt n), (''previous_event_hash'', prev), (''event_hash'', VStr ''sha256:h'')]"

definition ex_done_entry :: "string \<Rightarrow> task_entry" where
  "ex_done_entry i = (ex_entry i)\<lparr>te_status := ''completed'', te_evidence_refs := [''EV''], te_result := ''pass''\<rparr>"

definition ex_lease :: "string \<Rightarrow> lease" where
  "ex_lease i = \<lparr>lease_id = ''L'', l_task_id = i, agent_id = ''claude'', acquired_at = ''t'',
     expires_at = None, released_at = Some ''t''\<rparr>"

definition ex_txn :: "string \<Rightarrow> txn" where
  "ex_txn i = \<lparr>txn_id = ''TX'', x_task_id = i, x_action = ''execute'', x_compensation = ''revert'',
     idempotency_key = i @ ''-execute'', x_status = ''committed'', timeout_s = 600, attempts = Some 1\<rparr>"

definition ex_step :: "string \<Rightarrow> string \<Rightarrow> string \<Rightarrow> history_entry" where
  "ex_step i a b = \<lparr>h_at = ''t'', h_task_id = i, from_status = a, to_status = b\<rparr>"

definition ex_evidence :: "string \<Rightarrow> val" where
  "ex_evidence i = VDict [(''evidence_id'', VStr ''EV''), (''task_id'', VStr i), (''kind'', VStr ''x'')]"

definition ex_final :: ledger where
  "ex_final = ex_ledger\<lparr>task_ledger := [ex_done_entry ''T1'', ex_done_entry ''T2''],
     agent_leases := [ex_lease ''T1'', ex_lease ''T2''],
     execution_evidence := [ex_evidence ''T1'', ex_evidence ''T2''],
     saga_journal := [ex_txn ''T1'', ex_txn ''T2''],
     execution_history := [ex_step ''T1'' ''pending'' ''in_progress'', ex_step ''T1'' ''in_progress'' ''completed'',
        ex_step ''T2'' ''pending'' ''in_progress'', ex_step ''T2'' ''in_progress'' ''completed''],
     execution_log := [ex_event 1 VNone ''task_started'' ''T1'' [],
        ex_event 2 (VStr ''sha256:h'') ''file_edited'' ''T1'' [''src/a''],
        ex_event 3 (VStr ''sha256:h'') ''task_completed'' ''T1'' [],
        ex_event 4 (VStr ''sha256:h'') ''task_started'' ''T2'' [],
        ex_event 5 (VStr ''sha256:h'') ''file_edited'' ''T2'' [''src/a''],
        ex_event 6 (VStr ''sha256:h'') ''task_completed'' ''T2'' []]\<rparr>"

lemma ex_task_reads: "item (ex_task i ds) ''task_id'' = Inr (VStr i)" "node_deps (ex_task i ds) = Inr ds"
  by (simp_all add: ex_task_def node_deps_def dget_or_def comp_def)

lemma ex_good_fields: "outcome ex_good = ''success''" "touched_paths ex_good = [''src/a'']"
    "evidence ex_good = Some [(''kind'', VStr ''x'')]" "retriable ex_good = False"
  by (simp_all add: ex_good_def)

lemmas loop_eval = drive_loop.simps run_task_def open_task_def record_file_def record_evidence_def
  complete_task_def execute_with_retry_def retry_loop.simps log_event_def append_log_def chain_event_def
  mk_event_def find_task_def is_entry_def set_status_def update_task_def add_lease_def add_txn_def
  add_history_def set_txn_def set_lease_def already_committed_def can_acquire_def lease_state_def
  compute_event_hash_def ex_digest_def lookup_node_def stops_def evidence_entry_def ex_ledger_def
  ex_entry_def ex_task_reads ex_execute_app dget_def dget_or_def ex_scope_def truthy_opt_def strs_def
  ex_good_fields eval_io Let_def

lemmas final_eval = ex_final_def ex_done_entry_def ex_lease_def ex_txn_def ex_step_def ex_evidence_def ex_event_def

lemma ex_drive:
  "drive_loop ex_digest ''claude'' (ex_env ''running'' (\<lambda>_. ex_good)) mr bb
     [(''T1'', ex_task ''T1'' []), (''T2'', ex_task ''T2'' [''T1''])] [''T1'', ''T2''] {} ex_ledger ()
   = (Inr (''completed'', ex_final), ())"
  by (simp add: loop_eval final_eval cong: bindI_stop bindI_stop2 bindR_weak let_weak_cong)

definition ex_result :: run_result where
  "ex_result = \<lparr>rr_ledger = reconcile (set_run_state ''completed'' ex_final),
     rr_gate = \<lparr>g_status = ''passed'', g_rules = map (\<lambda>(i, ids). gate_rule_result {} i ids) default_rules\<rparr>\<rparr>"

lemma ex_gate_findings: "validate_ledger ex_digest (ledger_val (reconcile (set_run_state ''completed'' ex_final))) = Inr []"
  by code_simp

lemma ex_run:
  "run ex_digest ''claude'' (ex_env ''running'' (\<lambda>_. ex_good)) mr bb VNone ex_manifest () = (Inr ex_result, ())"
proof -
  have "run_gate ex_digest (ledger_val (rr_ledger ex_result)) default_gate = Inr (rr_gate ex_result)"
    using run_default_gate [OF ex_gate_findings] by (simp add: ex_result_def)
  then have g: "run_gate ex_digest (ledger_val (reconcile (set_run_state ''completed'' ex_final))) default_gate
      = Inr (rr_gate ex_result)" by (simp add: ex_result_def)
  have n: "or_else VNone default_gate = default_gate" by (simp add: or_else_def)
  have st: "status_of [] = ''pass''" by (simp add: status_of_def)
  show ?thesis
    by (simp add: run_def ex_validate st ex_init drive_def ex_graph [simplified] ex_nodes ex_order ex_drive
        bindI_app g n Let_def del: drive_loop.simps) (simp add: ex_result_def)
qed

end
