(* ===== verification/RunClaims.thy ===== *)
theory RunClaims
  imports Examples
begin

text \<open>
  The properties of \<open>run\<close>. Each holds for every environment: whatever the executor
  answers and touches, whatever the clock, the ids and the control flag are.
\<close>

text \<open>
  C1. Dependencies. In the event log of a finished run, a task is started only after
  \<open>task_completed\<close> was logged for every task it depends on; and a task that ended
  completed has all its dependencies completed.
\<close>

theorem run_dependency_safety:
  assumes "run H agent env mr bb gate manifest w = (Inr r, w')"
    and "bindR (graph_of manifest) nodes_by_id = Inr by_id"
  shows "deps_first (deps_of by_id) {} (map ev_sig (execution_log (rr_ledger r)))
     \<and> (\<forall>t. is_done (rr_ledger r) t \<longrightarrow> (\<forall>d \<in> set (deps_of by_id t). is_done (rr_ledger r) d))"
  using run_deps_inv [OF assms] by (auto simp: deps_inv_def)

theorem run_dependency_safety_witness:
  "\<exists>by_id. bindR (graph_of ex_manifest) nodes_by_id = Inr by_id
     \<and> deps_first (deps_of by_id) {} (map ev_sig (execution_log (rr_ledger ex_result)))"
  using run_dependency_safety [OF ex_run] ex_graph ex_nodes by (auto simp: graph_of_def)

text \<open>
  C3. Hash chain. The event log of a finished run verifies, and every event in it carries the
  client and the project of the run's isolation scope.
\<close>

theorem run_log_verified:
  assumes "run H agent env mr bb gate manifest w = (Inr r, w')"
  shows "verify_chain H (execution_log (rr_ledger r)) = Inr True
     \<and> (\<forall>e \<in> set (execution_log (rr_ledger r)). scoped (isolation_scope (rr_ledger r)) e)"
  using run_log_inv [OF assms] by (simp add: log_inv_def)

theorem run_log_verified_witness:
  "verify_chain ex_digest (execution_log (rr_ledger ex_result)) = Inr True"
  using run_log_verified [OF ex_run] by blast

text \<open>
  C2. At most one execution per task. In a finished run every lease was released, no two
  leases and no two transactions are for the same task, every lease has its transaction,
  every transaction made between one and \<open>max_retries + 1\<close> attempts, and it is committed
  exactly when its task completed.
\<close>

theorem run_executes_once:
  assumes "run H agent env mr bb gate manifest w = (Inr r, w')"
  shows "(\<forall>x \<in> set (agent_leases (rr_ledger r)). released_at x \<noteq> None)
     \<and> distinct (map l_task_id (agent_leases (rr_ledger r)))
     \<and> map x_task_id (saga_journal (rr_ledger r)) = map l_task_id (agent_leases (rr_ledger r))
     \<and> (\<forall>x \<in> set (saga_journal (rr_ledger r)).
          (\<exists>n. attempts x = Some n \<and> 1 \<le> n \<and> n \<le> max 1 (mr + 1))
          \<and> (x_status x = ''committed'' \<longleftrightarrow> is_done (rr_ledger r) (x_task_id x)))"
  using run_exec [OF assms] by (simp add: exec_inv_def txn_ok_def)

theorem run_executes_once_witness:
  "distinct (map l_task_id (agent_leases (rr_ledger ex_result)))
     \<and> map l_task_id (agent_leases (rr_ledger ex_result)) = [''T1'', ''T2'']"
  using run_executes_once [OF ex_run]
  by (simp add: ex_result_def ex_final_def ex_lease_def)

text \<open>
  C22. Lifecycles. The recorded history of every task of a finished run is one of four:
  nothing (still pending), pending to blocked (a dependency was not met), or pending to
  in progress and then to completed or to blocked; and it ends in the task's status.
\<close>

theorem run_lifecycles:
  assumes "run H agent env mr bb gate manifest w = (Inr r, w')"
    and "find_task (rr_ledger r) t = Inr e"
  shows "transitions (rr_ledger r) t \<in> lifecycles (te_status e)"
proof -
  have "transitions (rr_ledger r) t \<in> expected_transitions (rr_ledger r) t"
    using run_history [OF assms(1)] by (simp add: history_inv_def)
  then show ?thesis by (simp add: expected_transitions_def assms(2))
qed

lemma ex_find: "find_task (rr_ledger ex_result) ''T2'' = Inr (ex_done_entry ''T2'')"
  by (simp add: ex_result_def ex_final_def find_task_def is_entry_def ex_done_entry_def ex_entry_def)

theorem run_lifecycles_witness:
  "transitions (rr_ledger ex_result) ''T2'' \<in> lifecycles ''completed''"
  using run_lifecycles [OF ex_run ex_find] by (simp add: ex_done_entry_def)

text \<open>
  C19. Blocked tasks have an owner. In a finished run every task is pending, completed or
  blocked; a blocked task names the operator as decision owner and has a blocker with its
  reason, and every blocker is of a blocked task.
\<close>

theorem run_blocked_owned:
  assumes "run H agent env mr bb gate manifest w = (Inr r, w')"
  shows "(\<forall>e \<in> set (task_ledger (rr_ledger r)). entry_ok (blockers (rr_ledger r)) e)
     \<and> (\<forall>b \<in> set (blockers (rr_ledger r)). \<exists>e \<in> set (task_ledger (rr_ledger r)).
          te_status e = ''blocked'' \<and> blocker_of e b)"
  using run_entries [OF assms] by (simp add: entries_inv_def)

theorem run_blocked_owned_witness:
  "entry_ok (blockers (rr_ledger ex_result)) (ex_done_entry ''T1'')"
  using run_blocked_owned [OF ex_run] by (simp add: ex_result_def ex_final_def)

text \<open>
  C18. Reconciliation. A finished run is marked reconciled, and its ledger \<open>completed\<close>, exactly
  when every task of the graph completed; the two counters are the open tasks and the
  blockers.
\<close>

theorem run_reconciled_iff_all_completed:
  assumes "run H agent env mr bb gate manifest w = (Inr r, w')"
  shows "(r_allowed (reconciled (rr_ledger r)) \<longleftrightarrow> all_completed (rr_ledger r))
     \<and> (lc_status (ledger_control (rr_ledger r)) = ''completed'' \<longleftrightarrow> all_completed (rr_ledger r))
     \<and> pending_tasks (reconciled (rr_ledger r)) = length (filter is_open (task_ledger (rr_ledger r)))
     \<and> open_blockers (reconciled (rr_ledger r)) = length (blockers (rr_ledger r))"
proof -
  obtain l st where r: "rr_ledger r = reconcile (set_run_state st l)" and l: "entries_inv l"
    and st: "lc_status (ledger_control l) = ''in_progress''"
    by (rule run_reconcile_shape [OF assms]) blast
  have e: "entries_inv (set_run_state st l)" using l by (simp add: entries_inv_def)
  have a: "r_allowed (reconciled (rr_ledger r)) \<longleftrightarrow> all_completed (rr_ledger r)"
    using entries_allowed [OF e] by (simp add: r reconcile_allowed all_completed_def)
  have "lc_status (ledger_control (set_run_state st l)) = ''in_progress''"
    using st by (simp add: set_run_state_def)
  then show ?thesis using a by (auto simp: r reconcile_counts reconcile_status)
qed

theorem run_reconciled_witness:
  "r_allowed (reconciled (rr_ledger ex_result)) \<longleftrightarrow> all_completed (rr_ledger ex_result)"
  using run_reconciled_iff_all_completed [OF ex_run] by blast

text \<open>
  C4. Gate verdict. For a scope whose ids are strings and whose roots are a list of strings,
  the default gate passes a finished run exactly when every completed task has passing
  acceptance (evidence was recorded for it) and every touched path of the log starts with an
  allowed root. No other rule of the gate can fail on the ledger of a run.
\<close>

theorem run_gate_verdict:
  assumes run: "run H agent env mr bb VNone manifest w = (Inr r, w')"
    and sc: "typed_scope (isolation_scope (rr_ledger r)) client project roots"
  shows "g_status (rr_gate r) = (if no_weak (rr_ledger r) \<and> paths_ok roots (rr_ledger r) then ''passed'' else ''failed'')"
  by (rule gate_verdict [OF run sc])

theorem run_gate_verdict_witness:
  "g_status (rr_gate ex_result) = (if no_weak (rr_ledger ex_result) \<and> paths_ok [''src/''] (rr_ledger ex_result)
     then ''passed'' else ''failed'')"
  using run_gate_verdict [OF ex_run, of "''a''" "''p''" "[''src/'']"]
  by (simp add: ex_result_def ex_final_def ex_ledger_def ex_scope_def typed_scope_def dget_def strs_def)

end
