(* ===== verification/Sandbox.thy ===== *)
theory Sandbox
  imports PyVal
begin

text \<open>
  The path jail and the effectors behind it: \<open>classify_path\<close> (\<open>effectors/sandbox.py\<close>)
  with \<open>posixpath.normpath\<close>, \<open>apply_write\<close> (\<open>effectors/apply.py\<close>),
  \<open>undo_writes\<close> (\<open>effectors/compensate.py\<close>) and \<open>run_command\<close>
  (\<open>effectors/commands.py\<close>). The file system and the subprocess are parameters: a record
  of what the code asks of them, over the world they live in.
\<close>

section \<open>Normal forms of paths\<close>

text \<open>\<open>s.split(c)\<close> for one character.\<close>

fun split_on :: "char \<Rightarrow> string \<Rightarrow> string list" where
  "split_on c [] = [[]]"
| "split_on c (x # xs) =
     (if x = c then [] # split_on c xs
      else (case split_on c xs of [] \<Rightarrow> [[x]] | p # ps \<Rightarrow> (x # p) # ps))"

definition slash :: char where
  "slash = CHR ''/''"

definition isabs :: "string \<Rightarrow> bool" where
  "isabs path = startswith path [slash]"

text \<open>
  The loop over the components; the components kept so far are in reverse order. The first
  argument is \<open>initial_slashes\<close>.
\<close>

fun norm_comps :: "bool \<Rightarrow> string list \<Rightarrow> string list \<Rightarrow> string list" where
  "norm_comps rooted acc [] = rev acc"
| "norm_comps rooted acc (c # cs) =
     (if c = [] \<or> c = ''.'' then norm_comps rooted acc cs
      else if c \<noteq> ''..'' \<or> (\<not> rooted \<and> acc = []) \<or> (acc \<noteq> [] \<and> hd acc = ''..'')
      then norm_comps rooted (c # acc) cs
      else norm_comps rooted (tl acc) cs)"

text \<open>POSIX keeps two leading slashes and collapses any other number to one.\<close>

definition initial_slashes :: "string \<Rightarrow> string" where
  "initial_slashes path =
     (let n = length (takeWhile (\<lambda>c. c = slash) path) in
      if n = 0 then [] else if n = 2 then [slash, slash] else [slash])"

definition normpath :: "string \<Rightarrow> string" where
  "normpath path =
     (let lead = initial_slashes path;
          p = lead @ join [slash] (norm_comps (lead \<noteq> []) [] (split_on slash path)) in
      if p = [] then ''.'' else p)"

section \<open>The jail\<close>

record jail_decision =
  jd_allowed :: bool
  jd_reason :: string

definition under :: "string \<Rightarrow> string \<Rightarrow> bool" where
  "under normalized rt = (let base = normpath rt in normalized = base \<or> startswith normalized (base @ [slash]))"

fun check_roots :: "string \<Rightarrow> string list \<Rightarrow> string list \<Rightarrow> jail_decision" where
  "check_roots normalized [] forbidden = \<lparr>jd_allowed = False, jd_reason = ''SANDBOX.OUTSIDE_ROOTS''\<rparr>"
| "check_roots normalized (rt # roots) forbidden =
     (if under normalized rt
      then if \<exists>f \<in> set forbidden. under normalized f
           then \<lparr>jd_allowed = False, jd_reason = ''SANDBOX.FORBIDDEN''\<rparr>
           else \<lparr>jd_allowed = True, jd_reason = ''SANDBOX.OK''\<rparr>
      else check_roots normalized roots forbidden)"

definition classify_path :: "string \<Rightarrow> string list \<Rightarrow> string list \<Rightarrow> jail_decision" where
  "classify_path path allowed_roots forbidden_paths =
     (if isabs path then \<lparr>jd_allowed = False, jd_reason = ''SANDBOX.ESCAPE''\<rparr>
      else let normalized = normpath path in
        if normalized = ''..'' \<or> startswith normalized ''../''
        then \<lparr>jd_allowed = False, jd_reason = ''SANDBOX.ESCAPE''\<rparr>
        else check_roots normalized allowed_roots forbidden_paths)"

section \<open>Effectors\<close>

text \<open>
  Absolute paths are lists of components. \<open>fs_resolve\<close> follows symbolic links;
  \<open>fs_exists\<close> does too, so it is false of a dangling link.
\<close>

record 'w fs =
  fs_resolve :: "string list \<Rightarrow> 'w \<Rightarrow> string list"
  fs_exists :: "string list \<Rightarrow> 'w \<Rightarrow> bool"
  fs_is_file :: "string list \<Rightarrow> 'w \<Rightarrow> bool"
  fs_mkdir :: "string list \<Rightarrow> ('w, unit) io"
  fs_write :: "string list \<Rightarrow> string \<Rightarrow> ('w, unit) io"
  fs_unlink :: "string list \<Rightarrow> ('w, unit) io"
  fs_run :: "val \<Rightarrow> string list \<Rightarrow> ('w, int \<times> string) io"

text \<open>\<open>root / path\<close> of \<open>pathlib\<close>: empty and \<open>.\<close> components are dropped, \<open>..\<close> is kept.\<close>

definition path_join :: "string list \<Rightarrow> string \<Rightarrow> string list" where
  "path_join rt path = (let cs = filter (\<lambda>c. c \<noteq> [] \<and> c \<noteq> ''.'') (split_on slash path) in
     if isabs path then cs else rt @ cs)"

text \<open>
  \<open>while not ancestor.exists(): ancestor = ancestor.parent\<close>, on the reversed components; the
  file system root exists.
\<close>

fun existing_ancestor :: "(string list \<Rightarrow> bool) \<Rightarrow> string list \<Rightarrow> string list" where
  "existing_ancestor ex [] = []"
| "existing_ancestor ex (c # cs) = (if ex (rev (c # cs)) then rev (c # cs) else existing_ancestor ex cs)"

definition inside :: "string list \<Rightarrow> string list \<Rightarrow> bool" where
  "inside rt p = prefix rt p"

definition apply_write ::
  "'w fs \<Rightarrow> string \<Rightarrow> val \<Rightarrow> string list \<Rightarrow> string list \<Rightarrow> ('w, string) io" where
  "apply_write fs path content workspace allowed_roots = (\<lambda>w.
     let decision = classify_path path allowed_roots [] in
     if \<not> jd_allowed decision
     then (Inl (PermissionError (''sandbox denied '' @ path @ '': '' @ jd_reason decision)), w) else
     let workspace_root = fs_resolve fs workspace w;
         target = path_join workspace_root path;
         ancestor = existing_ancestor (\<lambda>p. fs_exists fs p w) (rev target) in
     if \<not> inside workspace_root (fs_resolve fs ancestor w)
     then (Inl (PermissionError (''sandbox denied '' @ path @ '': SANDBOX.ESCAPE (realpath)'')), w)
     else bindI (fs_mkdir fs (butlast target)) (\<lambda>_.
          bindI (liftI (as_str content)) (\<lambda>content.
          bindI (fs_write fs target content) (\<lambda>_. retI path))) w)"

definition undo_one :: "'w fs \<Rightarrow> string list \<Rightarrow> string list \<Rightarrow> string \<Rightarrow> ('w, string list) io" where
  "undo_one fs rt removed path = (\<lambda>w.
     let target = fs_resolve fs (path_join rt path) w in
     if inside rt target \<and> fs_is_file fs target w
     then bindI (fs_unlink fs target) (\<lambda>_. retI (removed @ [path])) w
     else (Inr removed, w))"

definition undo_writes :: "'w fs \<Rightarrow> string list \<Rightarrow> string list \<Rightarrow> ('w, string list) io" where
  "undo_writes fs touched workspace = (\<lambda>w.
     foldI (undo_one fs (fs_resolve fs workspace w)) [] touched w)"

record outcome_of =
  exit_code :: int
  cmd_output :: string

definition run_command :: "'w fs \<Rightarrow> val \<Rightarrow> string list \<Rightarrow> ('w, outcome_of) io" where
  "run_command fs cmd workspace =
     bindI (fs_run fs cmd workspace) (\<lambda>(code, out). retI \<lparr>exit_code = code, cmd_output = out\<rparr>)"

section \<open>What the jail guarantees\<close>

text \<open>
  Following the components of a path from a directory, with the names entered so far in
  reverse order: \<open>None\<close> as soon as a \<open>..\<close> would leave the directory.
\<close>

fun walk :: "string list \<Rightarrow> string list \<Rightarrow> string list option" where
  "walk stack [] = Some (rev stack)"
| "walk stack (c # cs) =
     (if c = [] \<or> c = ''.'' then walk stack cs
      else if c = ''..'' then (case stack of [] \<Rightarrow> None | _ # s \<Rightarrow> walk s cs)
      else walk (c # stack) cs)"

lemma norm_comps_up: "acc \<noteq> [] \<Longrightarrow> last acc = ''..'' \<Longrightarrow> \<forall>c \<in> set acc. c = ''..'' \<Longrightarrow>
   \<exists>cs'. norm_comps False acc cs = ''..'' # cs'"
proof -
  have keep: "acc \<noteq> [] \<Longrightarrow> last acc = ''..'' \<Longrightarrow> (\<exists>us vs. acc = us @ vs \<and> vs \<noteq> [] \<and> (\<forall>v \<in> set vs. v = ''..'') \<and> (\<forall>u \<in> set us. u \<noteq> ''..''))
      \<Longrightarrow> \<exists>cs'. norm_comps False acc cs = ''..'' # cs'" for acc
  proof (induction cs arbitrary: acc)
    case Nil
    then show ?case by (cases acc rule: rev_cases) auto
  next
    case (Cons c cs)
    from Cons.prems(3) obtain us vs where uv: "acc = us @ vs" "vs \<noteq> []" "\<forall>v \<in> set vs. v = ''..''" "\<forall>u \<in> set us. u \<noteq> ''..''"
      by blast
    consider "c = [] \<or> c = ''.''" | "c \<noteq> []" "c \<noteq> ''.''" "c \<noteq> ''..''" | "c = ''..''" by blast
    then show ?case
    proof cases
      case 1
      with Cons show ?thesis by auto
    next
      case 2
      have "\<exists>us vs. c # acc = us @ vs \<and> vs \<noteq> [] \<and> (\<forall>v \<in> set vs. v = ''..'') \<and> (\<forall>u \<in> set us. u \<noteq> ''..'')"
        using uv 2 by (intro exI [of _ "c # us"] exI [of _ vs]) simp
      with Cons.IH [of "c # acc"] Cons.prems(1,2) 2 show ?thesis by simp
    next
      case 3
      show ?thesis
      proof (cases us)
        case Nil
        then have "hd acc = ''..''" using uv by (cases vs) auto
        moreover have "\<exists>us vs. ''..'' # acc = us @ vs \<and> vs \<noteq> [] \<and> (\<forall>v \<in> set vs. v = ''..'') \<and> (\<forall>u \<in> set us. u \<noteq> ''..'')"
          using uv Nil by (intro exI [of _ "[]"] exI [of _ "''..'' # vs"]) simp
        ultimately show ?thesis using Cons.IH [of "''..'' # acc"] Cons.prems(1,2) 3 by simp
      next
        case (Cons u us')
        then have "hd acc \<noteq> ''..''" "acc \<noteq> []" using uv by auto
        moreover have "tl acc = us' @ vs" using uv Cons by simp
        moreover from this have "\<exists>us vs. tl acc = us @ vs \<and> vs \<noteq> [] \<and> (\<forall>v \<in> set vs. v = ''..'') \<and> (\<forall>u \<in> set us. u \<noteq> ''..'')"
          using uv Cons by (intro exI [of _ us'] exI [of _ vs]) simp
        moreover have "tl acc \<noteq> []" "last (tl acc) = ''..''" using \<open>tl acc = us' @ vs\<close> uv Cons.prems(2) by auto
        ultimately show ?thesis using Cons.IH [of "tl acc"] 3 by simp
      qed
    qed
  qed
  assume "acc \<noteq> []" "last acc = ''..''" "\<forall>c \<in> set acc. c = ''..''"
  then show ?thesis by (intro keep) (auto intro: exI [of _ "[]"])
qed

text \<open>
  On a relative path the normal form either starts with \<open>..\<close> or is what the walk reaches
  without ever leaving the directory.
\<close>

lemma norm_comps_walk:
  "\<forall>c \<in> set acc. c \<noteq> ''..'' \<Longrightarrow>
     (\<exists>cs'. norm_comps False acc cs = ''..'' # cs') \<or> walk acc cs = Some (norm_comps False acc cs)"
proof (induction cs arbitrary: acc)
  case (Cons c cs)
  consider "c = [] \<or> c = ''.''" | "c \<noteq> []" "c \<noteq> ''.''" "c \<noteq> ''..''" | "c = ''..''" "acc = []"
    | a as where "c = ''..''" "acc = a # as" by (cases acc) blast+
  then show ?case
  proof cases
    case 1
    with Cons show ?thesis by auto
  next
    case 2
    with Cons.IH [of "c # acc"] Cons.prems show ?thesis by auto
  next
    case 3
    with norm_comps_up [of "[''..'']" cs] show ?thesis by auto
  next
    case 4
    with Cons.IH [of as] Cons.prems show ?thesis by auto
  qed
qed simp

definition clean :: "string list \<Rightarrow> bool" where
  "clean cs \<longleftrightarrow> (\<forall>c \<in> set cs. c \<noteq> [] \<and> slash \<notin> set c)"

lemma clean_simps [simp]: "clean []" "clean (c # cs) \<longleftrightarrow> c \<noteq> [] \<and> slash \<notin> set c \<and> clean cs"
  by (auto simp: clean_def)

lemma norm_comps_clean: "clean acc \<Longrightarrow> \<forall>c \<in> set cs. slash \<notin> set c \<Longrightarrow> clean (norm_comps r acc cs)"
proof (induction cs arbitrary: acc)
  case Nil
  then show ?case by (simp add: clean_def)
next
  case (Cons c cs)
  have "clean (tl acc)" using Cons.prems(1) by (cases acc) simp_all
  with Cons.IH [of acc] Cons.IH [of "c # acc"] Cons.IH [of "tl acc"] Cons.prems show ?case by simp
qed

lemma join_empty: "clean cs \<Longrightarrow> join [slash] cs = [] \<longleftrightarrow> cs = []"
  by (cases cs; cases "tl cs") (auto simp: neq_Nil_conv)

lemma split_on_parts: "\<forall>p \<in> set (split_on c s). c \<notin> set p"
  by (induction s) (auto split: list.splits)

lemma initial_slashes_rel: "\<not> isabs path \<Longrightarrow> initial_slashes path = []"
  by (cases path) (auto simp: isabs_def initial_slashes_def startswith_prefix)

lemma relative_normal:
  assumes "\<not> isabs path" and "\<not> (normpath path = ''..'' \<or> startswith (normpath path) ''../'')"
  obtains cs where "walk [] (split_on slash path) = Some cs"
    "normpath path = (if cs = [] then ''.'' else join [slash] cs)"
proof -
  let ?cs = "norm_comps False [] (split_on slash path)"
  have n: "normpath path = (if join [slash] ?cs = [] then ''.'' else join [slash] ?cs)"
    using initial_slashes_rel [OF assms(1)] by (simp add: normpath_def Let_def)
  have "clean ?cs"
    by (rule norm_comps_clean) (use split_on_parts in auto)
  then have e: "join [slash] ?cs = [] \<longleftrightarrow> ?cs = []" by (rule join_empty)
  have "\<not> (\<exists>cs'. ?cs = ''..'' # cs')"
  proof
    assume "\<exists>cs'. ?cs = ''..'' # cs'"
    then obtain cs' where c: "?cs = ''..'' # cs'" by blast
    show False
    proof (cases cs')
      case Nil
      with c n assms(2) show False by simp
    next
      case (Cons d ds)
      with c have "normpath path = ''../'' @ join [slash] cs'" using n by (simp add: slash_def)
      with assms(2) show False by (simp add: startswith_prefix)
    qed
  qed
  with norm_comps_walk [of "[]" "split_on slash path"] have "walk [] (split_on slash path) = Some ?cs" by auto
  with that n e show ?thesis by auto
qed

lemma check_roots_allowed:
  "jd_allowed (check_roots p roots forbidden) \<longleftrightarrow>
     (\<exists>r \<in> set roots. under p r) \<and> \<not> (\<exists>f \<in> set forbidden. under p f)"
  by (induction roots) auto

lemma check_roots_reason: "jd_reason (check_roots p roots forbidden) \<in>
   {''SANDBOX.OUTSIDE_ROOTS'', ''SANDBOX.FORBIDDEN'', ''SANDBOX.OK''}"
  by (induction roots) auto

lemma classify_allowed:
  assumes "jd_allowed (classify_path path roots forbidden)"
  obtains cs where "\<not> isabs path" "walk [] (split_on slash path) = Some cs"
    "normpath path = (if cs = [] then ''.'' else join [slash] cs)"
    "\<exists>r \<in> set roots. under (normpath path) r" "\<forall>f \<in> set forbidden. \<not> under (normpath path) f"
proof -
  from assms have a: "\<not> isabs path" "\<not> (normpath path = ''..'' \<or> startswith (normpath path) ''../'')"
    "jd_allowed (check_roots (normpath path) roots forbidden)"
    by (auto simp: classify_path_def Let_def split: if_splits)
  from relative_normal [OF a(1,2)] obtain cs where "walk [] (split_on slash path) = Some cs"
    "normpath path = (if cs = [] then ''.'' else join [slash] cs)" by blast
  with a that show ?thesis using check_roots_allowed by blast
qed

end
