(* ===== verification/Redaction.thy ===== *)
theory Redaction
  imports PyVal
begin

text \<open>
  Secret redaction (\<open>redaction.py\<close>): longest secret first, every occurrence replaced by
  three stars. A secret without a star cannot occur in what is left.
\<close>

definition stars :: string where
  "stars = ''***''"

text \<open>\<open>s.replace(old, new)\<close> for a non-empty \<open>old\<close>: leftmost occurrences, not overlapping.\<close>

function replace_all :: "string \<Rightarrow> string \<Rightarrow> string \<Rightarrow> string" where
  "replace_all old new s =
     (if s = [] \<or> old = [] then s
      else if prefix old s then new @ replace_all old new (drop (length old) s)
      else hd s # replace_all old new (tl s))"
  by pat_completeness auto
termination
  by (relation "measure (\<lambda>(old, new, s). length s)") auto

declare replace_all.simps [simp del]

text \<open>\<open>sorted(xs, key=len, reverse=True)\<close> is stable: ties keep their order.\<close>

definition by_length_desc :: "string list \<Rightarrow> string list" where
  "by_length_desc ss = sort_key (\<lambda>s. - int (length s)) ss"

definition redact :: "string \<Rightarrow> string list \<Rightarrow> string" where
  "redact s secrets = foldl (\<lambda>r secret. replace_all secret stars r) s (by_length_desc (filter (\<lambda>x. x \<noteq> []) secrets))"

lemma replace_all_Nil [simp]: "replace_all old new [] = []"
  by (simp add: replace_all.simps)

lemma replace_all_match:
  "old \<noteq> [] \<Longrightarrow> prefix old s \<Longrightarrow> replace_all old new s = new @ replace_all old new (drop (length old) s)"
  by (subst replace_all.simps) auto

lemma replace_all_skip:
  "old \<noteq> [] \<Longrightarrow> \<not> prefix old (c # s) \<Longrightarrow> replace_all old new (c # s) = c # replace_all old new s"
  by (subst replace_all.simps) simp

definition starless :: "string \<Rightarrow> bool" where
  "starless t \<longleftrightarrow> t \<noteq> [] \<and> CHR ''*'' \<notin> set t"

lemma prefix_replace:
  assumes "CHR ''*'' \<notin> set t" and "old \<noteq> []" and "prefix t (replace_all old stars s)"
  shows "prefix t s"
  using assms
proof (induction t arbitrary: s)
  case (Cons c t)
  have "\<not> (s \<noteq> [] \<and> prefix old s)"
  proof
    assume "s \<noteq> [] \<and> prefix old s"
    with Cons.prems have "prefix (c # t) (stars @ replace_all old stars (drop (length old) s))"
      by (simp add: replace_all_match)
    then have "c = CHR ''*''" by (simp add: stars_def)
    with Cons.prems(1) show False by simp
  qed
  then show ?case
  proof (cases s)
    case Nil
    with Cons.prems(3) show ?thesis by simp
  next
    case (Cons d s')
    with \<open>\<not> (s \<noteq> [] \<and> prefix old s)\<close> Cons.prems have "prefix (c # t) (d # replace_all old stars s')"
      by (simp add: replace_all_skip)
    with Cons.IH [of s'] Cons.prems Cons show ?thesis by simp
  qed
qed simp

lemma sublist_stars:
  assumes "starless t" "sublist t (stars @ r)"
  shows "sublist t r"
proof -
  have no: "\<not> prefix t (CHR ''*'' # x)" for x
    using assms(1) by (cases t) (auto simp: starless_def)
  from assms(2) show ?thesis
    by (auto simp: stars_def sublist_Cons_right no)
qed

lemma sublist_replace:
  assumes "starless t" and "old \<noteq> []" and "sublist t (replace_all old stars s)"
  shows "sublist t s"
  using assms(3)
proof (induction "length s" arbitrary: s rule: less_induct)
  case less
  show ?case
  proof (cases s)
    case Nil
    with less.prems show ?thesis by simp
  next
    case (Cons c s')
    show ?thesis
    proof (cases "prefix old s")
      case True
      with less.prems assms(2) have "sublist t (stars @ replace_all old stars (drop (length old) s))"
        by (simp add: replace_all_match)
      then have "sublist t (replace_all old stars (drop (length old) s))" by (rule sublist_stars [OF assms(1)])
      with less.hyps [of "drop (length old) s"] assms(2) Cons have "sublist t (drop (length old) s)" by simp
      then show ?thesis using sublist_order.order_trans suffix_drop suffix_imp_sublist by blast
    next
      case False
      with less.prems assms(2) Cons have "sublist t (c # replace_all old stars s')"
        by (simp add: replace_all_skip)
      then consider "prefix t (c # replace_all old stars s')" | "sublist t (replace_all old stars s')"
        by (auto simp: sublist_Cons_right)
      then show ?thesis
      proof cases
        case 1
        with False Cons assms(2) have "prefix t (replace_all old stars s)" by (simp add: replace_all_skip)
        then show ?thesis using prefix_replace assms(1,2) by (auto simp: starless_def)
      next
        case 2
        with less.hyps [of s'] Cons show ?thesis by (simp add: sublist_Cons_right)
      qed
    qed
  qed
qed

lemma replace_removes:
  assumes "starless old"
  shows "\<not> sublist old (replace_all old stars s)"
proof (induction "length s" arbitrary: s rule: less_induct)
  case less
  have ne: "old \<noteq> []" using assms by (simp add: starless_def)
  show ?case
  proof (cases s)
    case Nil
    with ne show ?thesis by simp
  next
    case (Cons c s')
    show ?thesis
    proof (cases "prefix old s")
      case True
      have "\<not> sublist old (replace_all old stars (drop (length old) s))"
        using less.hyps [of "drop (length old) s"] ne Cons by simp
      with True show ?thesis using sublist_stars [OF assms] by (auto simp: replace_all_match [OF ne True])
    next
      case False
      then have "\<not> prefix old (replace_all old stars s)"
        using prefix_replace [of old old s] assms ne by (auto simp: starless_def)
      moreover have "\<not> sublist old (replace_all old stars s')" using less.hyps [of s'] Cons by simp
      ultimately show ?thesis using False Cons ne by (simp add: replace_all_skip sublist_Cons_right)
    qed
  qed
qed

lemma fold_redact:
  assumes "\<forall>x \<in> set ss. x \<noteq> []" and "starless t" and "t \<in> set ss \<or> \<not> sublist t s"
  shows "\<not> sublist t (foldl (\<lambda>r secret. replace_all secret stars r) s ss)"
  using assms
proof (induction ss arbitrary: s)
  case (Cons x xs)
  have "t \<in> set xs \<or> \<not> sublist t (replace_all x stars s)"
  proof (cases "t = x")
    case True
    with Cons.prems(2) replace_removes show ?thesis by blast
  next
    case False
    with Cons.prems sublist_replace [of t x s] show ?thesis by auto
  qed
  with Cons show ?case by simp
qed simp

lemma redact_removes:
  assumes "t \<in> set secrets" and "starless t"
  shows "\<not> sublist t (redact s secrets)"
  unfolding redact_def
  by (rule fold_redact) (use assms in \<open>auto simp: by_length_desc_def starless_def\<close>)

end
