(* ===== verification/Executors.thy ===== *)
theory Executors
  imports Loop Sandbox Redaction
begin

text \<open>
  The executors the run loop drives: the resource budget (\<open>budget.py\<close>), acceptance
  checks with redacted output (\<open>evidence/runner.py\<close>), the application of an action
  script (\<open>executor/_apply.py\<close>, \<open>executor/scripted.py\<close>), the mock executor
  (\<open>executor/mock.py\<close>), the governor of a host runtime
  (\<open>executor/hostruntime.py\<close>, \<open>runtime/client.py\<close>), the autonomous executor of
  the hermes engine (\<open>executor/api.py\<close>, \<open>model/client.py\<close>) and the id source
  (\<open>executor/base.py\<close>).

  An executor with state of its own works on a world paired with that state. Values the
  source annotates as \<open>str\<close> or \<open>list[str]\<close> are refused when they are not.
\<close>

section \<open>Budget\<close>

record budget =
  max_tokens :: "int option"
  max_cost_usd :: "rat option"
  max_wall_s :: "rat option"

definition no_budget :: budget where
  "no_budget = \<lparr>max_tokens = None, max_cost_usd = None, max_wall_s = None\<rparr>"

record budget_decision =
  bd_allowed :: bool
  bd_reason :: string

definition over :: "val \<Rightarrow> val \<Rightarrow> string \<Rightarrow> bool res" where
  "over limit usage key =
     (if is_none limit then Inr False else bindR (get_or usage key (VInt 0)) (\<lambda>x. py_lt limit x))"

definition check_limits :: "val \<Rightarrow> val \<Rightarrow> val \<Rightarrow> val \<Rightarrow> budget_decision res" where
  "check_limits tokens cost wall usage =
     bindR (over tokens usage ''tokens'') (\<lambda>b.
     if b then Inr \<lparr>bd_allowed = False, bd_reason = ''BUDGET.TOKENS_EXCEEDED''\<rparr> else
     bindR (over cost usage ''cost_usd'') (\<lambda>b.
     if b then Inr \<lparr>bd_allowed = False, bd_reason = ''BUDGET.COST_EXCEEDED''\<rparr> else
     bindR (over wall usage ''wall_s'') (\<lambda>b.
     if b then Inr \<lparr>bd_allowed = False, bd_reason = ''BUDGET.TIME_EXCEEDED''\<rparr> else
     Inr \<lparr>bd_allowed = True, bd_reason = ''BUDGET.OK''\<rparr>)))"

definition limit_val :: "('a \<Rightarrow> val) \<Rightarrow> 'a option \<Rightarrow> val" where
  "limit_val f x = (case x of None \<Rightarrow> VNone | Some a \<Rightarrow> f a)"

text \<open>\<open>check\<close> on a \<open>Budget\<close> and on a dict.\<close>

datatype budget_arg = Typed budget | Plain val

definition check :: "budget_arg \<Rightarrow> val \<Rightarrow> budget_decision res" where
  "check b usage = (case b of
      Typed b \<Rightarrow> check_limits (limit_val VInt (max_tokens b)) (limit_val VFloat (max_cost_usd b))
                   (limit_val VFloat (max_wall_s b)) usage
    | Plain d \<Rightarrow>
        bindR (get d ''max_tokens'') (\<lambda>tokens. bindR (get d ''max_cost_usd'') (\<lambda>cost.
        bindR (get d ''max_wall_s'') (\<lambda>wall. check_limits tokens cost wall usage))))"

text \<open>
  A call under a wall-clock deadline. \<open>abandon\<close> is the scheduler: it says whether the worker
  is still alive when \<open>join(max_wall_s)\<close> returns, and what the world is then. A worker that
  finishes in time gives its result or its exception.
\<close>

definition run_with_deadline ::
  "(rat \<Rightarrow> 'w \<Rightarrow> 'w option) \<Rightarrow> ('w, 'a) io \<Rightarrow> rat option \<Rightarrow> ('w, 'a) io" where
  "run_with_deadline abandon fn wall = (case wall of
      None \<Rightarrow> fn
    | Some limit \<Rightarrow> (\<lambda>w. case abandon limit w of
          Some w' \<Rightarrow> (Inl DeadlineExceeded, w')
        | None \<Rightarrow> fn w))"

section \<open>Checks and action scripts\<close>

record check_result =
  ck_name :: val
  ck_exit :: int
  ck_output :: string

definition run_check :: "'w fs \<Rightarrow> string list \<Rightarrow> string list \<Rightarrow> val \<Rightarrow> ('w, check_result) io" where
  "run_check fs workspace secrets spec =
     bindI (liftI (item spec ''command'')) (\<lambda>cmd.
     bindI (run_command fs cmd workspace) (\<lambda>out.
     bindI (liftI (get spec ''name'')) (\<lambda>name.
     retI \<lparr>ck_name = name, ck_exit = exit_code out, ck_output = redact (cmd_output out) secrets\<rparr>)))"

text \<open>The results in order, and whether every exit code was zero.\<close>

definition run_checks ::
  "'w fs \<Rightarrow> val list \<Rightarrow> string list \<Rightarrow> string list \<Rightarrow> ('w, bool \<times> check_result list) io" where
  "run_checks fs checks workspace secrets =
     foldI (\<lambda>(passed, results) c. bindI (run_check fs workspace secrets c) (\<lambda>r.
        retI (passed \<and> ck_exit r = 0, results @ [r]))) (True, []) checks"

definition failure :: "string list \<Rightarrow> string \<Rightarrow> exec_result" where
  "failure touched why = \<lparr>outcome = ''failure'', touched_paths = touched, evidence = None,
     reason = Some why, retriable = False\<rparr>"

text \<open>
  One action: the touched paths so far, or the result the function returns at once. A
  \<open>PermissionError\<close> of the sandbox or of the subprocess ends the script as a failure; any
  other exception goes on.
\<close>

datatype progress = Goes "string list" | Stops exec_result

definition run_action ::
  "'w fs \<Rightarrow> string list \<Rightarrow> string list \<Rightarrow> string list \<Rightarrow> val \<Rightarrow> ('w, progress) io" where
  "run_action fs workspace roots touched action = catchI
     (bindI (liftI (item action ''type'')) (\<lambda>kind.
      if py_eq kind (VStr ''write'') then
        bindI (liftI (bindR (item action ''path'') as_str)) (\<lambda>path.
        bindI (liftI (get_or action ''content'' (VStr []))) (\<lambda>content.
        bindI (apply_write fs path content workspace roots) (\<lambda>p. retI (Goes (touched @ [p])))))
      else if py_eq kind (VStr ''command'') then
        bindI (liftI (item action ''cmd'')) (\<lambda>cmd.
        bindI (run_command fs cmd workspace) (\<lambda>out.
        if exit_code out \<noteq> 0
        then retI (Stops (failure touched (''command failed: '' @ py_str cmd)))
        else retI (Goes touched)))
      else retI (Goes touched)))
     (\<lambda>e. case e of PermissionError s \<Rightarrow> Some (retI (Stops (failure touched s))) | _ \<Rightarrow> None)"

fun run_actions ::
  "'w fs \<Rightarrow> string list \<Rightarrow> string list \<Rightarrow> string list \<Rightarrow> val list \<Rightarrow> ('w, progress) io" where
  "run_actions fs workspace roots touched [] = retI (Goes touched)"
| "run_actions fs workspace roots touched (a # as) =
     bindI (run_action fs workspace roots touched a) (\<lambda>p. case p of
         Stops r \<Rightarrow> retI (Stops r)
       | Goes touched \<Rightarrow> run_actions fs workspace roots touched as)"

definition checks_evidence :: "check_result list \<Rightarrow> (string \<times> val) list" where
  "checks_evidence results =
     [(''kind'', VStr ''test''),
      (''summary'', VStr (nat_str (length (filter (\<lambda>r. ck_exit r = 0) results)) @ ''/''
         @ nat_str (length results) @ '' checks passed'')),
      (''location'', VStr ''workspace'')]"

definition apply_task_spec ::
  "'w fs \<Rightarrow> val \<Rightarrow> string list \<Rightarrow> string list \<Rightarrow> string list \<Rightarrow> ('w, exec_result) io" where
  "apply_task_spec fs spec workspace roots secrets =
     bindI (liftI (bindR (get_or spec ''actions'' (VList [])) iter)) (\<lambda>actions.
     bindI (run_actions fs workspace roots [] actions) (\<lambda>p. case p of
         Stops r \<Rightarrow> retI r
       | Goes touched \<Rightarrow>
           bindI (liftI (get_or spec ''checks'' (VList []))) (\<lambda>checks.
           if \<not> truthy checks
           then retI \<lparr>outcome = ''success'', touched_paths = touched, evidence = None, reason = None, retriable = False\<rparr>
           else
           bindI (liftI (iter checks)) (\<lambda>checks.
           bindI (run_checks fs checks workspace secrets) (\<lambda>(passed, results).
           retI \<lparr>outcome = (if passed then ''success'' else ''failure''), touched_paths = touched,
             evidence = Some (checks_evidence results),
             reason = (if passed then None else Some ''checks failed''), retriable = False\<rparr>)))))"

definition scope_roots :: "(string \<times> val) list \<Rightarrow> string list res" where
  "scope_roots scope = as_strs (dget_or scope ''allowed_roots'' (VList []))"

text \<open>The script of the task is looked up by the string of its id.\<close>

definition scripted_execute ::
  "'w fs \<Rightarrow> val \<Rightarrow> string list \<Rightarrow> string list \<Rightarrow> val \<Rightarrow> (string \<times> val) list \<Rightarrow> ('w, exec_result) io" where
  "scripted_execute fs spec workspace secrets task scope =
     bindI (liftI (get task ''task_id'')) (\<lambda>tid.
     bindI (liftI (get_or spec (py_str tid) (VDict []))) (\<lambda>task_spec.
     bindI (liftI (scope_roots scope)) (\<lambda>roots.
     apply_task_spec fs task_spec workspace roots secrets)))"

definition scripted_compensate :: "'w fs \<Rightarrow> string list \<Rightarrow> string list \<Rightarrow> ('w, unit) io" where
  "scripted_compensate fs workspace touched = bindI (undo_writes fs touched workspace) (\<lambda>_. retI ())"

section \<open>The mock executor\<close>

text \<open>\<open>_calls\<close> counts the calls per task; its state is the world of the executor.\<close>

type_synonym calls = "(string \<times> nat) list"

definition nth_attempt :: "val \<Rightarrow> nat \<Rightarrow> val res" where
  "nth_attempt sq index = (case sq of
      VList xs \<Rightarrow> if xs = [] then Inl IndexError else Inr (xs ! min index (length xs - 1))
    | _ \<Rightarrow> Inl TypeError)"

definition chosen_result :: "val \<Rightarrow> exec_result res" where
  "chosen_result chosen =
     bindR (bindR (get_or chosen ''outcome'' (VStr ''success'')) as_str) (\<lambda>out.
     bindR (bindR (get_or chosen ''touched_paths'' (VList [])) as_strs) (\<lambda>paths.
     bindR (bindR (get chosen ''evidence'') (as_opt as_dict)) (\<lambda>ev.
     bindR (bindR (get chosen ''reason'') (as_opt as_str)) (\<lambda>why.
     bindR (get_or chosen ''retriable'' (VBool False)) (\<lambda>again.
     Inr \<lparr>outcome = out, touched_paths = paths, evidence = ev, reason = why, retriable = truthy again\<rparr>)))))"

definition mock_execute ::
  "(string \<times> val) list \<Rightarrow> val \<Rightarrow> (string \<times> val) list \<Rightarrow> ('w \<times> calls, exec_result) io" where
  "mock_execute outcomes task scope =
     bindI (liftI (get task ''task_id'')) (\<lambda>tid. let task_id = py_str tid in
     bindI (liftI (dict_of (dget_or outcomes task_id (VDict [])))) (\<lambda>spec.
     case map_of spec ''attempts'' of
       None \<Rightarrow> liftI (chosen_result (VDict spec))
     | Some sq \<Rightarrow> (\<lambda>(w, calls).
         let index = (case map_of calls task_id of None \<Rightarrow> 0 | Some n \<Rightarrow> n) in
         bindI (liftI (nth_attempt sq index)) (\<lambda>chosen.
         bindI (onU (AList.update task_id (index + 1))) (\<lambda>_.
         liftI (chosen_result chosen))) (w, calls))))"

section \<open>Governed calls: a host runtime and a model\<close>

record usage =
  u_tokens :: int
  u_cost :: rat
  u_wall :: rat

definition no_usage :: usage where
  "no_usage = \<lparr>u_tokens = 0, u_cost = 0, u_wall = 0\<rparr>"

definition usage_val :: "usage \<Rightarrow> val" where
  "usage_val u = VDict [(''tokens'', VInt (u_tokens u)), (''cost_usd'', VFloat (u_cost u)), (''wall_s'', VFloat (u_wall u))]"

record runtime_result =
  rt_success :: bool
  rt_changed :: "string list"
  rt_output :: string
  rt_usage :: "(string \<times> val) list"

record model_response =
  mr_text :: string
  mr_usage :: "(string \<times> val) list"

text \<open>
  What the executors ask of the world: the call itself, the monotonic clock and the
  scheduler of \<open>run_with_deadline\<close>.
\<close>

record ('w, 'q, 'a) provider =
  pv_call :: "'q \<Rightarrow> ('w, 'a) io"
  pv_monotonic :: "('w, rat) io"
  pv_abandon :: "rat \<Rightarrow> 'w \<Rightarrow> 'w option"

definition check_usage :: "budget \<Rightarrow> ('w \<times> usage, budget_decision) io" where
  "check_usage b = (\<lambda>(w, u). (check (Typed b) (usage_val u), (w, u)))"

definition budget_failure :: "string \<Rightarrow> exec_result" where
  "budget_failure why = failure [] (''budget: '' @ why)"

text \<open>
  The timed call both executors share: the answer and its cost are charged to the usage.
  \<open>None\<close> when the deadline passed, and then only the elapsed time is charged.
\<close>

definition timed_call ::
  "('w, 'q, 'a) provider \<Rightarrow> budget \<Rightarrow> 'q \<Rightarrow> ('w \<times> usage, 'a option) io" where
  "timed_call p b q =
     bindI (onW (pv_monotonic p)) (\<lambda>started.
     bindI (catchI
       (bindI (onW (run_with_deadline (pv_abandon p) (pv_call p q) (max_wall_s b))) (\<lambda>a. retI (Some a)))
       (\<lambda>e. if e = DeadlineExceeded then Some (retI None) else None)) (\<lambda>r.
     bindI (onW (pv_monotonic p)) (\<lambda>stopped.
     bindI (onU (\<lambda>u. u\<lparr>u_wall := u_wall u + (stopped - started)\<rparr>)) (\<lambda>_. retI r))))"

definition charge :: "(string \<times> val) list \<Rightarrow> ('w \<times> usage, unit) io" where
  "charge reported =
     bindI (liftI (py_int (dget_or reported ''tokens'' (VInt 0)))) (\<lambda>t.
     bindI (onU (\<lambda>u. u\<lparr>u_tokens := u_tokens u + t\<rparr>)) (\<lambda>_.
     bindI (liftI (py_float (dget_or reported ''cost_usd'' (VFloat 0)))) (\<lambda>c.
     onU (\<lambda>u. u\<lparr>u_cost := u_cost u + c\<rparr>))))"

text \<open>What the host runtime did, judged after the call.\<close>

definition judge_runtime :: "string list \<Rightarrow> runtime_result \<Rightarrow> exec_result" where
  "judge_runtime roots result =
     (case find (\<lambda>p. \<not> jd_allowed (classify_path p roots [])) (rt_changed result) of
        Some p \<Rightarrow> failure [] (''host runtime touched out-of-scope path: '' @ p)
      | None \<Rightarrow>
          if \<not> rt_success result then failure (rt_changed result) ''host runtime reported failure''
          else \<lparr>outcome = ''success'', touched_paths = rt_changed result,
            evidence = Some [(''kind'', VStr ''runtime''), (''summary'', VStr (take 200 (rt_output result))),
              (''location'', VStr ''workspace'')], reason = None, retriable = False\<rparr>)"

definition host_execute ::
  "('w, val, runtime_result) provider \<Rightarrow> budget \<Rightarrow> val \<Rightarrow> (string \<times> val) list \<Rightarrow> ('w \<times> usage, exec_result) io" where
  "host_execute p b task scope =
     bindI (check_usage b) (\<lambda>pre.
     if \<not> bd_allowed pre then retI (budget_failure (bd_reason pre)) else
     bindI (timed_call p b task) (\<lambda>r. case r of
         None \<Rightarrow> retI (budget_failure ''BUDGET.TIME_EXCEEDED'')
       | Some result \<Rightarrow>
           bindI (charge (rt_usage result)) (\<lambda>_.
           bindI (check_usage b) (\<lambda>decision.
           if \<not> bd_allowed decision then retI (budget_failure (bd_reason decision)) else
           bindI (liftI (scope_roots scope)) (\<lambda>roots.
           retI (judge_runtime roots result))))))"

definition host_compensate :: "string list \<Rightarrow> ('w, unit) io" where
  "host_compensate touched = retI ()"

definition stub_run_task :: "runtime_result option \<Rightarrow> val \<Rightarrow> ('w, runtime_result) io" where
  "stub_run_task result task = retI (case result of
      Some r \<Rightarrow> r
    | None \<Rightarrow> \<lparr>rt_success = True, rt_changed = [], rt_output = [], rt_usage = []\<rparr>)"

section \<open>The autonomous executor\<close>

definition build_prompt :: "val \<Rightarrow> string res" where
  "build_prompt task =
     bindR (get task ''task_id'') (\<lambda>tid.
     bindR (get task ''title'') (\<lambda>title.
     bindR (get task ''acceptance'') (\<lambda>acceptance.
     Inr (''Task '' @ py_str tid @ '': '' @ py_str title @ [CHR 10]
        @ ''Acceptance: '' @ py_str acceptance @ [CHR 10]
        @ ''Respond with JSON {'' @ [CHR 34] @ ''actions'' @ [CHR 34] @ '': [...], '' @ [CHR 34] @ ''checks'' @ [CHR 34]
        @ '': [...]}.''))))"

text \<open>\<open>loads\<close> is \<open>json.loads\<close>; \<open>ValueError\<close> and \<open>TypeError\<close> mean no spec.\<close>

definition parse_actions :: "(string \<Rightarrow> val res) \<Rightarrow> string \<Rightarrow> val option res" where
  "parse_actions loads t = (case loads t of
      Inr v \<Rightarrow> Inr (if is_dict v then Some v else None)
    | Inl e \<Rightarrow> (case e of ValueError _ \<Rightarrow> Inr None | TypeError \<Rightarrow> Inr None | _ \<Rightarrow> Inl e))"

definition api_execute ::
  "(string \<Rightarrow> val res) \<Rightarrow> ('w, string, model_response) provider \<Rightarrow> 'w fs \<Rightarrow> budget \<Rightarrow> string list \<Rightarrow> string list
     \<Rightarrow> val \<Rightarrow> (string \<times> val) list \<Rightarrow> ('w \<times> usage, exec_result) io" where
  "api_execute loads p fs b workspace secrets task scope =
     bindI (check_usage b) (\<lambda>pre.
     if \<not> bd_allowed pre then retI (budget_failure (bd_reason pre)) else
     bindI (liftI (build_prompt task)) (\<lambda>prompt.
     bindI (timed_call p b prompt) (\<lambda>r. case r of
         None \<Rightarrow> retI (budget_failure ''BUDGET.TIME_EXCEEDED'')
       | Some response \<Rightarrow>
           bindI (charge (mr_usage response)) (\<lambda>_.
           bindI (check_usage b) (\<lambda>post.
           if \<not> bd_allowed post then retI (budget_failure (bd_reason post)) else
           bindI (liftI (parse_actions loads (mr_text response))) (\<lambda>spec. case spec of
               None \<Rightarrow> retI (failure [] ''unparseable model output'')
             | Some spec \<Rightarrow>
                 bindI (liftI (scope_roots scope)) (\<lambda>roots.
                 onW (apply_task_spec fs spec workspace roots secrets))))))))"

definition stub_complete :: "string \<Rightarrow> (string \<times> val) list option \<Rightarrow> string \<Rightarrow> ('w, model_response) io" where
  "stub_complete t u prompt = retI \<lparr>mr_text = t, mr_usage = (case u of
      Some u \<Rightarrow> if u = [] then [(''tokens'', VInt 0), (''cost_usd'', VFloat 0)] else u
    | None \<Rightarrow> [(''tokens'', VInt 0), (''cost_usd'', VFloat 0)])\<rparr>"

text \<open>
  The client of the Anthropic API. \<open>create\<close> is the SDK's \<open>messages.create\<close> with the model, the
  bound on the tokens and the prompt; of its answer the client reads the text of the first
  content block and the two token counts, each 0 where the attribute is missing.
\<close>

record message =
  mg_content :: "string list"
  mg_usage :: "(int option \<times> int option) option"

definition message_tokens :: "message \<Rightarrow> int" where
  "message_tokens m = (case mg_usage m of None \<Rightarrow> 0 | Some (i, j) \<Rightarrow>
     (case i of None \<Rightarrow> 0 | Some n \<Rightarrow> n) + (case j of None \<Rightarrow> 0 | Some n \<Rightarrow> n))"

definition anthropic_complete ::
  "(string \<Rightarrow> int \<Rightarrow> string \<Rightarrow> ('w, message) io) \<Rightarrow> string \<Rightarrow> string \<Rightarrow> ('w, model_response) io" where
  "anthropic_complete create model prompt =
     bindI (create model 4096 prompt) (\<lambda>m. case mg_content m of
         [] \<Rightarrow> raiseI IndexError
       | t # _ \<Rightarrow> retI \<lparr>mr_text = t, mr_usage = [(''tokens'', VInt (message_tokens m)), (''cost_usd'', VFloat 0)]\<rparr>)"

definition get_model_client ::
  "(string \<Rightarrow> int \<Rightarrow> string \<Rightarrow> ('w, message) io) \<Rightarrow> string \<Rightarrow> string \<Rightarrow> (string \<Rightarrow> ('w, model_response) io) res" where
  "get_model_client create provider model =
     (if provider = ''anthropic'' then Inr (anthropic_complete create model)
      else Inl (NotImplementedError (''model provider '' @ repr_string provider @ '' not supported (integration-only)'')))"

section \<open>Ids\<close>

type_synonym counters = "(string \<times> nat) list"

definition next_id :: "counters \<Rightarrow> string \<Rightarrow> counters \<times> string" where
  "next_id c kind = (let n = (case map_of c kind of None \<Rightarrow> 0 | Some n \<Rightarrow> n) + 1 in
     (AList.update kind n c, kind @ nat_str n))"

end
