(* ===== verification/Intake.thy ===== *)
theory Intake
  imports Executors IntakeRules
begin

text \<open>
  The two front doors of a run: an SDD IPLAN (\<open>intake/reader.py\<close>, with the reference reader
  \<open>iplan.py\<close>) and a dispatched task payload (\<open>intake/payload.py\<close>), the validation
  of a payload (\<open>validation/payload_rules.py\<close>) and the configuration that maps
  their fields (\<open>config.py\<close>).

  A file is its parsed YAML document together with the digest of its bytes; the parser and
  SHA-256 are not part of the model.
\<close>

section \<open>Configuration\<close>

record config =
  cfg_exec_ready_min :: val
  map_source_iplan :: string
  map_version :: string
  map_score :: string
  map_approved :: string
  map_scope :: string
  map_tasks :: string
  cfg_secrets :: "string list"
  cfg_max_retries :: int
  cfg_backoff_base :: rat
  cfg_signing_key :: "string option"
  cfg_sync_enabled :: bool
  cfg_endpoint :: "string option"
  cfg_token_env :: string
  cfg_max_age_s :: int
  receiver_enabled :: bool
  receiver_bind :: string
  receiver_port :: int
  receiver_auth_env :: string
  receiver_key_id :: "string option"
  receiver_executor_id :: "string option"
  receiver_org_id :: "string option"
  receiver_workspace :: string
  receiver_executor :: string
  receiver_max_parallel :: int
  receiver_heartbeat_s :: rat

definition default_config :: config where
  "default_config = \<lparr>cfg_exec_ready_min = VInt 90, map_source_iplan = ''document_control.iplan_id'',
     map_version = ''document_control.version'', map_score = ''exec_ready.score'',
     map_approved = ''exec_ready.approved'', map_scope = ''isolation_scope'', map_tasks = ''tasks'',
     cfg_secrets = [], cfg_max_retries = 0, cfg_backoff_base = 0, cfg_signing_key = None,
     cfg_sync_enabled = False, cfg_endpoint = None, cfg_token_env = ''IOPS_IPLANIC_TOKEN'', cfg_max_age_s = 86400,
     receiver_enabled = False, receiver_bind = ''127.0.0.1'', receiver_port = 8080,
     receiver_auth_env = ''IOPS_RECEIVER_TOKEN'', receiver_key_id = None, receiver_executor_id = None,
     receiver_org_id = None, receiver_workspace = ''.'', receiver_executor = ''mock'',
     receiver_max_parallel = 4, receiver_heartbeat_s = 30\<rparr>"

type_synonym environ = "(string \<times> string) list"

definition secrets_from_env :: "string \<Rightarrow> environ \<Rightarrow> string list" where
  "secrets_from_env kind environ =
     map snd (filter (\<lambda>(k, v). startswith k kind \<and> v \<noteq> []) environ)"

text \<open>
  \<open>setattr(cfg, key, value)\<close> for a key of the file that is a field. The model's fields are
  typed: a value of another type, which the code would store as it is, is refused.
\<close>

definition as_int :: "val \<Rightarrow> int res" where
  "as_int v = (case v of VInt i \<Rightarrow> Inr i | VBool b \<Rightarrow> Inr (if b then 1 else 0) | _ \<Rightarrow> Inl TypeError)"

definition as_rat :: "val \<Rightarrow> rat res" where
  "as_rat v = (case num_of v of Some q \<Rightarrow> Inr q | None \<Rightarrow> Inl TypeError)"

definition set_field :: "config \<Rightarrow> string \<times> val \<Rightarrow> config res" where
  "set_field c kv = (case kv of (k, v) \<Rightarrow>
     if k = ''exec_ready_min'' then Inr (c\<lparr>cfg_exec_ready_min := v\<rparr>)
     else if k = ''map_source_iplan'' then bindR (as_str v) (\<lambda>s. Inr (c\<lparr>map_source_iplan := s\<rparr>))
     else if k = ''map_version'' then bindR (as_str v) (\<lambda>s. Inr (c\<lparr>map_version := s\<rparr>))
     else if k = ''map_score'' then bindR (as_str v) (\<lambda>s. Inr (c\<lparr>map_score := s\<rparr>))
     else if k = ''map_approved'' then bindR (as_str v) (\<lambda>s. Inr (c\<lparr>map_approved := s\<rparr>))
     else if k = ''map_scope'' then bindR (as_str v) (\<lambda>s. Inr (c\<lparr>map_scope := s\<rparr>))
     else if k = ''map_tasks'' then bindR (as_str v) (\<lambda>s. Inr (c\<lparr>map_tasks := s\<rparr>))
     else if k = ''max_retries'' then bindR (as_int v) (\<lambda>i. Inr (c\<lparr>cfg_max_retries := i\<rparr>))
     else if k = ''backoff_base'' then bindR (as_rat v) (\<lambda>q. Inr (c\<lparr>cfg_backoff_base := q\<rparr>))
     else if k = ''iplanic_sync_enabled'' then Inr (c\<lparr>cfg_sync_enabled := truthy v\<rparr>)
     else if k = ''iplanic_endpoint'' then bindR (as_opt as_str v) (\<lambda>s. Inr (c\<lparr>cfg_endpoint := s\<rparr>))
     else if k = ''iplanic_token_env'' then bindR (as_str v) (\<lambda>s. Inr (c\<lparr>cfg_token_env := s\<rparr>))
     else if k = ''iplanic_max_age_s'' then bindR (as_int v) (\<lambda>i. Inr (c\<lparr>cfg_max_age_s := i\<rparr>))
     else if k = ''receiver_enabled'' then Inr (c\<lparr>receiver_enabled := truthy v\<rparr>)
     else if k = ''receiver_bind'' then bindR (as_str v) (\<lambda>s. Inr (c\<lparr>receiver_bind := s\<rparr>))
     else if k = ''receiver_port'' then bindR (as_int v) (\<lambda>i. Inr (c\<lparr>receiver_port := i\<rparr>))
     else if k = ''receiver_auth_env'' then bindR (as_str v) (\<lambda>s. Inr (c\<lparr>receiver_auth_env := s\<rparr>))
     else if k = ''receiver_key_id'' then bindR (as_opt as_str v) (\<lambda>s. Inr (c\<lparr>receiver_key_id := s\<rparr>))
     else if k = ''receiver_executor_id'' then bindR (as_opt as_str v) (\<lambda>s. Inr (c\<lparr>receiver_executor_id := s\<rparr>))
     else if k = ''receiver_org_id'' then bindR (as_opt as_str v) (\<lambda>s. Inr (c\<lparr>receiver_org_id := s\<rparr>))
     else if k = ''receiver_workspace'' then bindR (as_str v) (\<lambda>s. Inr (c\<lparr>receiver_workspace := s\<rparr>))
     else if k = ''receiver_executor'' then bindR (as_str v) (\<lambda>s. Inr (c\<lparr>receiver_executor := s\<rparr>))
     else if k = ''receiver_max_parallel'' then bindR (as_int v) (\<lambda>i. Inr (c\<lparr>receiver_max_parallel := i\<rparr>))
     else if k = ''receiver_heartbeat_s'' then bindR (as_rat v) (\<lambda>q. Inr (c\<lparr>receiver_heartbeat_s := q\<rparr>))
     else Inr c)"

text \<open>\<open>if block.get(k) is not None: set(f(block[k]))\<close>.\<close>

definition override :: "(string \<times> val) list \<Rightarrow> string \<Rightarrow> (val \<Rightarrow> 'a res) \<Rightarrow> ('a \<Rightarrow> config \<Rightarrow> config) \<Rightarrow> config \<Rightarrow> config res" where
  "override block k f upd c = (let v = dget block k in
     if is_none v then Inr c else bindR (f v) (\<lambda>x. Inr (upd x c)))"

definition to_text :: "val \<Rightarrow> string res" where
  "to_text v = Inr (py_str v)"

definition apply_iplanic :: "(string \<times> val) list \<Rightarrow> config \<Rightarrow> config res" where
  "apply_iplanic block c =
     (let c = (case dget block ''sync'' of
          VDict sync \<Rightarrow> (case map_of sync ''enabled'' of Some v \<Rightarrow> c\<lparr>cfg_sync_enabled := truthy v\<rparr> | None \<Rightarrow> c)
        | _ \<Rightarrow> c) in
      bindR (override block ''endpoint'' to_text (\<lambda>x c. c\<lparr>cfg_endpoint := Some x\<rparr>) c) (\<lambda>c.
      bindR (override block ''token_env'' to_text (\<lambda>x c. c\<lparr>cfg_token_env := x\<rparr>) c) (\<lambda>c.
      override block ''max_age_s'' py_int (\<lambda>x c. c\<lparr>cfg_max_age_s := x\<rparr>) c)))"

definition apply_receiver :: "(string \<times> val) list \<Rightarrow> config \<Rightarrow> config res" where
  "apply_receiver block c =
     (let c = (case map_of block ''enabled'' of Some v \<Rightarrow> c\<lparr>receiver_enabled := truthy v\<rparr> | None \<Rightarrow> c) in
      bindR (override block ''bind'' to_text (\<lambda>x c. c\<lparr>receiver_bind := x\<rparr>) c) (\<lambda>c.
      bindR (override block ''auth_env'' to_text (\<lambda>x c. c\<lparr>receiver_auth_env := x\<rparr>) c) (\<lambda>c.
      bindR (override block ''key_id'' to_text (\<lambda>x c. c\<lparr>receiver_key_id := Some x\<rparr>) c) (\<lambda>c.
      bindR (override block ''executor_id'' to_text (\<lambda>x c. c\<lparr>receiver_executor_id := Some x\<rparr>) c) (\<lambda>c.
      bindR (override block ''org_id'' to_text (\<lambda>x c. c\<lparr>receiver_org_id := Some x\<rparr>) c) (\<lambda>c.
      bindR (override block ''workspace'' to_text (\<lambda>x c. c\<lparr>receiver_workspace := x\<rparr>) c) (\<lambda>c.
      bindR (override block ''executor'' to_text (\<lambda>x c. c\<lparr>receiver_executor := x\<rparr>) c) (\<lambda>c.
      bindR (override block ''port'' py_int (\<lambda>x c. c\<lparr>receiver_port := x\<rparr>) c) (\<lambda>c.
      bindR (override block ''max_parallel'' py_int (\<lambda>x c. c\<lparr>receiver_max_parallel := x\<rparr>) c) (\<lambda>c.
      override block ''heartbeat_s'' py_float (\<lambda>x c. c\<lparr>receiver_heartbeat_s := x\<rparr>) c))))))))))"

text \<open>\<open>loaded\<close> is the parsed file, \<open>None\<close> when there is none; secrets come from \<open>environ\<close> only.\<close>

definition load_config :: "val option \<Rightarrow> environ \<Rightarrow> config res" where
  "load_config loaded environ =
     (let data = (case loaded of Some (VDict kvs) \<Rightarrow> kvs | _ \<Rightarrow> []) in
      bindR (foldR set_field default_config data) (\<lambda>c.
      bindR (case dget data ''iplanic'' of VDict b \<Rightarrow> apply_iplanic b c | _ \<Rightarrow> Inr c) (\<lambda>c.
      bindR (case dget data ''receiver'' of VDict b \<Rightarrow> apply_receiver b c | _ \<Rightarrow> Inr c) (\<lambda>c.
      let c = c\<lparr>cfg_secrets := secrets_from_env ''IOPS_SECRET_'' environ\<rparr> in
      Inr (case map_of environ ''IOPS_SIGNING_KEY'' of
          Some k \<Rightarrow> if k \<noteq> [] then c\<lparr>cfg_signing_key := Some k\<rparr> else c
        | None \<Rightarrow> c)))))"

section \<open>The SDD reader\<close>

fun dig_keys :: "val \<Rightarrow> string list \<Rightarrow> val" where
  "dig_keys node [] = node"
| "dig_keys node (k # ks) = (case node of VDict kvs \<Rightarrow> dig_keys (dget kvs k) ks | _ \<Rightarrow> VNone)"

definition dig :: "val \<Rightarrow> string \<Rightarrow> val" where
  "dig doc dotted = dig_keys doc (split_on (CHR ''.'') dotted)"

definition intake_metadata :: val where
  "intake_metadata = VDict [(''schema_version'', VStr ''1.0''), (''document_type'', VStr ''iplan-intake''),
     (''framework'', VStr ''iops'')]"

definition ingest_task :: "val \<Rightarrow> val res" where
  "ingest_task t =
     bindR (get t ''task_id'') (\<lambda>tid.
     bindR (get t ''title'') (\<lambda>title.
     bindR (get_or t ''depends_on'' (VList [])) (\<lambda>deps.
     bindR (get t ''acceptance'') (\<lambda>acceptance.
     Inr (VDict [(''task_id'', tid), (''title'', title), (''depends_on'', deps), (''acceptance'', acceptance)])))))"

definition ingest_iplan :: "config \<Rightarrow> val \<Rightarrow> string \<Rightarrow> val res" where
  "ingest_iplan cfg parsed hexdigest =
     (let doc = (if is_dict parsed then parsed else VDict []);
          scope = dig doc (map_scope cfg);
          tasks = or_else (dig doc (map_tasks cfg)) (VList []) in
      bindR (iter tasks) (\<lambda>tasks.
      bindR (mapR ingest_task tasks) (\<lambda>graph.
      Inr (VDict [
        (''metadata'', intake_metadata),
        (''intake_control'', VDict [
           (''source_iplan'', dig doc (map_source_iplan cfg)),
           (''source_iplan_version'', dig doc (map_version cfg)),
           (''source_iplan_checksum'', VStr (''sha256:'' @ hexdigest)),
           (''exec_ready_score'', dig doc (map_score cfg)),
           (''approved'', dig doc (map_approved cfg))]),
        (''isolation_scope'', if is_dict scope then scope else VDict []),
        (''task_graph'', VList graph)]))))"

definition read_iplan_ref :: "val \<Rightarrow> string \<Rightarrow> val res" where
  "read_iplan_ref parsed hexdigest =
     (let document = (if is_dict parsed then parsed else VDict []) in
      bindR (get_or document ''document_control'' (VDict [])) (\<lambda>control.
      bindR (get control ''iplan_id'') (\<lambda>i.
      bindR (if truthy i then Inr i else get control ''id'') (\<lambda>i.
      bindR (get control ''version'') (\<lambda>version.
      bindR (get control ''last_updated'') (\<lambda>updated.
      Inr (VDict [(''id'', i), (''version'', version), (''last_updated'', updated),
        (''checksum'', VStr (''sha256:'' @ hexdigest))])))))))"

section \<open>Dispatched payloads\<close>

definition REMOTE_IDS :: "string list" where
  "REMOTE_IDS = [''task_id'', ''run_id'', ''step_id'', ''executor_id'', ''iplan_id'', ''plan_version_id'',
     ''org_id'', ''project_id'', ''protocol_plan_id'', ''protocol_agent_id'']"

text \<open>\<open>payload.get(k) or d\<close>.\<close>

definition get_else :: "val \<Rightarrow> string \<Rightarrow> val \<Rightarrow> val res" where
  "get_else v k d = bindR (get v k) (\<lambda>x. Inr (or_else x d))"

definition payload_task :: "val \<Rightarrow> val res" where
  "payload_task t =
     bindR (get t ''todo_id'') (\<lambda>tid.
     bindR (get t ''description'') (\<lambda>title.
     bindR (get_else t ''acceptance_criteria'' (VList [])) (\<lambda>criteria.
     Inr (VDict [(''task_id'', tid), (''title'', title), (''depends_on'', VList []),
       (''acceptance'', VDict [(''criteria'', criteria)])]))))"

definition build_manifest :: "(string \<times> val) list \<Rightarrow> string \<Rightarrow> val res" where
  "build_manifest payload checksum =
     (let work_order = or_else (dget payload ''work_order'') (VDict []) in
      bindR (get_else work_order ''todos'' (VList [])) (\<lambda>todos.
      let context = or_else (dget payload ''context_package'') (VDict []) in
      bindR (get_or context ''repository'' (VStr ''.'')) (\<lambda>repository.
      bindR (get_or context ''forbidden_paths'' (VList [])) (\<lambda>forbidden.
      bindR (iter todos) (\<lambda>todos.
      bindR (mapR payload_task todos) (\<lambda>graph.
      bindR (get work_order ''work_order_id'') (\<lambda>work_order_id.
      Inr (VDict [
        (''metadata'', intake_metadata),
        (''intake_control'', VDict [
           (''source_iplan'', dget payload ''iplan_id''),
           (''source_iplan_version'', dget payload ''plan_version_id''),
           (''source_iplan_checksum'', VStr checksum),
           (''approved'', VBool True),
           (''exec_ready_score'', VInt 90)]),
        (''isolation_scope'', VDict [
           (''client_id'', dget payload ''org_id''),
           (''project_id'', dget payload ''project_id''),
           (''allowed_roots'', VList [repository]),
           (''forbidden_paths'', forbidden)]),
        (''task_graph'', VList graph),
        (''remote_execution'', VDict (map (\<lambda>k. (k, dget payload k)) REMOTE_IDS
           @ [(''work_order_id'', work_order_id)]))]))))))))"

definition ingest_task_payload :: "val \<Rightarrow> string \<Rightarrow> val res" where
  "ingest_task_payload parsed hexdigest =
     build_manifest (case parsed of VDict kvs \<Rightarrow> kvs | _ \<Rightarrow> []) (''sha256:'' @ hexdigest)"

definition adapt_dispatched_task :: "(string \<times> val) list \<Rightarrow> string \<Rightarrow> (string \<times> val) list res" where
  "adapt_dispatched_task payload workspace =
     bindR (as_dict (or_else (dget payload ''context_package'') (VDict []))) (\<lambda>context.
     Inr (AList.update ''context_package'' (VDict (AList.update ''repository'' (VStr workspace) context)) payload))"

section \<open>Validation of a payload\<close>

definition REQUIRED_IDS :: "string list" where
  "REQUIRED_IDS = [''org_id'', ''project_id'', ''run_id'', ''step_id'', ''executor_id'']"

definition REPOSITORY_FIELDS :: "string list" where
  "REPOSITORY_FIELDS = [''url'', ''default_branch'', ''base_ref'']"

text \<open>
  \<open>^exec:[a-z2-7]{16,}$\<close> with \<open>match\<close>: a final newline is allowed by \<open>$\<close>.
\<close>

definition base32_char :: "char \<Rightarrow> bool" where
  "base32_char c = (let n = of_char c :: nat in (97 \<le> n \<and> n \<le> 122) \<or> (50 \<le> n \<and> n \<le> 55))"

definition executor_id_ok :: "string \<Rightarrow> bool" where
  "executor_id_ok s = (startswith s ''exec:'' \<and>
     (let r = drop 5 s; b = takeWhile base32_char r in
      16 \<le> length b \<and> (drop (length b) r = [] \<or> drop (length b) r = [CHR 10])))"

definition is_alpha :: "char \<Rightarrow> bool" where
  "is_alpha c = (let n = of_char c :: nat in (65 \<le> n \<and> n \<le> 90) \<or> (97 \<le> n \<and> n \<le> 122))"

definition scheme_char :: "char \<Rightarrow> bool" where
  "scheme_char c = (is_alpha c \<or> is_digit c \<or> c = CHR ''+'' \<or> c = CHR ''.'' \<or> c = CHR ''-'')"

text \<open>\<open>s.lower()\<close> on ASCII letters; schemes have no others.\<close>

definition lower :: "string \<Rightarrow> string" where
  "lower s = map (\<lambda>c. let n = of_char c :: nat in if 65 \<le> n \<and> n \<le> 90 then char_of (n + 32) else c) s"

text \<open>\<open>_URL_SCHEME.match(url)\<close>: the scheme and what follows \<open>://\<close>.\<close>

definition url_scheme :: "string \<Rightarrow> (string \<times> string) option" where
  "url_scheme url = (let s = takeWhile scheme_char url; r = drop (length s) url in
     if s \<noteq> [] \<and> is_alpha (hd s) \<and> startswith r ''://'' then Some (s, drop 3 r) else None)"

definition SAFE_CLONE_SCHEMES :: "string list" where
  "SAFE_CLONE_SCHEMES = [''https'', ''ssh'']"

definition allowed_clone_schemes :: "environ \<Rightarrow> string list" where
  "allowed_clone_schemes environ =
     (let extra = (case map_of environ ''IOPS_INSECURE_CLONE_SCHEMES'' of None \<Rightarrow> [] | Some s \<Rightarrow> s) in
      SAFE_CLONE_SCHEMES @ map (\<lambda>s. lower (strip s))
        (filter (\<lambda>s. strip s \<noteq> []) (split_on (CHR '','') extra)))"

definition clone_url_ok :: "environ \<Rightarrow> string \<Rightarrow> bool" where
  "clone_url_ok environ url = (case url_scheme url of
      None \<Rightarrow> False
    | Some (s, rest) \<Rightarrow>
        let scheme = lower s in
        if scheme \<notin> set (allowed_clone_schemes environ) then False
        else scheme \<notin> set SAFE_CLONE_SCHEMES \<or> (rest \<noteq> [] \<and> \<not> startswith rest [slash]))"

definition str_field :: "(string \<times> val) list \<Rightarrow> string \<Rightarrow> string" where
  "str_field kvs k = (case dget kvs k of VStr s \<Rightarrow> s | _ \<Rightarrow> [])"

definition check_repository :: "environ \<Rightarrow> (string \<times> val) list \<Rightarrow> finding list \<Rightarrow> finding list res" where
  "check_repository environ repository fs =
     (if \<not> (\<forall>f \<in> set REPOSITORY_FIELDS. is_str (dget repository f) \<and> truthy (dget repository f))
      then emit_if True ''REMOTE.PAYLOAD_REPOSITORY_SHAPE''
             ''context_package.repository object missing url/default_branch/base_ref'' fs
      else
        bindR (emit_if (\<not> clone_url_ok environ (str_field repository ''url'')) ''REMOTE.PAYLOAD_REPOSITORY_URL_SCHEME''
          ''context_package.repository.url scheme not in the clone allow-list (https/ssh)'' fs) (\<lambda>fs.
        emit_if (\<exists>f \<in> set [''base_ref'', ''default_branch'']. startswith (str_field repository f) ''-'')
          ''REMOTE.PAYLOAD_REPOSITORY_REF''
          (''context_package.repository base_ref/default_branch must not start with '-'' @ [CHR 39]) fs))"

definition validate_payload :: "environ \<Rightarrow> (string \<times> val) list \<Rightarrow> finding list res" where
  "validate_payload environ payload =
     bindR (emit_if (\<exists>k \<in> set REQUIRED_IDS. \<not> truthy (dget payload k)) ''REMOTE.PAYLOAD_IDS_MISSING''
              ''task payload missing a required identity field'' []) (\<lambda>fs.
     let executor_id = dget payload ''executor_id'' in
     bindR (emit_if (truthy executor_id \<and> \<not> (case executor_id of VStr s \<Rightarrow> executor_id_ok s | _ \<Rightarrow> False))
              ''REMOTE.PAYLOAD_EXECUTOR_ID_FORMAT'' ''executor_id is not the canonical exec: hash form'' fs) (\<lambda>fs.
     bindR (get_else (or_else (dget payload ''work_order'') (VDict [])) ''todos'' (VList [])) (\<lambda>todos.
     bindR (emit_if (\<not> truthy todos) ''REMOTE.PAYLOAD_NO_TODOS''
              ''task payload work_order has no todos'' fs) (\<lambda>fs.
     let context = dget payload ''context_package'' in
     if \<not> truthy context
     then emit_if True ''REMOTE.PAYLOAD_CONTEXT_MISSING'' ''task payload missing context_package'' fs
     else (case context of
         VDict ctx \<Rightarrow> (case dget ctx ''repository'' of
             VDict repository \<Rightarrow> check_repository environ repository fs
           | _ \<Rightarrow> Inr fs)
       | _ \<Rightarrow> Inr fs)))))"

end
