(* ===== verification/Signing.thy ===== *)
theory Signing
  imports HashChain Intake
begin

text \<open>
  Canonical JSON and signatures: \<open>drop_null\<close> and the signed payload of an event
  (\<open>security/iplan_canonical/canonical.py\<close>, \<open>signing.py\<close>), and the HMAC over the
  events of a ledger (\<open>security/signing.py\<close>).

  RFC 8785 serialization, HMAC-SHA256 and Ed25519 are parameters; \<open>json.dumps\<close>, which the
  ledger signature is taken over, is written out.
\<close>

section \<open>Bytes as hexadecimal\<close>

definition hex_byte :: "char \<Rightarrow> string" where
  "hex_byte c = (let n = of_char c :: nat in [hex_digit (n div 16), hex_digit (n mod 16)])"

definition to_hex :: "char list \<Rightarrow> string" where
  "to_hex bs = concat (map hex_byte bs)"

definition hex_value :: "char \<Rightarrow> nat option" where
  "hex_value c = (let n = of_char c :: nat in
     if 48 \<le> n \<and> n \<le> 57 then Some (n - 48)
     else if 97 \<le> n \<and> n \<le> 102 then Some (n - 87)
     else if 65 \<le> n \<and> n \<le> 70 then Some (n - 55) else None)"

definition hex_space :: "char \<Rightarrow> bool" where
  "hex_space c = (let n = of_char c :: nat in n = 32 \<or> (9 \<le> n \<and> n \<le> 13))"

text \<open>\<open>bytes.fromhex\<close>: pairs of digits; white space is skipped between bytes only.\<close>

fun from_hex :: "string \<Rightarrow> char list res" where
  "from_hex [] = Inr []"
| "from_hex [c] = (if hex_space c then Inr [] else Inl (ValueError ''non-hexadecimal number''))"
| "from_hex (a # b # s) =
     (if hex_space a then from_hex (b # s)
      else (case (hex_value a, hex_value b) of
          (Some x, Some y) \<Rightarrow> bindR (from_hex s) (\<lambda>r. Inr (char_of (16 * x + y) # r))
        | _ \<Rightarrow> Inl (ValueError ''non-hexadecimal number'')))"

section \<open>Canonical values\<close>

fun drop_null :: "val \<Rightarrow> val" where
  "drop_null (VDict kvs) = VDict (map (\<lambda>kv. (fst kv, drop_null (snd kv))) (filter (\<lambda>kv. snd kv \<noteq> VNone) kvs))"
| "drop_null (VList xs) = VList (map drop_null xs)"
| "drop_null v = v"

text \<open>The cryptography the code calls: RFC 8785 bytes, SHA-256, HMAC and Ed25519.\<close>

record crypto =
  jcs :: "val \<Rightarrow> char list res"
  sha256 :: digest
  hmac_hex :: "char list \<Rightarrow> char list \<Rightarrow> string"
  ed_sign :: "char list \<Rightarrow> char list \<Rightarrow> char list res"
  ed_verify :: "char list \<Rightarrow> char list \<Rightarrow> char list \<Rightarrow> bool res"

definition canonicalize :: "crypto \<Rightarrow> val \<Rightarrow> char list res" where
  "canonicalize C v = jcs C (drop_null v)"

definition canonical_hash :: "crypto \<Rightarrow> val \<Rightarrow> string res" where
  "canonical_hash C v = bindR (canonicalize C v) (\<lambda>b. Inr (sha256 C b))"

definition EXCLUDED_EVENT_FIELDS :: "string list" where
  "EXCLUDED_EVENT_FIELDS = [''signature'', ''received_at'']"

definition signing_payload :: "(string \<times> val) list \<Rightarrow> val" where
  "signing_payload event = drop_null (VDict (filter (\<lambda>kv. fst kv \<notin> set EXCLUDED_EVENT_FIELDS) event))"

definition evidence_seal_hash :: "crypto \<Rightarrow> val \<Rightarrow> val \<Rightarrow> string res" where
  "evidence_seal_hash C payload manifest =
     canonical_hash C (VDict [(''payload'', payload), (''evidence_manifest'', manifest)])"

text \<open>\<open>hmac.compare_digest\<close> on strings refuses non-ASCII ones.\<close>

definition ascii :: "string \<Rightarrow> bool" where
  "ascii s = (\<forall>c \<in> set s. (of_char c :: nat) < 128)"

definition compare_digest :: "string \<Rightarrow> string \<Rightarrow> bool res" where
  "compare_digest a b = (if ascii a \<and> ascii b then Inr (a = b) else Inl TypeError)"

definition sign :: "crypto \<Rightarrow> val \<Rightarrow> string \<Rightarrow> char list \<Rightarrow> string res" where
  "sign C payload algorithm key =
     bindR (canonicalize C payload) (\<lambda>data.
     if algorithm = ''hmac-sha256'' then Inr (hmac_hex C key data)
     else if algorithm = ''ed25519'' then bindR (ed_sign C key data) (\<lambda>s. Inr (to_hex s))
     else Inl (ValueError (''unsupported algorithm: '' @ repr_string algorithm)))"

definition verify :: "crypto \<Rightarrow> val \<Rightarrow> string \<Rightarrow> string \<Rightarrow> char list \<Rightarrow> bool res" where
  "verify C payload v algorithm key =
     bindR (canonicalize C payload) (\<lambda>data.
     if algorithm = ''hmac-sha256'' then compare_digest (hmac_hex C key data) v
     else if algorithm = ''ed25519'' then bindR (from_hex v) (\<lambda>s. ed_verify C key s data)
     else Inl (ValueError (''unsupported algorithm: '' @ repr_string algorithm)))"

definition ingest_task_payload_dict :: "crypto \<Rightarrow> (string \<times> val) list \<Rightarrow> val res" where
  "ingest_task_payload_dict C payload =
     bindR (canonical_hash C (VDict payload)) (\<lambda>h. build_manifest payload (''sha256:'' @ h))"

section \<open>JSON text\<close>

definition json_char :: "char \<Rightarrow> string" where
  "json_char c = (let n = of_char c :: nat in
     if n = 34 then [CHR 92, CHR 34] else if n = 92 then [CHR 92, CHR 92]
     else if n = 10 then [CHR 92, CHR ''n''] else if n = 13 then [CHR 92, CHR ''r'']
     else if n = 9 then [CHR 92, CHR ''t''] else if n = 12 then [CHR 92, CHR ''f'']
     else if n = 8 then [CHR 92, CHR ''b'']
     else if 32 \<le> n \<and> n \<le> 126 then [c]
     else [CHR 92] @ ''u00'' @ [hex_digit (n div 16), hex_digit (n mod 16)])"

definition json_string :: "string \<Rightarrow> string" where
  "json_string s = [CHR 34] @ concat (map json_char s) @ [CHR 34]"

text \<open>
  \<open>json.dumps(v, separators=(sep, colon))\<close>, with \<open>sort_keys\<close> as its first argument. Dict
  keys are distinct, so sorting the rendered items by key is sorting the items.
\<close>

fun json_text :: "bool \<Rightarrow> string \<Rightarrow> string \<Rightarrow> val \<Rightarrow> string" where
  "json_text srt sep colon VNone = ''null''"
| "json_text srt sep colon (VBool b) = (if b then ''true'' else ''false'')"
| "json_text srt sep colon (VInt i) = int_str i"
| "json_text srt sep colon (VFloat q) = float_str q"
| "json_text srt sep colon (VStr s) = json_string s"
| "json_text srt sep colon (VList xs) = ''['' @ join sep (map (json_text srt sep colon) xs) @ '']''"
| "json_text srt sep colon (VDict kvs) =
     (let items = map (\<lambda>kv. (fst kv, json_string (fst kv) @ colon @ json_text srt sep colon (snd kv))) kvs
      in ''{'' @ join sep (map snd (if srt then sort_key fst items else items)) @ ''}'')"

definition json_sorted :: "val \<Rightarrow> string" where
  "json_sorted v = json_text True '','' '':'' v"

definition json_dumps :: "val \<Rightarrow> string" where
  "json_dumps v = json_text False '', '' '': '' v"

section \<open>Signed ledgers\<close>

definition canonical_event :: "(string \<times> val) list \<Rightarrow> string" where
  "canonical_event event = json_sorted (VDict (filter (\<lambda>kv. fst kv \<noteq> ''signature'') event))"

definition sign_event :: "crypto \<Rightarrow> (string \<times> val) list \<Rightarrow> string \<Rightarrow> string" where
  "sign_event C event key = ''hmac-sha256:'' @ hmac_hex C (py_encode key) (py_encode (canonical_event event))"

definition sign_one :: "crypto \<Rightarrow> string \<Rightarrow> val \<Rightarrow> val res" where
  "sign_one C key event = bindR (dict_of event) (\<lambda>kvs.
     Inr (VDict (AList.update ''signature'' (VStr (sign_event C kvs key)) kvs)))"

definition sign_ledger :: "crypto \<Rightarrow> (string \<times> val) list \<Rightarrow> string \<Rightarrow> (string \<times> val) list res" where
  "sign_ledger C document key =
     (case map_of document ''execution_log'' of
        None \<Rightarrow> Inr document
      | Some elog \<Rightarrow> bindR (iter elog) (\<lambda>events. bindR (mapR (sign_one C key) events) (\<lambda>signed.
          Inr (AList.update ''execution_log'' (VList signed) document))))"

definition signature_ok :: "crypto \<Rightarrow> string \<Rightarrow> val \<Rightarrow> bool res" where
  "signature_ok C key event =
     bindR (dict_of event) (\<lambda>kvs.
     case dget kvs ''signature'' of
       VNone \<Rightarrow> Inr False
     | VStr s \<Rightarrow> compare_digest s (sign_event C kvs key)
     | _ \<Rightarrow> Inl TypeError)"

definition verify_ledger :: "crypto \<Rightarrow> (string \<times> val) list \<Rightarrow> string \<Rightarrow> bool res" where
  "verify_ledger C document key =
     bindR (iter (dget_or document ''execution_log'' (VList []))) (\<lambda>events.
     bindR (verify_chain (sha256 C) events) (\<lambda>ok.
     if \<not> ok then Inr False else allR (signature_ok C key) events))"

section \<open>What the signatures cover\<close>

lemma of_char_256: "(of_char c :: nat) < 256"
  by (metis UNIV_I image_eqI range_nat_of_char atLeastLessThan_iff)

lemma hex_value_digit: "d < 16 \<Longrightarrow> hex_value (hex_digit d) = Some d"
  by (auto simp: hex_value_def hex_digit_def Let_def)

lemma hex_digit_not_space: "d < 16 \<Longrightarrow> \<not> hex_space (hex_digit d)"
  by (auto simp: hex_space_def hex_digit_def Let_def)

lemma from_to_hex: "from_hex (to_hex bs) = Inr bs"
proof (induction bs)
  case Nil
  then show ?case by (simp add: to_hex_def)
next
  case (Cons c bs)
  have "(of_char c :: nat) div 16 < 16" using of_char_256 [of c] by (simp add: less_mult_imp_div_less)
  with Cons show ?case
    by (simp add: to_hex_def hex_byte_def Let_def hex_value_digit hex_digit_not_space)
qed

lemma drop_null_idem: "drop_null (drop_null v) = drop_null v"
proof (induction v rule: drop_null.induct)
  case (1 kvs)
  have "drop_null (snd kv) \<noteq> VNone" if "kv \<in> set kvs" "snd kv \<noteq> VNone" for kv
    using that(2) by (cases "snd kv") auto
  then have "filter (\<lambda>x. snd x \<noteq> VNone \<and> drop_null (snd x) \<noteq> VNone) kvs = filter (\<lambda>kv. snd kv \<noteq> VNone) kvs"
    by (intro filter_cong) auto
  then have "filter (\<lambda>kv. snd kv \<noteq> VNone) (map (\<lambda>kv. (fst kv, drop_null (snd kv))) (filter (\<lambda>kv. snd kv \<noteq> VNone) kvs))
     = map (\<lambda>kv. (fst kv, drop_null (snd kv))) (filter (\<lambda>kv. snd kv \<noteq> VNone) kvs)"
    by (simp add: filter_map comp_def)
  with 1 show ?case by simp
qed auto

end
