(* ===== verification/DocumentRules.thy ===== *)
theory DocumentRules
  imports LedgerRules IntakeRules
begin

text \<open>
  The validators of the other document kinds: chain ledgers
  (\<open>validation/chain_rules.py\<close>), audit reports (\<open>audit_rules.py\<close>), handover
  receipts (\<open>handover_rules.py\<close>) and monitoring manifests
  (\<open>monitoring_rules.py\<close>), with the dispatch of \<open>engine.validate\<close> over them.
\<close>

section \<open>Chain ledgers\<close>

text \<open>
  \<open>order\<close> and \<open>reconciled\<close> are dicts keyed by the raw \<open>iplan_id\<close>: the last
  node with a key wins, keys are compared by \<open>==\<close> and must be hashable. An
  \<open>order\<close> is a number or a string (Python also orders lists; no chain uses them).
\<close>

fun vlookup :: "(val \<times> val) list \<Rightarrow> val \<Rightarrow> val option" where
  "vlookup [] k = None"
| "vlookup ((k', v) # kvs) k = (case vlookup kvs k of Some x \<Rightarrow> Some x | None \<Rightarrow> if py_eq k' k then Some v else None)"

definition vget :: "(val \<times> val) list \<Rightarrow> val \<Rightarrow> val res" where
  "vget kvs k = (if hashable k then Inr (case vlookup kvs k of None \<Rightarrow> VNone | Some v \<Rightarrow> v) else Inl TypeError)"

definition keyed_by_id :: "string \<Rightarrow> val list \<Rightarrow> (val \<times> val) list res" where
  "keyed_by_id field chain =
     mapR (\<lambda>c. bindR (get c ''iplan_id'') (\<lambda>k. bindR (get c field) (\<lambda>v.
       if hashable k then Inr (k, v) else Inl TypeError))) chain"

definition scan_dep ::
  "(val \<times> val) list \<Rightarrow> (val \<times> val) list \<Rightarrow> val \<Rightarrow> bool \<times> bool \<Rightarrow> val \<Rightarrow> (bool \<times> bool) res" where
  "scan_dep order reconciled node flags dep =
     bindR (vget order dep) (\<lambda>dep_order.
     bindR (get node ''order'') (\<lambda>node_order.
     bindR (if is_none dep_order \<or> is_none node_order then Inr False
            else bindR (item node ''order'') (\<lambda>o1. py_le o1 dep_order)) (\<lambda>bad_order.
     let unreconciled = (case vlookup reconciled dep of None \<Rightarrow> False | Some r \<Rightarrow> \<not> truthy r) in
     Inr (fst flags \<or> bad_order, snd flags \<or> unreconciled))))"

definition scan_node ::
  "(val \<times> val) list \<Rightarrow> (val \<times> val) list \<Rightarrow> bool \<times> bool \<Rightarrow> val \<Rightarrow> (bool \<times> bool) res" where
  "scan_node order reconciled flags node =
     bindR (get_or node ''depends_on'' (VList [])) (\<lambda>deps.
     bindR (iter deps) (\<lambda>deps. foldR (scan_dep order reconciled node) flags deps))"

definition validate_chain :: "val \<Rightarrow> finding list res" where
  "validate_chain document =
     bindR (get_or document ''iplan_chain'' (VList [])) (\<lambda>chain.
     bindR (iter chain) (\<lambda>chain.
     bindR (keyed_by_id ''order'' chain) (\<lambda>order.
     bindR (keyed_by_id ''reconciled'' chain) (\<lambda>reconciled.
     bindR (foldR (scan_node order reconciled) (False, False) chain) (\<lambda>flags.
     bindR (emit_if (fst flags) ''CHAIN.ORDER_INVALID''
              ''an IPLAN is ordered at/before a dependency'' []) (\<lambda>fs.
     bindR (emit_if (snd flags) ''CHAIN.UPSTREAM_UNRECONCILED''
              ''an IPLAN depends on an unreconciled upstream'' fs) (\<lambda>fs.
     bindR (get_or document ''cross_plan_leases'' (VList [])) (\<lambda>leases.
     bindR (iter leases) (\<lambda>leases.
     bindR (group_unreleased ''resource'' leases) (\<lambda>by_resource.
     foldR (\<lambda>fs (resource, ls).
       bindR (any_pair_overlap ls) (\<lambda>overlap.
       emit_if overlap ''CHAIN.LEASE_OVERLAP''
         (''overlapping unreleased leases on resource '' @ resource) fs)) fs by_resource))))))))))"

section \<open>Audit reports\<close>

definition validate_audit :: "val \<Rightarrow> finding list res" where
  "validate_audit document =
     bindR (get_or document ''version_scope'' (VDict [])) (\<lambda>scope.
     bindR (get_or scope ''baseline'' (VDict [])) (\<lambda>baseline.
     bindR (get_or scope ''comparison'' (VDict [])) (\<lambda>comparison.
     bindR (get baseline ''source_iplan'') (\<lambda>b.
     bindR (get comparison ''source_iplan'') (\<lambda>c.
     bindR (emit_if (\<not> py_eq b c) ''AUDIT.IDENTITY_MISMATCH''
              ''baseline and comparison reference different source IPLANs'' []) (\<lambda>fs.
     bindR (all_truthy baseline [''source_iplan_version'', ''source_iplan_checksum'']) (\<lambda>baseline_ok.
     bindR (all_truthy comparison [''source_iplan_version'', ''source_iplan_checksum'']) (\<lambda>comparison_ok.
     if \<not> (baseline_ok \<and> comparison_ok)
     then emit_if True ''AUDIT.VERSION_MISSING''
            ''baseline or comparison is missing version/checksum'' fs
     else
       bindR (item baseline ''source_iplan_version'') (\<lambda>bv.
       bindR (item comparison ''source_iplan_version'') (\<lambda>cv.
       if \<not> py_eq bv cv then Inr fs else
       bindR (item baseline ''source_iplan_checksum'') (\<lambda>bc.
       bindR (item comparison ''source_iplan_checksum'') (\<lambda>cc.
       emit_if (\<not> py_eq bc cc) ''AUDIT.VERSION_INCONSISTENT''
         ''same version but differing checksum'' fs))))))))))))"

section \<open>Handover receipts\<close>

definition VALID_STATUS :: "val list" where
  "VALID_STATUS = [VStr ''completed'', VStr ''aborted'']"

definition validate_handover :: "val \<Rightarrow> finding list res" where
  "validate_handover document =
     bindR (get_or document ''handover_control'' (VDict [])) (\<lambda>control.
     bindR (all_truthy control [''source_iplan'', ''ledger_ref'']) (\<lambda>src_ok.
     bindR (emit_if (\<not> src_ok) ''HANDOVER.SOURCE_MISSING'' ''source_iplan or ledger_ref missing'' []) (\<lambda>fs.
     bindR (get_or document ''result'' (VDict [])) (\<lambda>result.
     bindR (get result ''status'') (\<lambda>status.
     bindR (in_set status VALID_STATUS) (\<lambda>valid.
     bindR (emit_if (\<not> valid) ''HANDOVER.STATUS_INVALID''
              ''result.status is not completed/aborted'' fs) (\<lambda>fs.
     if \<not> py_eq status (VStr ''completed'') then Inr fs else
       bindR (get control ''gate_status'') (\<lambda>gate.
       bindR (emit_if (\<not> py_eq gate (VStr ''passed'')) ''HANDOVER.GATE_NOT_PASSED''
                ''completed but gate not passed'' fs) (\<lambda>fs.
       bindR (get result ''reconciled'') (\<lambda>reconciled.
       emit_if (\<not> truthy reconciled) ''HANDOVER.NOT_RECONCILED''
         ''completed but not reconciled'' fs))))))))))"

section \<open>Monitoring manifests\<close>

definition scan_slo :: "val list \<Rightarrow> bool \<times> bool \<Rightarrow> val \<Rightarrow> (bool \<times> bool) res" where
  "scan_slo metrics flags slo =
     bindR (get slo ''objective'') (\<lambda>objective.
     bindR (get slo ''signal_ref'') (\<lambda>ref.
     bindR (if is_none ref then Inr True else in_set ref metrics) (\<lambda>resolved.
     Inr (fst flags \<or> is_none objective, snd flags \<or> \<not> resolved))))"

definition validate_monitoring :: "val \<Rightarrow> finding list res" where
  "validate_monitoring document =
     bindR (get_or document ''monitor_control'' (VDict [])) (\<lambda>control.
     bindR (all_truthy control [''source_iplan'', ''source_ledger'']) (\<lambda>bound.
     bindR (emit_if (\<not> bound) ''MON.SOURCE_BINDING_MISSING''
              ''monitor_control is missing source_iplan or source_ledger'' []) (\<lambda>fs.
     bindR (get_or document ''signals'' (VDict [])) (\<lambda>signals.
     bindR (get_or signals ''otel'' (VDict [])) (\<lambda>otel.
     bindR (get_or otel ''metrics'' (VList [])) (\<lambda>ms.
     bindR (iter ms) (\<lambda>ms.
     bindR (set_of_field ''name'' ms) (\<lambda>metrics.
     bindR (get_or document ''slos'' (VList [])) (\<lambda>slos.
     bindR (iter slos) (\<lambda>slos.
     bindR (foldR (scan_slo metrics) (False, False) slos) (\<lambda>flags.
     bindR (emit_if (fst flags) ''MON.SLO_MISSING_TARGET'' ''an SLO has no objective'' fs) (\<lambda>fs.
     bindR (emit_if (snd flags) ''MON.SIGNAL_REF_UNRESOLVED''
              ''an SLO signal_ref does not resolve to a declared metric'' fs) (\<lambda>fs.
     bindR (get_or document ''probes'' (VDict [])) (\<lambda>probes.
     bindR (all_truthy probes [''health'', ''readiness'', ''startup'']) (\<lambda>probes_ok.
     emit_if (\<not> probes_ok) ''MON.PROBE_MISSING''
       ''a health/readiness/startup probe is missing'' fs)))))))))))))))"

section \<open>Dispatch by document type\<close>

definition validator_for :: "digest \<Rightarrow> val \<Rightarrow> (val \<Rightarrow> finding list res) option res" where
  "validator_for H t =
     (if \<not> hashable t then Inl TypeError else Inr (
      if py_eq t (VStr ''iplan-ledger'') then Some (validate_ledger H)
      else if py_eq t (VStr ''iplan-chain-ledger'') then Some validate_chain
      else if py_eq t (VStr ''iplan-audit-report'') then Some validate_audit
      else if py_eq t (VStr ''iplan-monitoring-manifest'') then Some validate_monitoring
      else if py_eq t (VStr ''iplan-intake'') then Some validate_intake
      else if py_eq t (VStr ''iplan-handover-receipt'') then Some validate_handover
      else None))"

record validation =
  v_status :: string
  v_findings :: "finding list"

definition engine_validate :: "digest \<Rightarrow> val \<Rightarrow> validation res" where
  "engine_validate H document =
     bindR (get_or document ''metadata'' (VDict [])) (\<lambda>metadata.
     bindR (get metadata ''document_type'') (\<lambda>document_type.
     bindR (validator_for H document_type) (\<lambda>v.
     case v of
       None \<Rightarrow> Inl (ValueError (''unknown document_type: '' @ py_repr document_type))
     | Some validator \<Rightarrow> bindR (validator document) (\<lambda>findings.
         Inr \<lparr>v_status = status_of findings, v_findings = findings\<rparr>))))"

end
