(* ===== verification/Events.thy ===== *)
theory Events
  imports Signing DocumentRules
begin

text \<open>
  The projection of a signed ledger into execution events (\<open>ledger/events.py\<close>). A ledger is
  read as a document, as the code reads the file it loaded.
\<close>

section \<open>Identity of an event\<close>

definition IDENTITY_FIELDS :: "string list" where
  "IDENTITY_FIELDS = [''org_id'', ''project_id'', ''iplan_id'', ''plan_version_id'', ''run_id'',
     ''task_id'', ''step_id'', ''executor_id'']"

definition idem_key :: "string \<Rightarrow> string \<Rightarrow> string \<Rightarrow> string" where
  "idem_key run_id event_hash event_type = run_id @ '':'' @ event_hash @ '':'' @ event_type"

text \<open>The idempotency key, the event id and the trace id.\<close>

definition ident :: "crypto \<Rightarrow> string \<Rightarrow> string \<Rightarrow> string \<Rightarrow> string \<times> string \<times> string" where
  "ident C run_id event_hash event_type =
     (let idem = idem_key run_id event_hash event_type in
      (idem, ''EV-'' @ take 12 (sha256 C (py_encode idem)),
       ''TR-'' @ take 12 (sha256 C (py_encode (run_id @ '':'' @ event_hash)))))"

section \<open>The projection\<close>

definition EVENT_MAP :: "(string \<times> string \<times> string) list" where
  "EVENT_MAP = [
     (''task_started'', ''task.started'', ''running''),
     (''file_edited'', ''file.changed'', ''running''),
     (''task_completed'', ''task.completed'', ''succeeded''),
     (''task_blocked'', ''task.blocked'', ''blocked''),
     (''commit'', ''artifact.created'', ''running'')]"

definition SKIP :: "string list" where
  "SKIP = [''compensation'', ''resolution'']"

definition identity_of :: "(string \<times> val) list \<Rightarrow> (string \<times> val) list" where
  "identity_of payload = map (\<lambda>k. (k, dget payload k)) IDENTITY_FIELDS"

definition event_body ::
  "crypto \<Rightarrow> (string \<times> val) list \<Rightarrow> string \<Rightarrow> string \<Rightarrow> val \<Rightarrow> val \<Rightarrow> val \<Rightarrow> (string \<times> val) list" where
  "event_body C identity event_type status occurred_at artifact_refs event_hash =
     (case ident C (py_str (dget identity ''run_id'')) (py_str event_hash) event_type of
        (idem, event_id, trace_id) \<Rightarrow>
      identity @ [
        (''trace_id'', VStr trace_id),
        (''event_id'', VStr event_id),
        (''idempotency_key'', VStr idem),
        (''event_type'', VStr event_type),
        (''occurred_at'', occurred_at),
        (''received_at'', occurred_at),
        (''status'', VStr status),
        (''artifact_refs'', artifact_refs)])"

definition build_event ::
  "crypto \<Rightarrow> (string \<times> val) list \<Rightarrow> string \<Rightarrow> string \<Rightarrow> val \<Rightarrow> val \<Rightarrow> char list \<Rightarrow> val \<Rightarrow> val \<Rightarrow> val res" where
  "build_event C identity event_type status occurred_at artifact_refs key key_id event_hash =
     (let event = event_body C identity event_type status occurred_at artifact_refs event_hash in
      bindR (sign C (signing_payload event) ''hmac-sha256'' key) (\<lambda>v.
      Inr (VDict (event @ [(''signature'', VDict [(''key_id'', key_id),
        (''algorithm'', VStr ''hmac-sha256''), (''value'', VStr v)])]))))"

text \<open>\<open>{t.get("task_id"): (t.get("acceptance") or {}).get("result") for t in ...}\<close>.\<close>

definition task_results :: "val list \<Rightarrow> (val \<times> val) list res" where
  "task_results tasks = mapR (\<lambda>t.
     bindR (get t ''task_id'') (\<lambda>tid.
     bindR (get t ''acceptance'') (\<lambda>acceptance.
     bindR (get (or_else acceptance (VDict [])) ''result'') (\<lambda>result.
     if hashable tid then Inr (tid, result) else Inl TypeError)))) tasks"

definition project_one ::
  "crypto \<Rightarrow> (string \<times> val) list \<Rightarrow> (val \<times> val) list \<Rightarrow> char list \<Rightarrow> val \<Rightarrow> val list \<Rightarrow> val \<Rightarrow> val list res" where
  "project_one C identity results key key_id events logged =
     bindR (get logged ''event_type'') (\<lambda>kind.
     if \<not> hashable kind then Inl TypeError else
     case (case kind of VStr k \<Rightarrow> if k \<in> set SKIP then None else map_of EVENT_MAP k | _ \<Rightarrow> None) of
       None \<Rightarrow> Inr events
     | Some (event_type, status) \<Rightarrow>
         bindR (item logged ''event_hash'') (\<lambda>event_hash.
         bindR (item logged ''at'') (\<lambda>stamp.
         bindR (get logged ''touched_paths'') (\<lambda>paths.
         bindR (build_event C identity event_type status stamp (or_else paths (VList [])) key key_id event_hash) (\<lambda>e.
         if \<not> py_eq kind (VStr ''task_completed'') then Inr (events @ [e]) else
         bindR (get logged ''subject_id'') (\<lambda>subject.
         bindR (vget results subject) (\<lambda>result.
         bindR (build_event C identity (if py_eq result (VStr ''pass'') then ''test.passed'' else ''test.failed'')
                  ''running'' stamp (VList []) key key_id event_hash) (\<lambda>t.
         Inr (events @ [e, t]))))))))) "

definition to_execution_events ::
  "crypto \<Rightarrow> val \<Rightarrow> (string \<times> val) list \<Rightarrow> char list \<Rightarrow> val \<Rightarrow> val list res" where
  "to_execution_events C document payload key key_id =
     (let identity = identity_of payload in
      bindR (bindR (get_or document ''task_ledger'' (VList [])) iter) (\<lambda>tasks.
      bindR (task_results tasks) (\<lambda>results.
      bindR (bindR (get_or document ''execution_log'' (VList [])) iter) (\<lambda>elog.
      foldR (project_one C identity results key key_id) [] elog))))"

end
