(* ===== verification/Relay.thy ===== *)
theory Relay
  imports Events
begin

text \<open>
  The relay of events to the remote service: the durable store (\<open>relay/store.py\<close>) as the
  tables of its database, the HTTP client (\<open>relay/client.py\<close>), the classification of its
  answers (\<open>relay/reject.py\<close>) and the drain (\<open>relay/worker.py\<close>).

  Each store function is one transaction, so it is a function on the tables; the time stamps
  it writes are arguments. JSON columns hold the value that was serialized.
\<close>

section \<open>The tables\<close>

record delivery_row =
  d_ledger :: string
  d_key :: string
  d_status :: string
  d_reason :: "string option"
  d_event :: "val option"
  d_updated :: string

record accepted_row =
  a_run :: string
  a_task :: string
  a_status :: string
  a_updated :: string

text \<open>Rows are in the order of their \<open>rowid\<close>.\<close>

record relay_db =
  delivery :: "delivery_row list"
  identities :: "(string \<times> (string \<times> val) list) list"
  accepted :: "accepted_row list"

definition empty_db :: relay_db where
  "empty_db = \<lparr>delivery = [], identities = [], accepted = []\<rparr>"

text \<open>
  Opening the store (\<open>_connect\<close>): the directory and the tables are created when they are not
  there, and left as they are when they are. The journal mode and the busy timeout belong to
  SQLite.
\<close>

definition connect :: "string \<Rightarrow> (string \<times> relay_db) list \<Rightarrow> (string \<times> relay_db) list \<times> relay_db" where
  "connect store_dir dirs = (case map_of dirs store_dir of
      Some db \<Rightarrow> (dirs, db)
    | None \<Rightarrow> (dirs @ [(store_dir, empty_db)], empty_db))"

lemma connect_again: "connect d (fst (connect d dirs)) = connect d dirs"
  by (cases "map_of dirs d") (simp_all add: connect_def map_add_def)

section \<open>Retention\<close>

definition DEFAULT_RETENTION_S :: int where
  "DEFAULT_RETENTION_S = 7 * 24 * 3600"

definition retention_window :: "int option \<Rightarrow> environ \<Rightarrow> int" where
  "retention_window max_age environ = (case max_age of
      Some a \<Rightarrow> a
    | None \<Rightarrow> (case map_of environ ''IOPS_RELAY_RETENTION_S'' of
          None \<Rightarrow> DEFAULT_RETENTION_S
        | Some raw \<Rightarrow> if raw = [] then DEFAULT_RETENTION_S
            else (case parse_int raw of Some i \<Rightarrow> i | None \<Rightarrow> DEFAULT_RETENTION_S)))"

section \<open>Deliveries\<close>

definition row_at :: "string \<Rightarrow> string \<Rightarrow> delivery_row \<Rightarrow> bool" where
  "row_at lid key r = (d_ledger r = lid \<and> d_key r = key)"

definition load_settled :: "string \<Rightarrow> relay_db \<Rightarrow> string set" where
  "load_settled lid db = d_key ` {r \<in> set (delivery db). d_ledger r = lid}"

text \<open>\<open>INSERT OR IGNORE\<close> keeps a present row.\<close>

definition mark_settled :: "string \<Rightarrow> string \<Rightarrow> string \<Rightarrow> relay_db \<Rightarrow> relay_db" where
  "mark_settled lid stamp key db =
     (if \<exists>r \<in> set (delivery db). row_at lid key r then db
      else db\<lparr>delivery := delivery db @ [\<lparr>d_ledger = lid, d_key = key, d_status = ''delivered'',
        d_reason = None, d_event = None, d_updated = stamp\<rparr>]\<rparr>)"

text \<open>\<open>INSERT OR REPLACE\<close> deletes a present row and appends the new one.\<close>

definition dead_letter :: "string \<Rightarrow> string \<Rightarrow> string \<Rightarrow> val \<Rightarrow> string \<Rightarrow> relay_db \<Rightarrow> relay_db" where
  "dead_letter lid stamp why event key db =
     db\<lparr>delivery := filter (\<lambda>r. \<not> row_at lid key r) (delivery db) @
       [\<lparr>d_ledger = lid, d_key = key, d_status = ''dead_lettered'', d_reason = Some why,
         d_event = Some event, d_updated = stamp\<rparr>]\<rparr>"

definition load_dead_letter :: "string \<Rightarrow> relay_db \<Rightarrow> (val option \<times> string option) list" where
  "load_dead_letter lid db =
     map (\<lambda>r. (d_event r, d_reason r))
       (filter (\<lambda>r. d_ledger r = lid \<and> d_status r = ''dead_lettered'') (delivery db))"

section \<open>Identities\<close>

definition save_identity ::
  "string \<Rightarrow> (string \<times> val) list \<Rightarrow> relay_db \<Rightarrow> relay_db \<times> (string \<times> val) list" where
  "save_identity lid payload db =
     (let identity = identity_of payload in
      (db\<lparr>identities := AList.update lid identity (identities db)\<rparr>, identity))"

definition load_identity :: "string \<Rightarrow> relay_db \<Rightarrow> (string \<times> val) list option" where
  "load_identity lid db = map_of (identities db) lid"

section \<open>Accepted tasks\<close>

definition accepted_at :: "string \<Rightarrow> string \<Rightarrow> accepted_row \<Rightarrow> bool" where
  "accepted_at run_id task_id r = (a_run r = run_id \<and> a_task r = task_id)"

definition task_status :: "string \<Rightarrow> string \<Rightarrow> relay_db \<Rightarrow> string option" where
  "task_status run_id task_id db = map_option a_status (find (accepted_at run_id task_id) (accepted db))"

definition accept_task :: "string \<Rightarrow> string \<Rightarrow> string \<Rightarrow> relay_db \<Rightarrow> relay_db \<times> string" where
  "accept_task stamp run_id task_id db =
     (case find (accepted_at run_id task_id) (accepted db) of
        None \<Rightarrow> (db\<lparr>accepted := accepted db @ [\<lparr>a_run = run_id, a_task = task_id,
                  a_status = ''accepted'', a_updated = stamp\<rparr>]\<rparr>, ''accept'')
      | Some r \<Rightarrow> (db, if a_status r = ''accepted'' then ''accept'' else ''replay''))"

text \<open>\<open>UPDATE ... WHERE run_id = ? AND task_id = ? AND status = 'accepted'\<close>.\<close>

definition claim_task :: "string \<Rightarrow> string \<Rightarrow> string \<Rightarrow> relay_db \<Rightarrow> relay_db \<times> bool" where
  "claim_task stamp run_id task_id db =
     (let hit = (\<lambda>r. accepted_at run_id task_id r \<and> a_status r = ''accepted'') in
      (db\<lparr>accepted := map (\<lambda>r. if hit r then r\<lparr>a_status := ''running'', a_updated := stamp\<rparr> else r) (accepted db)\<rparr>,
       length (filter hit (accepted db)) = 1))"

definition settle_task :: "string \<Rightarrow> string \<Rightarrow> string \<Rightarrow> bool \<Rightarrow> relay_db \<Rightarrow> relay_db" where
  "settle_task stamp run_id task_id ok db =
     db\<lparr>accepted := map (\<lambda>r. if accepted_at run_id task_id r
        then r\<lparr>a_status := (if ok then ''done'' else ''failed''), a_updated := stamp\<rparr> else r) (accepted db)\<rparr>"

definition stale_delivery :: "string \<Rightarrow> delivery_row \<Rightarrow> bool" where
  "stale_delivery cutoff r = (d_status r = ''delivered'' \<and> d_updated r < cutoff)"

definition stale_accepted :: "string \<Rightarrow> accepted_row \<Rightarrow> bool" where
  "stale_accepted cutoff r = (a_status r \<in> {''done'', ''failed''} \<and> a_updated r < cutoff)"

text \<open>\<open>iso_before n\<close> is the ISO stamp of the current time minus \<open>n\<close> seconds.\<close>

definition prune_settled ::
  "(int \<Rightarrow> string) \<Rightarrow> environ \<Rightarrow> int option \<Rightarrow> relay_db \<Rightarrow> relay_db \<times> (nat \<times> nat)" where
  "prune_settled iso_before environ max_age db =
     (let cutoff = iso_before (retention_window max_age environ) in
      (db\<lparr>delivery := filter (\<lambda>r. \<not> stale_delivery cutoff r) (delivery db),
          accepted := filter (\<lambda>r. \<not> stale_accepted cutoff r) (accepted db)\<rparr>,
       (length (filter (stale_delivery cutoff) (delivery db)),
        length (filter (stale_accepted cutoff) (accepted db)))))"

section \<open>The client\<close>

record response =
  rsp_status :: int
  rsp_body :: "(string \<times> val) list"

text \<open>
  What the client is handed: the opener, the token provider and \<open>sleep\<close>. \<open>json.loads\<close> is
  a parameter; it raises \<open>ValueError\<close> on text that is not JSON and the subclass
  \<open>UnicodeError\<close> on bytes that are not text.
\<close>

record 'w transport =
  tp_open :: "string \<Rightarrow> string \<Rightarrow> (string \<times> string) list \<Rightarrow> ('w, int \<times> string) io"
  tp_token :: "('w, string option) io"
  tp_sleep :: "rat \<Rightarrow> ('w, unit) io"
  tp_loads :: "string \<Rightarrow> val res"

text \<open>The default opener: only HTTP(S); an HTTP error status is an answer, not an exception.\<close>

definition http_url :: "string \<Rightarrow> bool" where
  "http_url url = (startswith url ''http://'' \<or> startswith url ''https://'')"

definition urllib_open ::
  "(string \<Rightarrow> string \<Rightarrow> (string \<times> string) list \<Rightarrow> ('w, int \<times> string) io)
     \<Rightarrow> string \<Rightarrow> string \<Rightarrow> (string \<times> string) list \<Rightarrow> ('w, int \<times> string) io" where
  "urllib_open send url data headers =
     (if \<not> http_url url
      then raiseI (ValueError (''refusing non-HTTP(S) iplanic endpoint: '' @ repr_string url))
      else send url data headers)"

definition rstrip_slash :: "string \<Rightarrow> string" where
  "rstrip_slash s = rev (dropWhile (\<lambda>c. c = slash) (rev s))"

record client =
  cl_url :: string
  cl_max_retries :: int
  cl_backoff_base :: rat

definition make_client :: "string \<Rightarrow> int \<Rightarrow> rat \<Rightarrow> client" where
  "make_client endpoint n base = \<lparr>cl_url = rstrip_slash endpoint @ ''/v1/events'', cl_max_retries = n, cl_backoff_base = base\<rparr>"

definition parse_body :: "(string \<Rightarrow> val res) \<Rightarrow> string \<Rightarrow> (string \<times> val) list res" where
  "parse_body loads raw = (if raw = [] then Inr [] else (case loads raw of
      Inr (VDict kvs) \<Rightarrow> Inr kvs
    | Inr _ \<Rightarrow> Inr []
    | Inl (ValueError _) \<Rightarrow> Inr []
    | Inl UnicodeError \<Rightarrow> Inr []
    | Inl e \<Rightarrow> Inl e))"

definition client_backoff :: "'w transport \<Rightarrow> client \<Rightarrow> int \<Rightarrow> ('w, unit) io" where
  "client_backoff t c attempt =
     (if cl_backoff_base c \<noteq> 0 then tp_sleep t (cl_backoff_base c * 2 ^ nat attempt) else retI ())"

definition auth_headers :: "string option \<Rightarrow> (string \<times> string) list" where
  "auth_headers token = (''Content-Type'', ''application/json'') #
     (case token of Some k \<Rightarrow> if k \<noteq> [] then [(''Authorization'', ''Bearer '' @ k)] else [] | None \<Rightarrow> [])"

text \<open>
  The \<open>while True\<close> loop of \<open>deliver\<close>, entered with the attempts made so far. An
  \<open>OSError\<close> (\<open>URLError\<close> is one) or a 5xx is retried while \<open>attempt < max_retries\<close>.
\<close>

definition try_open :: "'w transport \<Rightarrow> client \<Rightarrow> string \<Rightarrow> ('w, (int \<times> string) option) io" where
  "try_open t c data =
     bindI (tp_token t) (\<lambda>token.
     catchI (bindI (tp_open t (cl_url c) data (auth_headers token)) (\<lambda>r. retI (Some r)))
       (\<lambda>e. case e of OSError _ \<Rightarrow> Some (retI None) | _ \<Rightarrow> None))"

function deliver_loop :: "'w transport \<Rightarrow> client \<Rightarrow> string \<Rightarrow> int \<Rightarrow> ('w, response) io" where
  "deliver_loop t c data attempt =
     bindI (try_open t c data) (\<lambda>r. case r of
         None \<Rightarrow> if attempt \<ge> cl_max_retries c then raiseI TransportError
             else bindI (client_backoff t c attempt) (\<lambda>_. deliver_loop t c data (attempt + 1))
       | Some (status, raw) \<Rightarrow>
           if status \<ge> 500 \<and> attempt < cl_max_retries c
           then bindI (client_backoff t c attempt) (\<lambda>_. deliver_loop t c data (attempt + 1))
           else liftI (bindR (parse_body (tp_loads t) raw) (\<lambda>b. Inr \<lparr>rsp_status = status, rsp_body = b\<rparr>)))"
  by pat_completeness auto
termination
  by (relation "measure (\<lambda>(t, c, data, attempt). nat (cl_max_retries c - attempt))") auto

declare deliver_loop.simps [simp del]

definition deliver :: "'w transport \<Rightarrow> client \<Rightarrow> val \<Rightarrow> ('w, response) io" where
  "deliver t c event = deliver_loop t c (py_encode (json_dumps event)) 0"

section \<open>Classification of an answer\<close>

datatype action = Advance | Retry | Dead_Letter | Halt | Refresh

record verdict_of =
  vd_action :: action
  vd_reason :: string

text \<open>
  \<open>iso_age s\<close> is \<open>(now - datetime.fromisoformat(s)).total_seconds()\<close>: \<open>None\<close> when \<open>s\<close> is
  not a time, and a \<open>TypeError\<close> when it has no zone.
\<close>

definition event_age :: "(string \<Rightarrow> rat option res) \<Rightarrow> val \<Rightarrow> rat option res" where
  "event_age iso_age event =
     bindR (get event ''occurred_at'') (\<lambda>occurred. case occurred of
         VStr s \<Rightarrow> iso_age (replace_all ''Z'' ''+00:00'' s)
       | _ \<Rightarrow> Inr None)"

definition reject_code :: "(string \<times> val) list \<Rightarrow> val" where
  "reject_code body = or_else (dget body ''reason'') (or_else (dget body ''reject_code'') (dget body ''code''))"

definition classify :: "(string \<Rightarrow> rat option res) \<Rightarrow> int \<Rightarrow> response \<Rightarrow> val \<Rightarrow> verdict_of res" where
  "classify iso_age max_age rsp event =
     (let status = rsp_status rsp in
      if status = 202 then Inr \<lparr>vd_action = Advance, vd_reason = ''accepted''\<rparr>
      else if status = 401 then Inr \<lparr>vd_action = Refresh, vd_reason = ''unauthorized''\<rparr>
      else if status \<ge> 500 then Inr \<lparr>vd_action = Retry, vd_reason = ''server error '' @ int_str status\<rparr>
      else let code = reject_code (rsp_body rsp) in
      if py_eq code (VStr ''invalid_signature'') \<or> py_eq code (VStr ''schema_invalid'')
      then Inr \<lparr>vd_action = Halt, vd_reason = ''integrity: '' @ py_str code\<rparr>
      else if py_eq code (VStr ''timestamp_skew'') then
        bindR (event_age iso_age event) (\<lambda>age. case age of
            Some a \<Rightarrow> if a > of_int max_age
              then Inr \<lparr>vd_action = Dead_Letter, vd_reason = ''timestamp_skew, far-stale ('' @ int_str (trunc_float a) @ ''s)''\<rparr>
              else Inr \<lparr>vd_action = Retry, vd_reason = ''timestamp_skew, within window''\<rparr>
          | None \<Rightarrow> Inr \<lparr>vd_action = Retry, vd_reason = ''timestamp_skew, within window''\<rparr>)
      else if status = 403 then Inr \<lparr>vd_action = Dead_Letter, vd_reason = ''registration/scope rejected''\<rparr>
      else Inr \<lparr>vd_action = Halt, vd_reason =
        ''unhandled reject (status '' @ int_str status @ '', code '' @ py_str code @ '')''\<rparr>)"

section \<open>The drain\<close>

record drain_report =
  delivered :: "string list"
  dead_lettered :: "string list"
  pending :: "string list"
  halted :: "string option"

definition empty_report :: drain_report where
  "empty_report = \<lparr>delivered = [], dead_lettered = [], pending = [], halted = None\<rparr>"

definition report_ok :: "drain_report \<Rightarrow> bool" where
  "report_ok r = (halted r = None)"

definition deliver_once ::
  "'w transport \<Rightarrow> client \<Rightarrow> (string \<Rightarrow> rat option res) \<Rightarrow> int \<Rightarrow> val \<Rightarrow> ('w, verdict_of) io" where
  "deliver_once t c iso_age max_age event =
     bindI (deliver t c event) (\<lambda>rsp. liftI (classify iso_age max_age rsp event))"

definition deliver_with_refresh ::
  "'w transport \<Rightarrow> client \<Rightarrow> (string \<Rightarrow> rat option res) \<Rightarrow> int \<Rightarrow> val \<Rightarrow> ('w, verdict_of) io" where
  "deliver_with_refresh t c iso_age max_age event =
     bindI (deliver_once t c iso_age max_age event) (\<lambda>v.
     if vd_action v \<noteq> Refresh then retI v else
     bindI (deliver_once t c iso_age max_age event) (\<lambda>v.
     retI (if vd_action v = Refresh
       then \<lparr>vd_action = Halt, vd_reason = ''auth refresh failed (401 after refresh)''\<rparr> else v)))"

text \<open>
  The loop over the projected events, over any outbox: \<open>mark\<close> settles a key and \<open>bury\<close>
  dead-letters an event under its key. \<open>settled\<close> is read once, before the loop.
\<close>

fun drain_loop ::
  "(string \<Rightarrow> 'db \<Rightarrow> 'db) \<Rightarrow> (string \<Rightarrow> val \<Rightarrow> string \<Rightarrow> 'db \<Rightarrow> 'db) \<Rightarrow> (val \<Rightarrow> ('w, verdict_of) io)
     \<Rightarrow> string set \<Rightarrow> val list \<Rightarrow> drain_report \<Rightarrow> ('w \<times> 'db, drain_report) io" where
  "drain_loop mark bury send settled [] r = retI r"
| "drain_loop mark bury send settled (event # events) r =
     bindI (liftI (bindR (item event ''idempotency_key'') as_str)) (\<lambda>idem.
     if idem \<in> settled then drain_loop mark bury send settled events r else
     bindI (onW (send event)) (\<lambda>v. case vd_action v of
         Advance \<Rightarrow> bindI (onU (mark idem)) (\<lambda>_.
           drain_loop mark bury send settled events (r\<lparr>delivered := delivered r @ [idem]\<rparr>))
       | Dead_Letter \<Rightarrow> bindI (onU (bury (vd_reason v) event idem)) (\<lambda>_.
           drain_loop mark bury send settled events (r\<lparr>dead_lettered := dead_lettered r @ [idem]\<rparr>))
       | Retry \<Rightarrow> retI (r\<lparr>pending := pending r @ [idem]\<rparr>)
       | _ \<Rightarrow> retI (r\<lparr>pending := pending r @ [idem], halted := Some (vd_reason v)\<rparr>)))"

definition resolved_key_id :: "string option \<Rightarrow> (string \<times> val) list \<Rightarrow> val" where
  "resolved_key_id key_id identity =
     (if truthy_opt key_id then VStr (the key_id) else or_else (dget identity ''executor_id'') (VStr ''default''))"

text \<open>\<open>stamp\<close> is the time stamp of the rows written; \<open>now\<close> is behind \<open>iso_age\<close>.\<close>

definition drain ::
  "crypto \<Rightarrow> 'w transport \<Rightarrow> client \<Rightarrow> (string \<Rightarrow> rat option res) \<Rightarrow> string \<Rightarrow> val \<Rightarrow> (string \<times> val) list
     \<Rightarrow> string \<Rightarrow> char list \<Rightarrow> string option \<Rightarrow> int \<Rightarrow> ('w \<times> relay_db, drain_report) io" where
  "drain C t c iso_age stamp document identity lid key key_id max_age = (\<lambda>(w, db).
     bindI (liftI (to_execution_events C document identity key (resolved_key_id key_id identity))) (\<lambda>events.
     drain_loop (mark_settled lid stamp) (dead_letter lid stamp) (deliver_with_refresh t c iso_age max_age)
       (load_settled lid db) events empty_report) (w, db))"

end
