(* ===== verification/Vcs.thy ===== *)
theory Vcs
  imports Signing
begin

text \<open>
  Git operations (\<open>vcs/git.py\<close>): the argument vectors handed to \<open>subprocess.run\<close>, and the
  guard in front of \<open>git clone\<close>. The subprocess is a parameter: it returns standard output
  or raises \<open>CalledProcessError\<close>.
\<close>

type_synonym 'w subprocess = "string list \<Rightarrow> ('w, string) io"

definition git_in :: "'w subprocess \<Rightarrow> string \<Rightarrow> string list \<Rightarrow> ('w, string) io" where
  "git_in sp workspace args = bindI (sp ([''git'', ''-C'', workspace] @ args)) (\<lambda>out. retI (strip out))"

definition has_changes :: "'w subprocess \<Rightarrow> string \<Rightarrow> ('w, bool) io" where
  "has_changes sp workspace = bindI (git_in sp workspace [''status'', ''--porcelain'']) (\<lambda>out. retI (out \<noteq> []))"

definition head_sha :: "'w subprocess \<Rightarrow> string \<Rightarrow> ('w, string) io" where
  "head_sha sp workspace = git_in sp workspace [''rev-parse'', ''HEAD'']"

definition current_branch :: "'w subprocess \<Rightarrow> string \<Rightarrow> ('w, string) io" where
  "current_branch sp workspace = git_in sp workspace [''rev-parse'', ''--abbrev-ref'', ''HEAD'']"

text \<open>\<open>_REMOTE_HELPER.match(url)\<close>: \<open>^[A-Za-z0-9][A-Za-z0-9+.\-]*::\<close>.\<close>

definition remote_helper :: "string \<Rightarrow> bool" where
  "remote_helper url = (let s = takeWhile scheme_char url in
     s \<noteq> [] \<and> (is_alpha (hd s) \<or> is_digit (hd s)) \<and> startswith (drop (length s) url) ''::'')"

definition clone :: "'w subprocess \<Rightarrow> string \<Rightarrow> string \<Rightarrow> string \<Rightarrow> ('w, string) io" where
  "clone sp url ref dest =
     (if remote_helper url \<or> startswith url ''-''
      then raiseI (ValueError (''unsafe clone url (remote-helper / leading-dash): '' @ repr_string url))
      else
        bindI (sp [''git'', ''clone'', ''--no-single-branch'', ''--'', url, dest]) (\<lambda>_.
        bindI (git_in sp dest [''checkout'', ref, ''--'']) (\<lambda>_.
        head_sha sp dest)))"

definition commit_all ::
  "'w subprocess \<Rightarrow> string \<Rightarrow> string \<Rightarrow> string \<Rightarrow> string \<Rightarrow> string \<Rightarrow> ('w, string) io" where
  "commit_all sp workspace branch msg author_name author_email =
     bindI (git_in sp workspace [''checkout'', ''-B'', branch]) (\<lambda>_.
     bindI (git_in sp workspace [''add'', ''-A'']) (\<lambda>_.
     bindI (git_in sp workspace [''-c'', ''user.name='' @ author_name, ''-c'', ''user.email='' @ author_email,
         ''-c'', ''commit.gpgsign=false'', ''commit'', ''-m'', msg]) (\<lambda>_.
     head_sha sp workspace)))"

section \<open>The door implies the guard\<close>

lemma takeWhile_split: "takeWhile p xs = s \<Longrightarrow> drop (length s) xs = c # r \<Longrightarrow> \<not> p c"
  by (metis dropWhile_eq_drop hd_dropWhile list.distinct(1) list.sel(1))

lemma url_scheme_no_helper:
  assumes "url_scheme url = Some (s, r)"
  shows "\<not> remote_helper url" and "\<not> startswith url ''-''"
proof -
  let ?s = "takeWhile scheme_char url"
  from assms have s: "?s \<noteq> []" "is_alpha (hd ?s)" "startswith (drop (length ?s) url) ''://''"
    by (auto simp: url_scheme_def Let_def split: if_splits)
  then show "\<not> remote_helper url"
    by (auto simp: remote_helper_def Let_def startswith_prefix prefix_def)
  from s have "hd ?s = hd url" by (cases url) (auto split: if_splits)
  with s show "\<not> startswith url ''-''"
    by (cases url) (auto simp: startswith_prefix is_alpha_def split: if_splits)
qed

lemma clone_url_ok_scheme: "clone_url_ok environ url \<Longrightarrow> \<exists>s r. url_scheme url = Some (s, r)"
  by (auto simp: clone_url_ok_def split: option.splits)

end
