(* ===== verification/Persistence.thy ===== *)
theory Persistence
  imports HashChain Sandbox
begin

text \<open>
  The ledger store on disk (\<open>ledger/persistence.py\<close>), its operator control flag and the query
  surface over it (\<open>ledger/index.py\<close>). A YAML file is the document it holds: dumping plain
  data and loading it back gives the same data. The advisory lock makes \<open>save\<close> of one
  ledger exclusive, so a save is a sequence of steps of one process, which may stop between
  any two of them.
\<close>

section \<open>Files of a store\<close>

record file_store =
  documents :: "(string \<times> val) list"
  controls :: "(string \<times> string) list"

definition ledger_file :: "string \<Rightarrow> string" where
  "ledger_file lid = lid @ ''.yaml''"

datatype save_step = Write_Tmp | Replace_Ledger

definition save_step_of :: "string \<Rightarrow> val \<Rightarrow> save_step \<Rightarrow> file_store \<Rightarrow> file_store" where
  "save_step_of lid document a s = (case a of
      Write_Tmp \<Rightarrow> s\<lparr>documents := AList.update (ledger_file lid @ ''.tmp'') document (documents s)\<rparr>
    | Replace_Ledger \<Rightarrow> (case map_of (documents s) (ledger_file lid @ ''.tmp'') of
          None \<Rightarrow> s
        | Some d \<Rightarrow> s\<lparr>documents := AList.update (ledger_file lid) d
              (AList.delete (ledger_file lid @ ''.tmp'') (documents s))\<rparr>))"

definition save_steps :: "save_step list" where
  "save_steps = [Write_Tmp, Replace_Ledger]"

definition run_steps :: "string \<Rightarrow> val \<Rightarrow> save_step list \<Rightarrow> file_store \<Rightarrow> file_store" where
  "run_steps lid document as s = foldl (\<lambda>s a. save_step_of lid document a s) s as"

text \<open>
  The lock file of an id with a slash lies in a directory that nothing creates, so opening it
  raises. Ids are made by \<open>ledger/store.py\<close> and start with \<open>LEDGER-\<close>, never with a slash.
\<close>

definition save :: "val \<Rightarrow> file_store \<Rightarrow> (file_store \<times> string) res" where
  "save document s =
     bindR (bindR (item document ''ledger_control'') (\<lambda>c. item c ''ledger_id'')) (\<lambda>lid.
     if CHR ''/'' \<in> set (py_str lid) then Inl (OSError (''.'' @ py_str lid @ ''.lock''))
     else Inr (run_steps (py_str lid) document save_steps s, ledger_file (py_str lid)))"

text \<open>\<open>load_ledger\<close> of \<open>ledger/store.py\<close> reads a document without verifying its chain.\<close>

definition load_unverified :: "string \<Rightarrow> file_store \<Rightarrow> (string \<times> val) list res" where
  "load_unverified path s = (case map_of (documents s) path of
      None \<Rightarrow> Inl (OSError path)
    | Some data \<Rightarrow> Inr (case data of VDict kvs \<Rightarrow> kvs | _ \<Rightarrow> []))"

definition load :: "digest \<Rightarrow> string \<Rightarrow> file_store \<Rightarrow> val res" where
  "load H path s = (case map_of (documents s) path of
      None \<Rightarrow> Inl (OSError path)
    | Some data \<Rightarrow>
        let document = (if is_dict data then data else VDict []) in
        bindR (bindR (get_or document ''execution_log'' (VList [])) iter) (\<lambda>elog.
        bindR (verify_chain H elog) (\<lambda>ok.
        if \<not> ok then Inl (ValueError (''hash chain verification failed for '' @ path))
        else Inr document)))"

section \<open>Control flag and queries\<close>

definition control_file :: "string \<Rightarrow> string" where
  "control_file lid = ''.'' @ lid @ ''.control''"

definition set_control :: "string \<Rightarrow> string \<Rightarrow> file_store \<Rightarrow> file_store" where
  "set_control lid state s = s\<lparr>controls := AList.update (control_file lid) state (controls s)\<rparr>"

definition get_control :: "string \<Rightarrow> file_store \<Rightarrow> string" where
  "get_control lid s = (case map_of (controls s) (control_file lid) of None \<Rightarrow> ''running'' | Some t \<Rightarrow> strip t)"

text \<open>The callable that reads the flag, with the store as the world.\<close>

definition store_control :: "string \<Rightarrow> (file_store, string) io" where
  "store_control lid = (\<lambda>s. (Inr (get_control lid s), s))"

definition endswith :: "string \<Rightarrow> string \<Rightarrow> bool" where
  "endswith s t = suffix t s"

text \<open>\<open>p.stem\<close> of a name that ends in \<open>.yaml\<close>; the bare suffix is a name without one.\<close>

definition stem :: "string \<Rightarrow> string" where
  "stem n = (if n = ''.yaml'' then n else take (length n - 5) n)"

definition list_runs :: "file_store \<Rightarrow> string list" where
  "list_runs s = sort (map stem (filter (\<lambda>n. endswith n ''.yaml'') (map fst (documents s))))"

text \<open>\<open>by_status[s] = by_status.get(s, 0) + 1\<close> in the order statuses are first met.\<close>

definition count_status :: "(string \<times> int) list \<Rightarrow> string \<Rightarrow> (string \<times> int) list" where
  "count_status m s = AList.update s ((case map_of m s of None \<Rightarrow> 0 | Some n \<Rightarrow> n) + 1) m"

definition py_len :: "val \<Rightarrow> nat res" where
  "py_len v = (case v of VList xs \<Rightarrow> Inr (length xs) | VDict kvs \<Rightarrow> Inr (length kvs)
     | VStr s \<Rightarrow> Inr (length s) | _ \<Rightarrow> Inl TypeError)"

definition ledger_status :: "digest \<Rightarrow> string \<Rightarrow> file_store \<Rightarrow> val res" where
  "ledger_status H lid s =
     bindR (load H (ledger_file lid) s) (\<lambda>document.
     bindR (bindR (get_or document ''task_ledger'' (VList [])) iter) (\<lambda>tasks.
     bindR (mapR (\<lambda>t. bindR (item t ''status'') as_str) tasks) (\<lambda>statuses.
     bindR (bindR (get_or document ''ledger_control'' (VDict [])) (\<lambda>c. get c ''source_iplan'')) (\<lambda>src.
     bindR (get_or document ''reconciliation'' (VDict [])) (\<lambda>rec.
     bindR (bindR (get_or document ''blockers'' (VList [])) py_len) (\<lambda>n.
     Inr (VDict [
       (''ledger_id'', VStr lid),
       (''source_iplan'', src),
       (''tasks'', VDict (map (\<lambda>(s, n). (s, VInt n)) (foldl count_status [] statuses))),
       (''reconciliation'', rec),
       (''open_blockers'', VInt (int n))])))))))"

section \<open>A save is atomic\<close>

lemma tmp_differs: "ledger_file lid @ ''.tmp'' \<noteq> ledger_file lid'" if "lid' = lid"
  using that by (simp add: ledger_file_def)

lemma save_prefix:
  "map_of (documents (run_steps lid document (take n save_steps) s)) (ledger_file lid)
     = (if n \<ge> 2 then Some document else map_of (documents s) (ledger_file lid))"
proof -
  consider "n = 0" | "n = 1" | m where "n = Suc (Suc m)" by (metis One_nat_def not0_implies_Suc)
  then show ?thesis
    by cases (simp_all add: run_steps_def save_steps_def save_step_of_def tmp_differs [OF refl])
qed

section \<open>What the store shows after a save\<close>

lemma tmp_name_differs [simp]: "ledger_file lid @ ''.tmp'' \<noteq> ledger_file lid" "ledger_file lid \<noteq> ledger_file lid @ ''.tmp''"
  using tmp_differs [of lid lid] by simp_all

lemma tmp_not_listed: "\<not> endswith (ledger_file lid @ ''.tmp'') ''.yaml''"
proof
  assume "endswith (ledger_file lid @ ''.tmp'') ''.yaml''"
  then obtain ys where "ledger_file lid @ ''.tmp'' = ys @ ''.yaml''" by (auto simp: endswith_def suffix_def)
  then have "last (ledger_file lid @ ''.tmp'') = last (ys @ ''.yaml'')" by (rule arg_cong)
  then show False by simp
qed

lemma list_runs_tmp:
  "list_runs (s\<lparr>documents := AList.update (ledger_file lid @ ''.tmp'') d (documents s)\<rparr>) = list_runs s"
proof -
  have "filter (\<lambda>n. endswith n ''.yaml'') (map fst (AList.update (ledger_file lid @ ''.tmp'') d xs))
      = filter (\<lambda>n. endswith n ''.yaml'') (map fst xs)" for xs
    by (induction xs) (auto simp: tmp_not_listed)
  then show ?thesis by (simp add: list_runs_def)
qed

lemma saved_documents:
  "map_of (documents (run_steps lid document save_steps s)) f =
     (if f = ledger_file lid then Some document
      else if f = ledger_file lid @ ''.tmp'' then None else map_of (documents s) f)"
  by (simp add: run_steps_def save_steps_def save_step_of_def update_conv' AList.delete_conv')

lemma stem_ledger_file: "lid \<noteq> [] \<Longrightarrow> stem (ledger_file lid) = lid"
  by (simp add: stem_def ledger_file_def)

lemma set_list_runs: "set (list_runs s) = stem ` {n \<in> fst ` set (documents s). endswith n ''.yaml''}"
  by (auto simp: list_runs_def)

lemma saved_names:
  "fst ` set (documents (run_steps lid document save_steps s)) =
     insert (ledger_file lid) (fst ` set (documents s) - {ledger_file lid @ ''.tmp''})"
proof -
  have del: "fst ` set (AList.delete k xs) = fst ` set xs - {k}" for k and xs :: "(string \<times> val) list"
    by (auto simp: AList.delete_eq)
  show ?thesis
    by (auto simp: run_steps_def save_steps_def save_step_of_def dom_update del)
qed

lemma saved_runs:
  assumes "lid \<noteq> []"
  shows "set (list_runs (run_steps lid document save_steps s)) = insert lid (set (list_runs s))"
proof -
  have "endswith (ledger_file lid) ''.yaml''" by (simp add: endswith_def ledger_file_def suffix_def)
  then have "{n \<in> fst ` set (documents (run_steps lid document save_steps s)). endswith n ''.yaml''}
      = insert (ledger_file lid) {n \<in> fst ` set (documents s). endswith n ''.yaml''}"
    using tmp_not_listed [of lid] by (auto simp: saved_names)
  then show ?thesis by (simp add: set_list_runs stem_ledger_file [OF assms])
qed

text \<open>The counts of \<open>status()\<close> are the multiplicities of the statuses.\<close>

lemma counted:
  "map_of (foldl count_status [] xs) st = (if count_list xs st = 0 then None else Some (int (count_list xs st)))"
  by (induction xs rule: rev_induct) (auto simp: count_status_def update_conv')

end
