(* ===== verification/Receiver.thy ===== *)
theory Receiver
  imports Relay Vcs Persistence
begin

text \<open>
  The inbound receiver of dispatched tasks: bearer verification (\<open>receiver/auth.py\<close>), the
  HTTP door with its slots (\<open>receiver/http.py\<close>), the worker that claims, runs and drains one
  task (\<open>receiver/service.py\<close>) and the heartbeat (\<open>receiver/heartbeat.py\<close>).

  The world is the outside world paired with the relay tables, which the door and every
  worker share. Each store call is one transaction, so a handler is the sequence of its
  store calls; the interleaving of handlers is the step relation at the end.
\<close>

section \<open>Authentication\<close>

definition verify_bearer :: "string option \<Rightarrow> string \<Rightarrow> bool res" where
  "verify_bearer header expected =
     (case header of
        None \<Rightarrow> Inr False
      | Some h \<Rightarrow> if expected = [] \<or> h = [] \<or> \<not> startswith h ''Bearer '' then Inr False
          else compare_digest (drop 7 h) expected)"

section \<open>The door\<close>

definition MAX_BODY_BYTES :: int where
  "MAX_BODY_BYTES = 1048576"

text \<open>The length, or the status and detail of the refusal.\<close>

definition validate_content_length :: "string option \<Rightarrow> (int \<times> string) + int" where
  "validate_content_length header =
     (case (if truthy_opt header then parse_int (the header) else Some 0) of
        None \<Rightarrow> Inl (400, ''invalid Content-Length'')
      | Some n \<Rightarrow> if n < 0 then Inl (400, ''invalid Content-Length'')
          else if n > MAX_BODY_BYTES then Inl (413, ''request body too large'')
          else Inr n)"

record request =
  rq_path :: string
  rq_auth :: "string option"
  rq_length :: "string option"
  rq_body :: string

record reply =
  rp_status :: int
  rp_body :: val

definition refuse :: "int \<Rightarrow> string \<Rightarrow> reply" where
  "refuse status why = \<lparr>rp_status = status, rp_body = VDict [(''reason'', VStr why)]\<rparr>"

definition refuse_detail :: "int \<Rightarrow> string \<Rightarrow> val \<Rightarrow> reply" where
  "refuse_detail status why detail =
     \<lparr>rp_status = status, rp_body = VDict [(''reason'', VStr why), (''detail'', detail)]\<rparr>"

definition ack :: "val \<Rightarrow> val \<Rightarrow> string \<Rightarrow> reply" where
  "ack run_id task_id status = \<lparr>rp_status = 202, rp_body = VDict [
     (''task_id'', task_id), (''run_id'', run_id), (''status'', VStr status)]\<rparr>"

text \<open>
  A value bound to a \<open>TEXT NOT NULL\<close> column: numbers are stored as their text, \<open>None\<close> breaks
  the constraint, containers cannot be bound.
\<close>

definition sql_text :: "val \<Rightarrow> string res" where
  "sql_text v = (case v of
      VStr s \<Rightarrow> Inr s
    | VInt i \<Rightarrow> Inr (int_str i)
    | VBool b \<Rightarrow> Inr (if b then ''1'' else ''0'')
    | VFloat q \<Rightarrow> Inr (float_str q)
    | VNone \<Rightarrow> Inl (SqlError ''NOT NULL constraint failed'')
    | _ \<Rightarrow> Inl (SqlError ''type is not supported''))"

text \<open>
  The request up to the store: the payload with its ids, or a reply. \<open>loads\<close> is
  \<open>json.loads\<close> on bytes; only \<open>JSONDecodeError\<close> (\<open>ValueError\<close> here) is caught.
\<close>

datatype admission = Refused reply | Admitted "(string \<times> val) list" val val

definition admit_payload :: "environ \<Rightarrow> (string \<times> val) list \<Rightarrow> admission res" where
  "admit_payload environ payload =
     bindR (validate_payload environ payload) (\<lambda>fs.
     if fs \<noteq> [] then Inr (Refused (refuse_detail 400 ''schema_invalid'' (VStr (rule_id (hd fs))))) else
     bindR (item (VDict payload) ''run_id'') (\<lambda>run_id.
     if \<not> truthy (dget payload ''task_id'')
     then Inr (Refused (refuse_detail 400 ''schema_invalid'' (VStr ''task payload missing task_id''))) else
     bindR (item (VDict payload) ''task_id'') (\<lambda>task_id.
     Inr (Admitted payload run_id task_id))))"

definition parse_request :: "(string \<Rightarrow> val res) \<Rightarrow> request \<Rightarrow> int \<Rightarrow> val res + reply" where
  "parse_request loads q n =
     (let raw = take (nat n) (rq_body q) in
      if raw = [] then Inl (Inr VNone)
      else (case loads raw of
          Inl (ValueError _) \<Rightarrow> Inr (refuse_detail 400 ''schema_invalid'' (VStr ''body is not valid JSON''))
        | r \<Rightarrow> Inl r))"

definition admit :: "(string \<Rightarrow> val res) \<Rightarrow> environ \<Rightarrow> string \<Rightarrow> request \<Rightarrow> admission res" where
  "admit loads environ token q =
     (if rq_path q \<noteq> ''/v1/tasks'' then Inr (Refused (refuse 404 ''not_found'')) else
      bindR (verify_bearer (rq_auth q) token) (\<lambda>ok.
      if \<not> ok then Inr (Refused (refuse 401 ''unauthenticated'')) else
      case validate_content_length (rq_length q) of
        Inl (status, detail) \<Rightarrow> Inr (Refused (refuse_detail status
          (if status = 400 then ''schema_invalid'' else ''payload_too_large'') (VStr detail)))
      | Inr n \<Rightarrow> (case parse_request loads q n of
          Inr r \<Rightarrow> Inr (Refused r)
        | Inl r \<Rightarrow> bindR r (\<lambda>payload. case payload of
              VDict kvs \<Rightarrow> admit_payload environ kvs
            | _ \<Rightarrow> Inr (Refused (refuse_detail 400 ''schema_invalid'' (VStr ''body must be a JSON object'')))))))"

text \<open>
  The server: free slots, the tables, and the payloads of the worker threads it started and
  that have not ended.
\<close>

record server =
  sv_slots :: nat
  sv_db :: relay_db
  sv_workers :: "(string \<times> val) list list"

definition do_post ::
  "(string \<Rightarrow> val res) \<Rightarrow> environ \<Rightarrow> string \<Rightarrow> string \<Rightarrow> request \<Rightarrow> server \<Rightarrow> (reply \<times> server) res" where
  "do_post loads environ token stamp q s =
     bindR (admit loads environ token q) (\<lambda>a. case a of
         Refused r \<Rightarrow> Inr (r, s)
       | Admitted payload run_id task_id \<Rightarrow>
           bindR (sql_text run_id) (\<lambda>rid. bindR (sql_text task_id) (\<lambda>tid.
           let (db, decision) = accept_task stamp rid tid (sv_db s); s = s\<lparr>sv_db := db\<rparr> in
           if decision = ''replay'' then Inr (ack run_id task_id ''duplicate'', s)
           else if sv_slots s = 0 then Inr (refuse 503 ''receiver_busy'', s)
           else Inr (ack run_id task_id ''accepted'',
             s\<lparr>sv_slots := sv_slots s - 1, sv_workers := sv_workers s @ [payload]\<rparr>))))"

text \<open>A worker ends: its slot is released, whatever \<open>execute\<close> did.\<close>

definition end_worker :: "nat \<Rightarrow> server \<Rightarrow> server" where
  "end_worker i s = s\<lparr>sv_slots := sv_slots s + 1, sv_workers := take i (sv_workers s) @ drop (Suc i) (sv_workers s)\<rparr>"

text \<open>The token is checked first, then the socket is bound, then the semaphore of the slots is made.\<close>

definition receiver_server :: "int \<Rightarrow> relay_db \<Rightarrow> server res" where
  "receiver_server max_parallel db =
     (if max_parallel < 0 then Inl (ValueError ''semaphore initial value must be >= 0'')
      else Inr \<lparr>sv_slots = nat max_parallel, sv_db = db, sv_workers = []\<rparr>)"

definition build_receiver :: "unit res \<Rightarrow> string \<Rightarrow> int \<Rightarrow> relay_db \<Rightarrow> server res" where
  "build_receiver bound token max_parallel db =
     (if token = [] then Inl (ValueError ''receiver auth token is empty (set IOPS_RECEIVER_TOKEN); refusing to start'')
      else bindR bound (\<lambda>_. receiver_server max_parallel db))"

section \<open>The worker\<close>

definition safe_char :: "char \<Rightarrow> bool" where
  "safe_char c = (is_alpha c \<or> is_digit c \<or> c = CHR ''.'' \<or> c = CHR ''_'' \<or> c = CHR ''-'')"

definition slug :: "val \<Rightarrow> string res" where
  "slug component = bindR (as_str component) (\<lambda>s.
     let r = map (\<lambda>c. if safe_char c then c else CHR ''_'') s in
     if r = [] \<or> r = ''.'' \<or> r = ''..''
     then Inl (ValueError (''unsafe path component: '' @ repr_string s)) else Inr r)"

text \<open>\<open>str(Path(root) / a / b)\<close>: empty and \<open>.\<close> components of the root are dropped.\<close>

definition path_under :: "string \<Rightarrow> string list \<Rightarrow> string" where
  "path_under rt cs =
     initial_slashes rt @ join [slash] (filter (\<lambda>c. c \<noteq> [] \<and> c \<noteq> ''.'') (split_on slash rt) @ cs)"

definition task_workspace :: "string \<Rightarrow> val \<Rightarrow> val \<Rightarrow> string res" where
  "task_workspace rt run_id task_id =
     bindR (slug run_id) (\<lambda>r. bindR (slug task_id) (\<lambda>t. Inr (path_under rt [r, t])))"

definition repository_of :: "(string \<times> val) list \<Rightarrow> val res" where
  "repository_of payload = get (or_else (dget payload ''context_package'') (VDict [])) ''repository''"

text \<open>What the worker is wired with; each field is an effect on the outside world.\<close>

record 'w deps =
  dp_crypto :: crypto
  dp_agent :: string
  dp_env :: "string \<Rightarrow> 'w env"
  dp_retries :: int
  dp_backoff :: rat
  dp_workspace :: string
  dp_rmtree :: "string \<Rightarrow> ('w, unit) io"
  dp_mkdir :: "string \<Rightarrow> ('w, unit) io"
  dp_git :: "'w subprocess"
  dp_save :: "val \<Rightarrow> ('w, unit) io"
  dp_transport :: "'w transport"
  dp_client :: client
  dp_iso_age :: "string \<Rightarrow> rat option res"
  dp_iso_before :: "int \<Rightarrow> string"
  dp_stamp :: string
  dp_key :: "char list"
  dp_key_id :: "string option"
  dp_environ :: environ
  dp_log :: "string \<Rightarrow> ('w, unit) io"

definition provision_workspace ::
  "'w deps \<Rightarrow> (string \<times> val) list \<Rightarrow> val \<Rightarrow> val \<Rightarrow> ('w, string) io" where
  "provision_workspace d payload run_id task_id =
     bindI (liftI (repository_of payload)) (\<lambda>repo.
     if \<not> is_dict repo then retI (dp_workspace d) else
     bindI (liftI (task_workspace (dp_workspace d) run_id task_id)) (\<lambda>dest.
     bindI (dp_rmtree d dest) (\<lambda>_.
     bindI (dp_mkdir d dest) (\<lambda>_.
     bindI (liftI (bindR (item repo ''url'') as_str)) (\<lambda>url.
     bindI (liftI (bindR (item repo ''base_ref'') as_str)) (\<lambda>ref.
     bindI (clone (dp_git d) url ref dest) (\<lambda>_. retI dest)))))))"

text \<open>\<open>cloned_workspace\<close>: the directory to remove at the end, known before the clone starts.\<close>

definition cloned_workspace :: "'w deps \<Rightarrow> (string \<times> val) list \<Rightarrow> val \<Rightarrow> val \<Rightarrow> string option" where
  "cloned_workspace d payload run_id task_id =
     (case bindR (repository_of payload) (\<lambda>repo.
        if is_dict repo then task_workspace (dp_workspace d) run_id task_id else Inl TypeError) of
      Inr p \<Rightarrow> Some p | Inl _ \<Rightarrow> None)"

definition task_label :: "val \<Rightarrow> val \<Rightarrow> string" where
  "task_label run_id task_id = ''run='' @ py_str run_id @ '' task='' @ py_str task_id"

definition run_task_payload ::
  "'w deps \<Rightarrow> (string \<times> val) list \<Rightarrow> val \<Rightarrow> val \<Rightarrow> ('w \<times> relay_db, bool) io" where
  "run_task_payload d payload run_id task_id =
     bindI (onW (provision_workspace d payload run_id task_id)) (\<lambda>workspace.
     bindI (liftI (adapt_dispatched_task payload workspace)) (\<lambda>adapted.
     bindI (liftI (ingest_task_payload_dict (dp_crypto d) adapted)) (\<lambda>manifest.
     bindI (onW (run (sha256 (dp_crypto d)) (dp_agent d) (dp_env d workspace) (dp_retries d) (dp_backoff d) default_gate manifest)) (\<lambda>result.
     let document = ledger_val (rr_ledger result); lid = ledger_id (ledger_control (rr_ledger result)) in
     bindI (onW (dp_save d document)) (\<lambda>_.
     bindI (\<lambda>(w, db). (case save_identity lid payload db of (db', identity) \<Rightarrow> (Inr identity, (w, db')))) (\<lambda>identity.
     bindI (drain (dp_crypto d) (dp_transport d) (dp_client d) (dp_iso_age d) (dp_stamp d) document identity lid
              (dp_key d) (dp_key_id d) 86400) (\<lambda>report.
     bindI (liftI (bindR (sql_text run_id) (\<lambda>r. bindR (sql_text task_id) (\<lambda>t. Inr (r, t))))) (\<lambda>(r, t).
     bindI (onU (settle_task (dp_stamp d) r t (report_ok report))) (\<lambda>_.
     bindI (onW (dp_log d (''run-done '' @ task_label run_id task_id @ '' ledger='' @ lid
        @ '' delivered='' @ nat_str (length (delivered report)) @ '' pending='' @ nat_str (length (pending report))
        @ '' ok='' @ py_str (VBool (report_ok report))))) (\<lambda>_. retI (report_ok report)))))))))))"

text \<open>
  \<open>execute\<close>: nothing without the claim; a failure of any kind settles the row as failed; the
  clone is removed and the tables are swept in any case. The text of a caught exception in
  the log message is left out.
\<close>

definition settle_failed :: "'w deps \<Rightarrow> string \<Rightarrow> string \<Rightarrow> string \<Rightarrow> ('w \<times> relay_db, bool) io" where
  "settle_failed d label r t =
     bindI (onU (settle_task (dp_stamp d) r t False)) (\<lambda>_.
     bindI (onW (dp_log d (''error '' @ label))) (\<lambda>_. retI False))"

definition cleanup :: "'w deps \<Rightarrow> string option \<Rightarrow> ('w \<times> relay_db, unit) io" where
  "cleanup d cloned =
     bindI (case cloned of Some p \<Rightarrow> onW (dp_rmtree d p) | None \<Rightarrow> retI ()) (\<lambda>_.
     onU (\<lambda>db. fst (prune_settled (dp_iso_before d) (dp_environ d) None db)))"

definition execute_payload :: "'w deps \<Rightarrow> (string \<times> val) list \<Rightarrow> ('w \<times> relay_db, unit) io" where
  "execute_payload d payload =
     bindI (liftI (item (VDict payload) ''run_id'')) (\<lambda>run_id.
     bindI (liftI (item (VDict payload) ''task_id'')) (\<lambda>task_id.
     bindI (liftI (sql_text run_id)) (\<lambda>r. bindI (liftI (sql_text task_id)) (\<lambda>t.
     bindI (\<lambda>(w, db). case claim_task (dp_stamp d) r t db of (db', won) \<Rightarrow> (Inr won, (w, db'))) (\<lambda>won.
     if \<not> won then onW (dp_log d (''claim-lost '' @ task_label run_id task_id)) else
     bindI (onW (dp_log d (''run-start '' @ task_label run_id task_id))) (\<lambda>_.
     finallyI
       (bindI (catchI (run_task_payload d payload run_id task_id) (\<lambda>e. Some (settle_failed d (task_label run_id task_id) r t))) (\<lambda>_. retI ()))
       (cleanup d (cloned_workspace d payload run_id task_id))))))))"

section \<open>The heartbeat\<close>

record 'w heartbeat =
  hb_url :: string
  hb_org :: string
  hb_token :: "('w, string option) io"
  hb_open :: "string \<Rightarrow> (string \<times> string) list \<Rightarrow> ('w, int) io"
  hb_log :: "string \<Rightarrow> ('w, unit) io"

definition heartbeat_url :: "string \<Rightarrow> string \<Rightarrow> string" where
  "heartbeat_url endpoint executor_id = rstrip_slash endpoint @ ''/executors/'' @ executor_id @ ''/heartbeat''"

definition urllib_post ::
  "(string \<Rightarrow> (string \<times> string) list \<Rightarrow> ('w, int) io) \<Rightarrow> string \<Rightarrow> (string \<times> string) list \<Rightarrow> ('w, int) io" where
  "urllib_post send url headers =
     (if \<not> http_url url
      then raiseI (ValueError (''refusing non-HTTP(S) heartbeat endpoint: '' @ repr_string url))
      else send url headers)"

definition heartbeat_headers :: "string \<Rightarrow> string option \<Rightarrow> (string \<times> string) list" where
  "heartbeat_headers org token = [(''X-Org-Id'', org), (''Content-Length'', ''0'')] @
     (if truthy_opt token then [(''Authorization'', ''Bearer '' @ the token)] else [])"

definition beat :: "'w heartbeat \<Rightarrow> ('w, int option) io" where
  "beat h =
     bindI (hb_token h) (\<lambda>token.
     bindI (catchI
       (bindI (hb_open h (hb_url h) (heartbeat_headers (hb_org h) token)) (\<lambda>status. retI (Some status)))
       (\<lambda>e. Some (bindI (hb_log h ''heartbeat-failed'') (\<lambda>_. retI None)))) (\<lambda>r. case r of
         None \<Rightarrow> retI None
       | Some status \<Rightarrow> bindI (hb_log h (''heartbeat '' @ int_str status)) (\<lambda>_. retI (Some status))))"

text \<open>The loop, over the answers of \<open>stop.wait\<close>: it ends at the first \<open>True\<close>.\<close>

fun beat_loop :: "'w heartbeat \<Rightarrow> bool list \<Rightarrow> ('w, int option list) io" where
  "beat_loop h [] = retI []"
| "beat_loop h (stopped # ws) =
     (if stopped then retI [] else bindI (beat h) (\<lambda>s. bindI (beat_loop h ws) (\<lambda>ss. retI (s # ss))))"

end
