(* ===== verification/Monitoring.thy ===== *)
theory Monitoring
  imports DocumentRules
begin

text \<open>
  Monitoring: SLO evaluation (\<open>monitoring/slo.py\<close>), alerts and issue records
  (\<open>monitoring/alerts.py\<close>), the run's own telemetry (\<open>monitoring/telemetry.py\<close>), the
  provider interface with its no-op default (\<open>monitoring/provider.py\<close>) and its
  OpenTelemetry form (\<open>monitoring/otel.py\<close>), and the probe endpoint
  (\<open>monitoring/probes.py\<close>).
\<close>

section \<open>SLOs\<close>

record slo_result =
  so_id :: val
  so_signal :: val
  so_objective :: val
  so_value :: val
  so_met :: "bool option"

text \<open>\<open>samples.get(ref)\<close>; sample names are strings.\<close>

definition sample :: "(string \<times> val) list \<Rightarrow> val \<Rightarrow> val res" where
  "sample samples ref = (if is_none ref then Inr VNone else if \<not> hashable ref then Inl TypeError
     else Inr (case ref of VStr s \<Rightarrow> dget samples s | _ \<Rightarrow> VNone))"

definition evaluate_slo :: "(string \<times> val) list \<Rightarrow> val \<Rightarrow> slo_result res" where
  "evaluate_slo samples slo =
     bindR (get slo ''signal_ref'') (\<lambda>ref.
     bindR (get slo ''objective'') (\<lambda>objective.
     bindR (sample samples ref) (\<lambda>v.
     bindR (if is_none v \<or> is_none objective then Inr None
            else bindR (py_le objective v) (\<lambda>b. Inr (Some b))) (\<lambda>met.
     bindR (get slo ''id'') (\<lambda>i.
     Inr \<lparr>so_id = i, so_signal = ref, so_objective = objective, so_value = v, so_met = met\<rparr>)))))"

definition evaluate_slos :: "val \<Rightarrow> (string \<times> val) list \<Rightarrow> slo_result list res" where
  "evaluate_slos manifest samples =
     bindR (bindR (get_or manifest ''slos'' (VList [])) iter) (mapR (evaluate_slo samples))"

section \<open>Alerts\<close>

record alert =
  al_id :: val
  al_slo :: val
  al_severity :: val
  al_owner :: val

text \<open>\<open>{r["id"]: r for r in ...}\<close>: the last result with an id wins; ids are hashed.\<close>

fun slo_lookup :: "slo_result list \<Rightarrow> val \<Rightarrow> slo_result option" where
  "slo_lookup [] k = None"
| "slo_lookup (r # rs) k = (case slo_lookup rs k of Some x \<Rightarrow> Some x
     | None \<Rightarrow> if py_eq (so_id r) k then Some r else None)"

definition eval_alert_rule :: "slo_result list \<Rightarrow> alert list \<Rightarrow> val \<Rightarrow> alert list res" where
  "eval_alert_rule results alerts rule =
     bindR (get rule ''slo_ref'') (\<lambda>ref.
     if \<not> hashable ref then Inl TypeError else
     case slo_lookup results ref of
       None \<Rightarrow> Inr alerts
     | Some slo \<Rightarrow>
         if so_met slo \<noteq> Some False then Inr alerts else
         bindR (get rule ''id'') (\<lambda>i. bindR (get rule ''severity'') (\<lambda>sev. bindR (get rule ''escalation_owner'') (\<lambda>ow.
         Inr (alerts @ [\<lparr>al_id = i, al_slo = ref, al_severity = sev, al_owner = ow\<rparr>])))))"

definition evaluate_alerts :: "val \<Rightarrow> (string \<times> val) list \<Rightarrow> alert list res" where
  "evaluate_alerts manifest samples =
     bindR (evaluate_slos manifest samples) (\<lambda>results.
     if \<not> (\<forall>r \<in> set results. hashable (so_id r)) then Inl TypeError else
     bindR (bindR (get_or manifest ''alert_rules'' (VList [])) iter) (\<lambda>rules.
     foldR (eval_alert_rule results) [] rules))"

definition build_issue :: "alert \<Rightarrow> val \<Rightarrow> val res" where
  "build_issue a manifest =
     bindR (get_or manifest ''monitor_control'' (VDict [])) (\<lambda>control.
     bindR (get control ''source_iplan'') (\<lambda>src.
     bindR (get control ''source_ledger'') (\<lambda>led.
     Inr (VDict [
       (''title'', VStr (''SLO breach: '' @ py_str (al_slo a) @ '' ('' @ py_str src @ '')'')),
       (''body'', VStr (''Alert '' @ py_str (al_id a) @ '' fired for SLO '' @ py_str (al_slo a)
          @ '' on ledger '' @ py_str led @ ''.'')),
       (''source_iplan'', src),
       (''source_ledger'', led),
       (''severity'', al_severity a),
       (''escalation_owner'', al_owner a)]))))"

section \<open>Providers and telemetry\<close>

record 'w provider_of =
  pr_span :: "string \<Rightarrow> (string \<times> val) list \<Rightarrow> ('w, unit) io"
  pr_metric :: "string \<Rightarrow> rat \<Rightarrow> ('w, unit) io"
  pr_log :: "string \<Rightarrow> string \<Rightarrow> string \<Rightarrow> ('w, unit) io"

definition noop_provider :: "'w provider_of" where
  "noop_provider = \<lparr>pr_span = (\<lambda>_ _. retI ()), pr_metric = (\<lambda>_ _. retI ()), pr_log = (\<lambda>_ _ _. retI ())\<rparr>"

text \<open>
  The SDK as a record of its calls; the counters created so far are the provider's state.
\<close>

record 'w otel_sdk =
  ot_span :: "string \<Rightarrow> (string \<times> val) list \<Rightarrow> ('w, unit) io"
  ot_event :: "string \<Rightarrow> string \<Rightarrow> string \<Rightarrow> ('w, unit) io"
  ot_counter :: "string \<Rightarrow> ('w, unit) io"
  ot_add :: "string \<Rightarrow> rat \<Rightarrow> ('w, unit) io"

definition otel_metric :: "'w otel_sdk \<Rightarrow> string \<Rightarrow> rat \<Rightarrow> ('w \<times> string list, unit) io" where
  "otel_metric sdk name v = (\<lambda>(w, counters).
     bindI (if name \<in> set counters then retI ()
            else bindI (onW (ot_counter sdk name)) (\<lambda>_. onU (\<lambda>cs. cs @ [name]))) (\<lambda>_.
     onW (ot_add sdk name v)) (w, counters))"

definition otel_provider :: "'w otel_sdk \<Rightarrow> ('w \<times> string list) provider_of" where
  "otel_provider sdk = \<lparr>pr_span = (\<lambda>name attributes. onW (ot_span sdk name attributes)),
     pr_metric = otel_metric sdk,
     pr_log = (\<lambda>name sev body. onW (ot_event sdk name sev body))\<rparr>"

text \<open>\<open>sdk\<close> is \<open>None\<close> when the import or the construction fails.\<close>

definition get_provider :: "'w otel_sdk option \<Rightarrow> ('w \<times> string list) provider_of" where
  "get_provider sdk = (case sdk of None \<Rightarrow> noop_provider | Some s \<Rightarrow> otel_provider s)"

definition count_tasks :: "string \<Rightarrow> val list \<Rightarrow> nat res" where
  "count_tasks st tasks = bindR (mapR (\<lambda>t. get t ''status'') tasks)
     (\<lambda>ss. Inr (length (filter (\<lambda>s. py_eq s (VStr st)) ss)))"

definition emit_run_telemetry :: "'w provider_of \<Rightarrow> val \<Rightarrow> ('w, unit) io" where
  "emit_run_telemetry p document =
     bindI (liftI (bindR (get_or document ''task_ledger'' (VList [])) iter)) (\<lambda>tasks.
     bindI (liftI (count_tasks ''completed'' tasks)) (\<lambda>completed.
     bindI (liftI (count_tasks ''blocked'' tasks)) (\<lambda>blocked.
     bindI (pr_metric p ''iplan.tasks.total'' (of_nat (length tasks))) (\<lambda>_.
     bindI (pr_metric p ''iplan.tasks.completed'' (of_nat completed)) (\<lambda>_.
     pr_metric p ''iplan.tasks.blocked'' (of_nat blocked))))))"

section \<open>Probes\<close>

definition probe_paths :: "val \<Rightarrow> string list res" where
  "probe_paths manifest =
     bindR (get_or manifest ''probes'' (VDict [])) (\<lambda>probes.
     bindR (dict_of probes) (\<lambda>kvs.
     Inr (concat (map (\<lambda>kv. case snd kv of VStr s \<Rightarrow> [s] | _ \<Rightarrow> []) kvs))))"

text \<open>The answer to a GET: the status and the health document when the path is a probe.\<close>

definition probe_get :: "string list \<Rightarrow> ('w, val) io option \<Rightarrow> string \<Rightarrow> ('w, int \<times> val option) io" where
  "probe_get paths health path =
     (if path \<in> set paths
      then bindI (case health of Some h \<Rightarrow> h | None \<Rightarrow> retI (VDict [(''status'', VStr ''ok'')])) (\<lambda>b. retI (200, Some b))
      else retI (404, None))"

end
