(* ===== verification/Control.thy ===== *)
theory Control
  imports LoopFacts
begin

text \<open>
  Operator control: role-based authorization (\<open>security/authz.py\<close>) and the resolution of
  blockers (\<open>orchestrator/control.py\<close>).
\<close>

section \<open>Authorization\<close>

definition ROLE_ACTIONS :: "(string \<times> string list) list" where
  "ROLE_ACTIONS = [(''agent'', [''run'', ''record'', ''edit'']),
     (''operator'', [''run'', ''record'', ''edit'', ''land'', ''approve'', ''override''])]"

record verdict =
  v_allowed :: bool
  v_reason :: string

definition mk_verdict :: "bool \<Rightarrow> string \<Rightarrow> verdict" where
  "mk_verdict b r = \<lparr>v_allowed = b, v_reason = r\<rparr>"

text \<open>A role that is not a string is not a key; an unhashable one raises.\<close>

definition authorize :: "val \<Rightarrow> string \<Rightarrow> verdict res" where
  "authorize actor action =
     bindR (get actor ''role'') (\<lambda>role.
     if \<not> hashable role then Inl TypeError else
     case role of
       VStr r \<Rightarrow> (case map_of ROLE_ACTIONS r of
           None \<Rightarrow> Inr (mk_verdict False ''AUTHZ.UNKNOWN_ROLE'')
         | Some actions \<Rightarrow> if action \<in> set actions then Inr (mk_verdict True ''AUTHZ.OK'')
             else Inr (mk_verdict False ''AUTHZ.ROLE_FORBIDDEN''))
     | _ \<Rightarrow> Inr (mk_verdict False ''AUTHZ.UNKNOWN_ROLE''))"

lemma authorize_operator:
  "get actor ''role'' = Inr (VStr ''operator'') \<Longrightarrow> authorize actor a = Inr (if
     a \<in> {''run'', ''record'', ''edit'', ''land'', ''approve'', ''override''}
     then mk_verdict True ''AUTHZ.OK'' else mk_verdict False ''AUTHZ.ROLE_FORBIDDEN'')"
  by (simp add: authorize_def ROLE_ACTIONS_def)

definition permitted :: "val \<Rightarrow> string \<Rightarrow> bool" where
  "permitted actor a \<longleftrightarrow> (\<exists>kvs r acts. actor = VDict kvs \<and> dget kvs ''role'' = VStr r
     \<and> map_of ROLE_ACTIONS r = Some acts \<and> a \<in> set acts)"

lemma authorize_allowed:
  assumes "authorize actor a = Inr v"
  shows "v_allowed v \<longleftrightarrow> permitted actor a"
proof -
  from assms obtain kvs where k: "actor = VDict kvs" by (auto simp: authorize_def bindR_Inr_iff get_Inr_iff)
  show ?thesis
  proof (cases "dget kvs ''role''")
    case (VStr r)
    with assms k show ?thesis
      by (cases "map_of ROLE_ACTIONS r") (auto simp: authorize_def permitted_def mk_verdict_def split: if_splits)
  qed (use assms k in \<open>auto simp: authorize_def permitted_def mk_verdict_def\<close>)
qed

lemma permitted_operator_only:
  assumes "permitted actor a" and "a \<in> {''land'', ''approve'', ''override''}"
  shows "get actor ''role'' = Inr (VStr ''operator'')"
proof -
  from assms(1) obtain kvs r acts where *: "actor = VDict kvs" "dget kvs ''role'' = VStr r"
    "map_of ROLE_ACTIONS r = Some acts" "a \<in> set acts" unfolding permitted_def by blast
  from *(3) have "(r, acts) \<in> set ROLE_ACTIONS" by (rule map_of_SomeD)
  with *(4) assms(2) have "r = ''operator''" by (auto simp: ROLE_ACTIONS_def)
  with * show ?thesis by simp
qed

section \<open>Resolving a blocker\<close>

definition find_blocker :: "string \<Rightarrow> ledger \<Rightarrow> blocker option" where
  "find_blocker bid l = find (\<lambda>b. blocker_id b = bid) (blockers l)"

definition add_resolution :: "string \<Rightarrow> string \<Rightarrow> val \<Rightarrow> string \<Rightarrow> ledger \<Rightarrow> ledger" where
  "add_resolution bid decision actor_id stamp l = l\<lparr>resolutions := Some
     ((case resolutions l of None \<Rightarrow> [] | Some rs \<Rightarrow> rs)
       @ [\<lparr>rs_blocker_id = bid, rs_decision = decision, rs_actor = actor_id, rs_at = stamp\<rparr>])\<rparr>"

text \<open>Every entry of the task is reset, not only the first.\<close>

definition reopen_task :: "string \<Rightarrow> string \<Rightarrow> ledger \<Rightarrow> ledger" where
  "reopen_task bid task_id l = l\<lparr>blockers := filter (\<lambda>b. blocker_id b \<noteq> bid) (blockers l),
     task_ledger := map (\<lambda>e. if is_entry task_id e
        then e\<lparr>te_status := ''pending'', te_blocked_reason := None\<rparr> else e) (task_ledger l)\<rparr>"

text \<open>The event of a resolution; its subject is \<open>None\<close> when no blocker was found.\<close>

definition resolution_event :: "(string \<times> val) list \<Rightarrow> string option \<Rightarrow> string \<Rightarrow> (string \<times> val) list" where
  "resolution_event scope task_id stamp = [
     (''event_type'', VStr ''resolution''),
     (''subject_id'', opt_str task_id),
     (''at'', VStr stamp),
     (''touched_paths'', VList []),
     (''client_id'', dget scope ''client_id''),
     (''project_id'', dget scope ''project_id'')]"

definition resolve_blocker ::
  "digest \<Rightarrow> ledger \<Rightarrow> string \<Rightarrow> string \<Rightarrow> val \<Rightarrow> string \<Rightarrow> ledger res" where
  "resolve_blocker H l bid decision actor stamp =
     bindR (authorize actor (if decision = ''override'' then ''override'' else ''approve'')) (\<lambda>verdict.
     if \<not> v_allowed verdict
     then Inl (PermissionError (''authz denied '' @ decision @ '': '' @ v_reason verdict)) else
     let blocker = find_blocker bid l; task_id = map_option b_task_id blocker in
     bindR (get actor ''id'') (\<lambda>actor_id.
     let l = add_resolution bid decision actor_id stamp l in
     let l = (case task_id of
         Some t \<Rightarrow> if decision = ''override'' then reopen_task bid t l else l | None \<Rightarrow> l) in
     log_event H (resolution_event (isolation_scope l) task_id stamp) l))"

section \<open>What a resolution changes\<close>

lemma add_resolution_fields [simp]:
  "task_ledger (add_resolution b d a t l) = task_ledger l" "blockers (add_resolution b d a t l) = blockers l"
  "execution_log (add_resolution b d a t l) = execution_log l" "isolation_scope (add_resolution b d a t l) = isolation_scope l"
  "agent_leases (add_resolution b d a t l) = agent_leases l" "saga_journal (add_resolution b d a t l) = saga_journal l"
  "execution_history (add_resolution b d a t l) = execution_history l"
  by (simp_all add: add_resolution_def)

lemma reopen_fields [simp]:
  "execution_log (reopen_task b t l) = execution_log l" "isolation_scope (reopen_task b t l) = isolation_scope l"
  "agent_leases (reopen_task b t l) = agent_leases l" "saga_journal (reopen_task b t l) = saga_journal l"
  "execution_history (reopen_task b t l) = execution_history l" "resolutions (reopen_task b t l) = resolutions l"
  "blockers (reopen_task b t l) = filter (\<lambda>b'. blocker_id b' \<noteq> b) (blockers l)"
  by (simp_all add: reopen_task_def)

definition resolved :: "string \<Rightarrow> string \<Rightarrow> ledger \<Rightarrow> ledger" where
  "resolved bid decision l = (case find_blocker bid l of
      Some b \<Rightarrow> if decision = ''override'' then reopen_task bid (b_task_id b) l else l | None \<Rightarrow> l)"

lemma resolved_fields [simp]:
  "execution_log (resolved b d l) = execution_log l" "isolation_scope (resolved b d l) = isolation_scope l"
  "agent_leases (resolved b d l) = agent_leases l" "saga_journal (resolved b d l) = saga_journal l"
  "execution_history (resolved b d l) = execution_history l" "resolutions (resolved b d l) = resolutions l"
  by (simp_all add: resolved_def split: option.splits)

lemma resolve_blocker_Inr:
  assumes "resolve_blocker H l bid decision actor stamp = Inr l'"
  obtains v actor_id e where
    "authorize actor (if decision = ''override'' then ''override'' else ''approve'') = Inr v" "v_allowed v"
    "get actor ''id'' = Inr actor_id"
    "chain_event H (execution_log l) (resolution_event (isolation_scope l)
       (map_option b_task_id (find_blocker bid l)) stamp) = Inr e"
    "l' = (resolved bid decision (add_resolution bid decision actor_id stamp l))\<lparr>execution_log := execution_log l @ [e]\<rparr>"
proof -
  from assms obtain v actor_id where v:
    "authorize actor (if decision = ''override'' then ''override'' else ''approve'') = Inr v" "v_allowed v"
    "get actor ''id'' = Inr actor_id"
    by (auto simp: resolve_blocker_def bindR_Inr_iff Let_def split: if_splits)
  have f: "find_blocker bid (add_resolution b d a t l) = find_blocker bid l" for b d a t
    by (simp add: find_blocker_def)
  have "log_event H (resolution_event (isolation_scope l) (map_option b_task_id (find_blocker bid l)) stamp)
      (resolved bid decision (add_resolution bid decision actor_id stamp l)) = Inr l'"
    using assms v
    by (cases "find_blocker bid l"; cases "decision = ''override''") (simp_all add: resolve_blocker_def Let_def resolved_def f)
  then obtain e where "chain_event H (execution_log l) (resolution_event (isolation_scope l)
       (map_option b_task_id (find_blocker bid l)) stamp) = Inr e"
    "l' = (resolved bid decision (add_resolution bid decision actor_id stamp l))\<lparr>execution_log := execution_log l @ [e]\<rparr>"
    unfolding log_event_Inr resolved_fields add_resolution_fields by blast
  with v that show ?thesis by blast
qed

lemma resolve_blocker_log:
  assumes "resolve_blocker H l bid decision actor stamp = Inr l'"
    and "verify_chain H (execution_log l) = Inr True"
  shows "verify_chain H (execution_log l') = Inr True" and "length (execution_log l') = Suc (length (execution_log l))"
proof -
  obtain e where e: "chain_event H (execution_log l) (resolution_event (isolation_scope l)
       (map_option b_task_id (find_blocker bid l)) stamp) = Inr e" "execution_log l' = execution_log l @ [e]"
    by (rule resolve_blocker_Inr [OF assms(1)]) auto
  then have "append_log H (execution_log l) (resolution_event (isolation_scope l)
       (map_option b_task_id (find_blocker bid l)) stamp) = Inr (execution_log l')"
    by (simp add: append_log_Inr_iff)
  with assms(2) show "verify_chain H (execution_log l') = Inr True" by (rule verify_chain_append_log)
  show "length (execution_log l') = Suc (length (execution_log l))" using e by simp
qed

end
