(* ===== verification/Chain.thy ===== *)
theory Chain
  imports Loop
begin

text \<open>
  Chains of IPLANs (\<open>orchestrator/chain.py\<close>): the order of a chain, the chain ledger and
  the driver that runs each IPLAN whose upstreams are reconciled.
\<close>

section \<open>The order of a chain\<close>

definition chain_deps :: "val list \<Rightarrow> (string \<times> val list) list res" where
  "chain_deps chain = foldR (\<lambda>m n.
     bindR (item n ''iplan_id'') (\<lambda>i.
     bindR (bindR (get_or n ''depends_on'' (VList [])) iter) (\<lambda>ds.
     Inr (AList.update (py_str i) (map (\<lambda>d. VStr (py_str d)) ds) m)))) [] chain"

definition chain_keys :: "val list \<Rightarrow> (string \<times> val) list res" where
  "chain_keys chain = foldR (\<lambda>m n.
     bindR (item n ''iplan_id'') (\<lambda>i.
     bindR (get_or n ''order'' (VInt 0)) (\<lambda>rank. Inr (AList.update (py_str i) rank m)))) [] chain"

text \<open>\<open>(order, id)\<close> tuples compare by the first component that differs.\<close>

definition key_lt :: "(string \<times> val) list \<Rightarrow> string \<Rightarrow> string \<Rightarrow> bool res" where
  "key_lt keys a b =
     (case (map_of keys a, map_of keys b) of
        (Some x, Some y) \<Rightarrow> if py_eq x y then Inr (a < b) else py_lt x y
      | _ \<Rightarrow> Inl (KeyError a))"

definition chain_order :: "val list \<Rightarrow> string list res" where
  "chain_order chain =
     bindR (chain_deps chain) (\<lambda>deps.
     bindR (chain_keys chain) (\<lambda>keys.
     order_loop (key_lt keys) (deps_fun deps) (map fst deps) []))"

section \<open>The chain ledger\<close>

definition node_id :: "val \<Rightarrow> string res" where
  "node_id n = bindR (item n ''iplan_id'') (\<lambda>i. Inr (py_str i))"

definition is_reconciled :: "(string \<times> bool) list \<Rightarrow> string \<Rightarrow> bool" where
  "is_reconciled done_map i = (case map_of done_map i of Some b \<Rightarrow> b | None \<Rightarrow> False)"

definition mark_node :: "(string \<times> bool) list \<Rightarrow> val \<Rightarrow> val res" where
  "mark_node done_map n =
     bindR (dict_of n) (\<lambda>kvs. bindR (node_id n) (\<lambda>i.
     Inr (VDict (AList.update ''reconciled'' (VBool (is_reconciled done_map i)) kvs))))"

definition chain_nodes :: "val \<Rightarrow> val list res" where
  "chain_nodes chain = bindR (item chain ''iplan_chain'') iter"

definition build_chain_ledger :: "val \<Rightarrow> (string \<times> bool) list \<Rightarrow> val res" where
  "build_chain_ledger chain done_map =
     bindR (chain_nodes chain) (\<lambda>ns.
     bindR (mapR (mark_node done_map) ns) (\<lambda>nodes.
     bindR (allR (\<lambda>n. bindR (node_id n) (\<lambda>i. Inr (is_reconciled done_map i))) ns) (\<lambda>allowed.
     bindR (get_or chain ''chain_id'' (VStr ''CHAIN'')) (\<lambda>cid.
     bindR (chain_order ns) (\<lambda>order.
     bindR (get_or chain ''execution_tiers'' (VList [])) (\<lambda>tiers.
     bindR (get_or chain ''cross_plan_leases'' (VList [])) (\<lambda>ls.
     Inr (VDict [
       (''metadata'', VDict [(''schema_version'', VStr ''1.0''),
          (''document_type'', VStr ''iplan-chain-ledger''), (''framework'', VStr ''iops'')]),
       (''chain_control'', VDict [(''chain_id'', cid),
          (''status'', VStr (if allowed then ''completed'' else ''blocked''))]),
       (''iplan_chain'', VList nodes),
       (''execution_order'', strs order),
       (''execution_tiers'', tiers),
       (''cross_plan_leases'', ls),
       (''chain_gate_results'', VList []),
       (''chain_reconciliation'', VDict [(''allowed'', VBool allowed)])]))))))))"

section \<open>Driving a chain\<close>

text \<open>
  The executors are a function of the IPLAN id; the clock, the ids and \<open>sleep\<close> are shared.
  A sub-run gets no control flag and no retries (the defaults of \<open>run\<close>).
\<close>

record 'w executor =
  x_execute :: "val \<Rightarrow> (string \<times> val) list \<Rightarrow> ('w, exec_result) io"
  x_compensate :: "string list \<Rightarrow> ('w, unit) io"

definition sub_env :: "'w env \<Rightarrow> 'w executor \<Rightarrow> 'w env" where
  "sub_env env x = env\<lparr>control := retI ''running'', execute := x_execute x, compensate := x_compensate x\<rparr>"

record chain_state =
  cs_reconciled :: "(string \<times> bool) list"
  cs_ledgers :: "(string \<times> ledger) list"

definition deps_reconciled :: "(string \<times> bool) list \<Rightarrow> val \<Rightarrow> bool res" where
  "deps_reconciled done_map node =
     bindR (bindR (get_or node ''depends_on'' (VList [])) iter) (\<lambda>ds.
     Inr (\<forall>d \<in> set ds. is_reconciled done_map (py_str d)))"

fun chain_loop ::
  "digest \<Rightarrow> string \<Rightarrow> 'w env \<Rightarrow> (string \<Rightarrow> 'w executor) \<Rightarrow> val \<Rightarrow> (string \<times> val) list \<Rightarrow> (string \<times> val) list
     \<Rightarrow> string list \<Rightarrow> chain_state \<Rightarrow> ('w, chain_state) io" where
  "chain_loop H agent env executor_for gate nodes iplans [] s = retI s"
| "chain_loop H agent env executor_for gate nodes iplans (i # rest) s =
     bindI (control env) (\<lambda>flag.
     if stops flag then retI s else
     bindI (liftI (lookup_node nodes i)) (\<lambda>node.
     bindI (liftI (deps_reconciled (cs_reconciled s) node)) (\<lambda>ok.
     if \<not> ok then chain_loop H agent env executor_for gate nodes iplans rest
            (s\<lparr>cs_reconciled := AList.update i False (cs_reconciled s)\<rparr>)
     else
     bindI (liftI (lookup_node iplans i)) (\<lambda>manifest.
     bindI (run H agent (sub_env env (executor_for i)) 0 0 gate manifest) (\<lambda>result.
     chain_loop H agent env executor_for gate nodes iplans rest
       (s\<lparr>cs_ledgers := AList.update i (rr_ledger result) (cs_ledgers s),
          cs_reconciled := AList.update i (r_allowed (reconciled (rr_ledger result))) (cs_reconciled s)\<rparr>))))))"

declare chain_loop.simps [simp del]

definition chain_by_id :: "val list \<Rightarrow> (string \<times> val) list res" where
  "chain_by_id ns = foldR (\<lambda>m n. bindR (node_id n) (\<lambda>i. Inr (AList.update i n m))) [] ns"

record chain_result =
  cr_ledger :: val
  cr_sub_ledgers :: "(string \<times> ledger) list"

definition run_chain ::
  "digest \<Rightarrow> string \<Rightarrow> 'w env \<Rightarrow> (string \<Rightarrow> 'w executor) \<Rightarrow> val \<Rightarrow> val \<Rightarrow> (string \<times> val) list
     \<Rightarrow> ('w, chain_result) io" where
  "run_chain H agent env executor_for gate chain iplans =
     bindI (liftI (chain_nodes chain)) (\<lambda>ns.
     bindI (liftI (chain_by_id ns)) (\<lambda>nodes.
     bindI (liftI (chain_order ns)) (\<lambda>order.
     bindI (chain_loop H agent env executor_for gate nodes iplans order
              \<lparr>cs_reconciled = [], cs_ledgers = []\<rparr>) (\<lambda>s.
     liftI (bindR (build_chain_ledger chain (cs_reconciled s)) (\<lambda>l.
       Inr \<lparr>cr_ledger = l, cr_sub_ledgers = cs_ledgers s\<rparr>))))))"

section \<open>The order is a permutation that respects the dependencies\<close>

lemma chain_order_distinct:
  assumes "chain_order ns = Inr order"
  shows "distinct order"
  using assms by (auto simp: chain_order_def bindR_Inr_iff dest: order_loop_perm)

section \<open>What a chain run guarantees\<close>

definition chain_deps_of :: "(string \<times> val) list \<Rightarrow> string \<Rightarrow> string list" where
  "chain_deps_of nodes i = (case map_of nodes i of None \<Rightarrow> [] | Some n \<Rightarrow>
     (case bindR (get_or n ''depends_on'' (VList [])) iter of Inr ds \<Rightarrow> map py_str ds | Inl _ \<Rightarrow> []))"

text \<open>
  The state between two iterations: an IPLAN has a ledger exactly when it was run, it is
  reconciled exactly when that ledger is, and all its dependencies were reconciled then.
\<close>

definition chain_inv :: "(string \<times> val) list \<Rightarrow> chain_state \<Rightarrow> bool" where
  "chain_inv nodes s \<longleftrightarrow>
     (\<forall>i. is_reconciled (cs_reconciled s) i \<longleftrightarrow>
        (case map_of (cs_ledgers s) i of None \<Rightarrow> False | Some l \<Rightarrow> r_allowed (reconciled l)))
   \<and> (\<forall>i \<in> dom (map_of (cs_ledgers s)). \<forall>d \<in> set (chain_deps_of nodes i). is_reconciled (cs_reconciled s) d)
   \<and> dom (map_of (cs_ledgers s)) \<subseteq> dom (map_of (cs_reconciled s))"

lemma is_reconciled_update:
  "is_reconciled (AList.update i b m) j = (if j = i then b else is_reconciled m j)"
  by (simp add: is_reconciled_def)

text \<open>What one IPLAN makes the loop do, when the loop returns.\<close>

lemma chain_loop_cases [consumes 1, case_names stopped held ran]:
  assumes "chain_loop H agent env executor_for gate nodes iplans (i # rest) s w = (Inr s', w')"
    and stopped: "\<And>flag. control env w = (Inr flag, w') \<Longrightarrow> stops flag \<Longrightarrow> s' = s \<Longrightarrow> P"
    and held: "\<And>node w1. lookup_node nodes i = Inr node \<Longrightarrow> deps_reconciled (cs_reconciled s) node = Inr False \<Longrightarrow>
      chain_loop H agent env executor_for gate nodes iplans rest
        (s\<lparr>cs_reconciled := AList.update i False (cs_reconciled s)\<rparr>) w1 = (Inr s', w') \<Longrightarrow> P"
    and ran: "\<And>node manifest result w1 w2. lookup_node nodes i = Inr node \<Longrightarrow>
      deps_reconciled (cs_reconciled s) node = Inr True \<Longrightarrow> lookup_node iplans i = Inr manifest \<Longrightarrow>
      run H agent (sub_env env (executor_for i)) 0 0 gate manifest w1 = (Inr result, w2) \<Longrightarrow>
      chain_loop H agent env executor_for gate nodes iplans rest
        (s\<lparr>cs_ledgers := AList.update i (rr_ledger result) (cs_ledgers s),
           cs_reconciled := AList.update i (r_allowed (reconciled (rr_ledger result))) (cs_reconciled s)\<rparr>) w2 = (Inr s', w') \<Longrightarrow> P"
  shows P
proof -
  obtain flag w1 where flag: "control env w = (Inr flag, w1)"
    using assms(1) unfolding chain_loop.simps by (auto simp: bindI_Inr_iff)
  note loop = assms(1) [unfolded chain_loop.simps bindI_app [of "control env"] flag prod.case sum.case]
  show P
  proof (cases "stops flag")
    case True
    with loop flag show P by (intro stopped [of flag]) auto
  next
    case False
    note loop = loop [unfolded if_not_P [OF False]]
    obtain node where node: "lookup_node nodes i = Inr node" using loop by (auto simp: bindI_Inr_iff)
    note loop = loop [unfolded node bindI_lift]
    obtain ok where ok: "deps_reconciled (cs_reconciled s) node = Inr ok" using loop by (auto simp: bindI_Inr_iff)
    note loop = loop [unfolded ok bindI_lift]
    show P
    proof (cases ok)
      case False
      with loop ok show P by (intro held [OF node]) simp_all
    next
      case True
      then have yes: "deps_reconciled (cs_reconciled s) node = Inr True" using ok by simp
      have "\<not> \<not> ok" using True by simp
      from loop [unfolded if_not_P [OF this] bindI_Inr_iff liftI_app prod.inject] show P
        using ran [OF node yes] by blast
    qed
  qed
qed

text \<open>The invariant after an IPLAN that is held back, and after one that was run.\<close>

lemma chain_inv_held:
  assumes "chain_inv nodes s" "i \<notin> dom (map_of (cs_reconciled s))"
  shows "chain_inv nodes (s\<lparr>cs_reconciled := AList.update i False (cs_reconciled s)\<rparr>)"
proof -
  let ?s = "s\<lparr>cs_reconciled := AList.update i False (cs_reconciled s)\<rparr>"
  have "\<not> is_reconciled (cs_reconciled s) i" using assms(2) by (auto simp: is_reconciled_def split: option.splits)
  then have same: "is_reconciled (cs_reconciled ?s) j = is_reconciled (cs_reconciled s) j" for j
    by (simp add: is_reconciled_update)
  have "dom (map_of (cs_ledgers s)) \<subseteq> dom (map_of (cs_reconciled ?s))"
    using assms(1) unfolding chain_inv_def by (simp add: subset_insertI2)
  moreover have same_l: "cs_ledgers ?s = cs_ledgers s" by simp
  ultimately show ?thesis using assms(1) unfolding chain_inv_def same same_l by blast
qed

lemma chain_inv_ran:
  assumes inv: "chain_inv nodes s" and new: "i \<notin> dom (map_of (cs_reconciled s))"
    and node: "lookup_node nodes i = Inr node" and ok: "deps_reconciled (cs_reconciled s) node = Inr True"
  shows "chain_inv nodes (s\<lparr>cs_ledgers := AList.update i l (cs_ledgers s),
            cs_reconciled := AList.update i (r_allowed (reconciled l)) (cs_reconciled s)\<rparr>)" (is "chain_inv nodes ?s")
proof -
  have "\<not> is_reconciled (cs_reconciled s) i" using new by (auto simp: is_reconciled_def split: option.splits)
  then have mono: "is_reconciled (cs_reconciled s) j \<Longrightarrow> is_reconciled (cs_reconciled ?s) j" for j
    by (cases "j = i") (simp_all add: is_reconciled_update)
  have nd: "map_of nodes i = Some node" using node by (simp add: lookup_node_def split: option.splits)
  have "\<forall>d \<in> set (chain_deps_of nodes i). is_reconciled (cs_reconciled s) d"
    using ok by (auto simp: deps_reconciled_def chain_deps_of_def nd bindR_Inr_iff split: sum.splits)
  moreover have "\<forall>j \<in> dom (map_of (cs_ledgers s)). \<forall>d \<in> set (chain_deps_of nodes j). is_reconciled (cs_reconciled s) d"
    using inv unfolding chain_inv_def by blast
  moreover have "dom (map_of (cs_ledgers ?s)) = insert i (dom (map_of (cs_ledgers s)))" by simp
  ultimately have "\<forall>j \<in> dom (map_of (cs_ledgers ?s)). \<forall>d \<in> set (chain_deps_of nodes j). is_reconciled (cs_reconciled ?s) d"
    using mono by (metis insertE)
  moreover have "is_reconciled (cs_reconciled ?s) j \<longleftrightarrow>
      (case map_of (cs_ledgers ?s) j of None \<Rightarrow> False | Some l \<Rightarrow> r_allowed (reconciled l))" for j
    using inv by (simp add: is_reconciled_update chain_inv_def)
  moreover have "dom (map_of (cs_ledgers s)) \<subseteq> dom (map_of (cs_reconciled s))" using inv by (simp add: chain_inv_def)
  then have "dom (map_of (cs_ledgers ?s)) \<subseteq> dom (map_of (cs_reconciled ?s))" by (simp add: insert_mono subset_insertI2)
  ultimately show ?thesis unfolding chain_inv_def by blast
qed

lemma chain_loop_inv:
  assumes "chain_loop H agent env executor_for gate nodes iplans order s w = (Inr s', w')"
    and "chain_inv nodes s" and "distinct order" and "set order \<inter> dom (map_of (cs_reconciled s)) = {}"
  shows "chain_inv nodes s' \<and> dom (map_of (cs_reconciled s')) \<subseteq> set order \<union> dom (map_of (cs_reconciled s))"
  using assms
proof (induction order arbitrary: s w)
  case Nil
  then show ?case by (simp add: chain_loop.simps)
next
  case (Cons i rest)
  have new: "i \<notin> dom (map_of (cs_reconciled s))" using Cons.prems(4) by simp
  have rest: "distinct rest" "i \<notin> set rest" using Cons.prems(3) by simp_all
  have disj: "set rest \<inter> dom (map_of (AList.update i b (cs_reconciled s))) = {}" for b
    using Cons.prems(4) rest(2) by auto
  from Cons.prems(1) show ?case
  proof (cases rule: chain_loop_cases)
    case (stopped flag)
    with Cons.prems(2) show ?thesis by auto
  next
    case (held node w1)
    from Cons.IH [OF held(3) chain_inv_held [OF Cons.prems(2) new] rest(1)] disj
    show ?thesis by (auto simp: dom_def split: if_splits)
  next
    case (ran node manifest result w1 w2)
    from Cons.IH [OF ran(5) chain_inv_ran [OF Cons.prems(2) new ran(1,2)] rest(1)] disj
    show ?thesis by (auto simp: dom_def split: if_splits)
  qed
qed

end
