(* ===== verification/Handover.thy ===== *)
theory Handover
  imports GateRun DocumentRules
begin

text \<open>
  What leaves a finished run: the handover receipt (\<open>handover/receipt.py\<close>) and the audit
  report over two ledgers (\<open>audit/report.py\<close>). They read ledgers as documents, so they are over
  \<open>val\<close>.
\<close>

section \<open>The receipt\<close>

text \<open>\<open>commits[-1]["sha"]\<close> for a truthy \<open>commits\<close>.\<close>

definition last_item :: "val \<Rightarrow> val res" where
  "last_item v = (case v of VList xs \<Rightarrow> if xs = [] then Inl IndexError else Inr (last xs)
      | VDict _ \<Rightarrow> Inl (KeyError ''-1'') | _ \<Rightarrow> Inl TypeError)"

definition open_status :: "val \<Rightarrow> bool res" where
  "open_status t = bindR (get t ''status'') (\<lambda>s. Inr (py_eq s (VStr ''pending'') \<or> py_eq s (VStr ''in_progress'')))"

definition receipt_status :: "bool \<Rightarrow> bool \<Rightarrow> bool \<Rightarrow> string" where
  "receipt_status gate_passed rec_ok has_open =
     (if gate_passed \<and> rec_ok \<and> \<not> has_open then ''completed'' else ''aborted'')"

definition receipt_commit :: "val \<Rightarrow> val res" where
  "receipt_commit document =
     bindR (get_or document ''vcs'' (VDict [])) (\<lambda>v.
     bindR (get_or v ''commits'' (VList [])) (\<lambda>commits.
     if \<not> truthy commits then Inr VNone else
     bindR (last_item commits) (\<lambda>c.
     bindR (item c ''sha'') (\<lambda>sha.
     bindR (get v ''branch'') (\<lambda>branch.
     Inr (VDict [(''sha'', sha), (''branch'', branch)]))))))"

text \<open>Everything but the clock reading, which is the last field evaluated.\<close>

definition receipt_at :: "val \<Rightarrow> gate_result \<Rightarrow> val \<Rightarrow> (string \<Rightarrow> val) res" where
  "receipt_at document gate_result audit_report =
     bindR (get_or document ''ledger_control'' (VDict [])) (\<lambda>control.
     bindR (get control ''ledger_id'') (\<lambda>ledger_ref.
     bindR (get_or document ''task_ledger'' (VList [])) (\<lambda>tasks.
     bindR (iter tasks) (\<lambda>ts.
     bindR (anyR open_status ts) (\<lambda>has_open.
     bindR (bindR (get_or document ''reconciliation'' (VDict [])) (\<lambda>rec. get rec ''allowed'')) (\<lambda>allowed.
     let rec_ok = truthy allowed; gate_passed = (g_status gate_result = ''passed'') in
     bindR (receipt_commit document) (\<lambda>commit.
     bindR (get control ''source_iplan'') (\<lambda>src.
     bindR (get control ''source_iplan_version'') (\<lambda>version.
     bindR (bindR (get_or (or_else audit_report (VDict [])) ''audit_control'' (VDict [])) (\<lambda>ac. get ac ''report_id'')) (\<lambda>report.
     Inr (\<lambda>created. VDict [
       (''metadata'', VDict [(''schema_version'', VStr ''1.0''),
          (''document_type'', VStr ''iplan-handover-receipt''), (''framework'', VStr ''iops'')]),
       (''handover_control'', VDict [
          (''receipt_id'', VStr (''RECEIPT-'' @ py_str ledger_ref)),
          (''source_iplan'', src),
          (''source_iplan_version'', version),
          (''ledger_ref'', ledger_ref),
          (''gate_status'', VStr (if gate_passed then ''passed'' else ''failed'')),
          (''audit_report_ref'', report),
          (''commit'', commit),
          (''created_at'', VStr created)]),
       (''result'', VDict [(''status'', VStr (receipt_status gate_passed rec_ok has_open)),
          (''reconciled'', VBool rec_ok)])])))))))))))"

definition build_handover_receipt ::
  "('w, string) io \<Rightarrow> val \<Rightarrow> gate_result \<Rightarrow> val \<Rightarrow> ('w, val) io" where
  "build_handover_receipt clk document gate_result audit_report =
     bindI (liftI (receipt_at document gate_result audit_report)) (\<lambda>f.
     bindI clk (\<lambda>created. retI (f created)))"

section \<open>The audit report\<close>

definition audit_scope :: "val \<Rightarrow> val res" where
  "audit_scope document =
     bindR (get_or document ''ledger_control'' (VDict [])) (\<lambda>control.
     bindR (dict_of control) (\<lambda>kvs.
     Inr (VDict [(''ledger_id'', dget kvs ''ledger_id''), (''source_iplan'', dget kvs ''source_iplan''),
       (''source_iplan_version'', dget kvs ''source_iplan_version''),
       (''source_iplan_checksum'', dget kvs ''source_iplan_checksum'')])))"

definition task_ids :: "val \<Rightarrow> string list res" where
  "task_ids document =
     bindR (bindR (get_or document ''task_ledger'' (VList [])) iter)
       (mapR (\<lambda>t. bindR (get t ''task_id'') (\<lambda>i. Inr (py_str i))))"

text \<open>\<open>sorted(a - b)\<close> for the sets of two lists.\<close>

definition sorted_diff :: "string list \<Rightarrow> string list \<Rightarrow> string list" where
  "sorted_diff xs ys = sort (remdups (filter (\<lambda>x. x \<notin> set ys) xs))"

definition build_audit_report :: "val \<Rightarrow> val \<Rightarrow> val res" where
  "build_audit_report baseline comparison =
     bindR (task_ids baseline) (\<lambda>base_tasks.
     bindR (task_ids comparison) (\<lambda>comp_tasks.
     let added = sorted_diff comp_tasks base_tasks; removed = sorted_diff base_tasks comp_tasks in
     bindR (audit_scope baseline) (\<lambda>bs.
     bindR (audit_scope comparison) (\<lambda>cs.
     Inr (VDict [
       (''metadata'', VDict [(''schema_version'', VStr ''1.0''),
          (''document_type'', VStr ''iplan-audit-report''), (''framework'', VStr ''iops'')]),
       (''audit_control'', VDict [(''report_id'', VStr ''AUDIT-GEN''), (''status'', VStr ''draft'')]),
       (''version_scope'', VDict [(''baseline'', bs), (''comparison'', cs)]),
       (''execution_summary'', VDict [
          (''tasks_total'', VInt (int (card (set comp_tasks)))),
          (''tasks_added'', VInt (int (length added))),
          (''tasks_removed'', VInt (int (length removed)))]),
       (''change_report'', VDict [(''added_tasks'', strs added), (''removed_tasks'', strs removed),
          (''status_changes'', VList [])]),
       (''audit_findings'', VList []),
       (''recommendation'', VStr ''investigate'')])))))"

section \<open>Properties of the projections\<close>

lemma set_sorted_diff: "set (sorted_diff xs ys) = set xs - set ys"
  by (auto simp: sorted_diff_def)

lemma length_sorted_diff: "length (sorted_diff xs ys) = card (set xs - set ys)"
proof -
  have "distinct (sorted_diff xs ys)" by (simp add: sorted_diff_def)
  then show ?thesis by (metis distinct_card set_sorted_diff)
qed

lemma open_status_val: "open_status (task_val e) = Inr (is_open e)"
  by (auto simp: open_status_def get_task_val is_open_def)

lemma any_open: "anyR open_status (map task_val es) = Inr (\<exists>e \<in> set es. is_open e)"
  by (induction es) (auto simp: open_status_val)

definition landed_commit :: "ledger \<Rightarrow> val" where
  "landed_commit l = (case vcs l of None \<Rightarrow> VNone
     | Some v \<Rightarrow> if vcs_commits v = [] then VNone
        else VDict [(''sha'', VStr (c_sha (last (vcs_commits v)))), (''branch'', VStr (vcs_branch v))])"

lemma get_vcs_fields:
  "get_or (vcs_val v) ''commits'' d = Inr (VList (map commit_val (vcs_commits v)))"
  "get (vcs_val v) ''branch'' = Inr (VStr (vcs_branch v))"
  "item (commit_val c) ''sha'' = Inr (VStr (c_sha c))"
  by (simp_all add: vcs_val_def commit_val_def dget_def dget_or_def)

lemma receipt_commit_val: "receipt_commit (ledger_val l) = Inr (landed_commit l)"
proof (cases "vcs l")
  case None
  then show ?thesis by (simp add: receipt_commit_def get_ledger_val landed_commit_def dget_or_def)
next
  case (Some v)
  then show ?thesis
    by (cases "vcs_commits v = []")
      (simp_all add: receipt_commit_def get_ledger_val landed_commit_def get_vcs_fields last_item_def last_map)
qed

lemma get_control_fields:
  "get (control_val c) ''ledger_id'' = Inr (VStr (ledger_id c))"
  "get (control_val c) ''source_iplan'' = Inr (source_iplan c)"
  "get (control_val c) ''source_iplan_version'' = Inr (source_iplan_version c)"
  by (simp_all add: control_val_def dget_def)

text \<open>The receipt of the run loop's ledger, without an audit report.\<close>

definition run_receipt :: "ledger \<Rightarrow> gate_result \<Rightarrow> string \<Rightarrow> val" where
  "run_receipt l g created = VDict [
       (''metadata'', VDict [(''schema_version'', VStr ''1.0''),
          (''document_type'', VStr ''iplan-handover-receipt''), (''framework'', VStr ''iops'')]),
       (''handover_control'', VDict [
          (''receipt_id'', VStr (''RECEIPT-'' @ ledger_id (ledger_control l))),
          (''source_iplan'', source_iplan (ledger_control l)),
          (''source_iplan_version'', source_iplan_version (ledger_control l)),
          (''ledger_ref'', VStr (ledger_id (ledger_control l))),
          (''gate_status'', VStr (if g_status g = ''passed'' then ''passed'' else ''failed'')),
          (''audit_report_ref'', VNone),
          (''commit'', landed_commit l),
          (''created_at'', VStr created)]),
       (''result'', VDict [(''status'', VStr (receipt_status (g_status g = ''passed'') (r_allowed (reconciled l))
            (\<exists>e \<in> set (task_ledger l). is_open e))),
          (''reconciled'', VBool (r_allowed (reconciled l)))])]"

lemma receipt_at_val: "receipt_at (ledger_val l) g VNone = Inr (\<lambda>created. run_receipt l g created)"
  by (simp add: receipt_at_def get_ledger_val any_open get_reconciliation_val receipt_commit_val
      get_control_fields or_else_def dget_or_def dget_def run_receipt_def Let_def)

text \<open>A receipt that says completed passes its own validator.\<close>

lemma run_receipt_validates:
  assumes "truthy (source_iplan (ledger_control l))" and "ledger_id (ledger_control l) \<noteq> []"
  shows "validate_handover (run_receipt l g created) = Inr []"
proof -
  have s: "receipt_status a b c = ''completed'' \<longleftrightarrow> a \<and> b \<and> \<not> c" for a b c by (simp add: receipt_status_def)
  have v: "receipt_status a b c \<in> {''completed'', ''aborted''}" for a b c by (simp add: receipt_status_def)
  show ?thesis
    using assms v [of "g_status g = ''passed''" "r_allowed (reconciled l)" "\<exists>e \<in> set (task_ledger l). is_open e"]
    by (auto simp: validate_handover_def run_receipt_def dget_or_def dget_def emit_if_def in_set_def
        VALID_STATUS_def s receipt_status_def)
qed

end
