(* ===== verification/Engine.thy ===== *)
theory Engine
  imports Receiver Monitoring Control Chain Handover
begin

text \<open>
  The two engine adapters (\<open>engine.py\<close> of each platform). An engine is its name, its
  configuration, its clock and its monitoring provider; every method delegates to the
  components with the engine's configuration. A ledger the caller passes as a dict is the
  list of its entries; one that comes from the run loop is the \<open>ledger\<close> record.
\<close>

section \<open>An engine\<close>

record 'w engine =
  en_name :: string
  en_config :: config
  en_clock :: "('w, string) io"
  en_sleep :: "rat \<Rightarrow> ('w, unit) io"
  en_has_changes :: "string \<Rightarrow> ('w, bool) io"
  en_commit_all :: "string \<Rightarrow> string \<Rightarrow> string \<Rightarrow> ('w, string) io"
  en_provider :: "'w provider_of"

text \<open>The optional arguments of \<open>run\<close>, \<open>resume\<close> and \<open>run_chain\<close>.\<close>

record 'w call_args =
  ca_clock :: "('w, string) io"
  ca_ids :: "string \<Rightarrow> ('w, string) io"
  ca_sleep :: "(rat \<Rightarrow> ('w, unit) io) option"
  ca_max_retries :: "int option"
  ca_control :: "('w, string) io option"

definition opt_else :: "'a option \<Rightarrow> 'a \<Rightarrow> 'a" where
  "opt_else x d = (case x of Some a \<Rightarrow> a | None \<Rightarrow> d)"

definition engine_id :: "'w engine \<Rightarrow> string" where
  "engine_id en = en_name en"

definition capability_keys :: "string list" where
  "capability_keys = [''validate'', ''gate'', ''audit'', ''monitor'', ''intake'', ''handover'', ''run'',
     ''persist'', ''effect'', ''evidence'']"

definition capabilities :: "(string \<times> val) list" where
  "capabilities = map (\<lambda>k. (k, VBool True)) capability_keys @ [(''executor'', VStr ''hooks'')]"

definition hermes_capabilities :: "(string \<times> val) list" where
  "hermes_capabilities = map (\<lambda>k. (k, VBool True)) capability_keys @ [(''executor'', VStr ''api'')]"

section \<open>Executors\<close>

definition mock_executor :: "(string \<times> val) list \<Rightarrow> ('w \<times> calls) executor" where
  "mock_executor outcomes = \<lparr>x_execute = mock_execute outcomes, x_compensate = (\<lambda>_. retI ())\<rparr>"

definition scripted_executor :: "'w fs \<Rightarrow> 'v engine \<Rightarrow> val \<Rightarrow> string list \<Rightarrow> 'w executor" where
  "scripted_executor fs en spec workspace =
     \<lparr>x_execute = scripted_execute fs spec workspace (cfg_secrets (en_config en)),
      x_compensate = scripted_compensate fs workspace\<rparr>"

definition host_executor :: "('w, val, runtime_result) provider \<Rightarrow> budget option \<Rightarrow> ('w \<times> usage) executor" where
  "host_executor p b = \<lparr>x_execute = host_execute p (opt_else b no_budget), x_compensate = host_compensate\<rparr>"

definition api_executor ::
  "(string \<Rightarrow> val res) \<Rightarrow> ('w, string, model_response) provider \<Rightarrow> 'w fs \<Rightarrow> 'v engine \<Rightarrow> string list \<Rightarrow> budget option
     \<Rightarrow> ('w \<times> usage) executor" where
  "api_executor loads p fs en workspace b =
     \<lparr>x_execute = api_execute loads p fs (opt_else b no_budget) workspace (cfg_secrets (en_config en)),
      x_compensate = (\<lambda>touched. onW (scripted_compensate fs workspace touched))\<rparr>"

section \<open>Running\<close>

definition call_env :: "'w engine \<Rightarrow> 'w executor \<Rightarrow> 'w call_args \<Rightarrow> 'w env" where
  "call_env en x a = \<lparr>clock = ca_clock a, ids = ca_ids a, sleep = opt_else (ca_sleep a) (en_sleep en),
     control = opt_else (ca_control a) (retI ''running''), execute = x_execute x, compensate = x_compensate x,
     git_has_changes = en_has_changes en, git_commit_all = en_commit_all en\<rparr>"

definition retries :: "'w engine \<Rightarrow> 'w call_args \<Rightarrow> int" where
  "retries en a = opt_else (ca_max_retries a) (cfg_max_retries (en_config en))"

definition engine_run ::
  "digest \<Rightarrow> 'w engine \<Rightarrow> val \<Rightarrow> 'w executor \<Rightarrow> 'w call_args \<Rightarrow> ('w, run_result) io" where
  "engine_run H en manifest x a =
     run H (en_name en) (call_env en x a) (retries en a) (cfg_backoff_base (en_config en)) default_gate manifest"

definition engine_resume ::
  "digest \<Rightarrow> 'w engine \<Rightarrow> val \<Rightarrow> ledger \<Rightarrow> 'w executor \<Rightarrow> 'w call_args \<Rightarrow> ('w, run_result) io" where
  "engine_resume H en manifest l x a =
     resume H (en_name en) (call_env en x a) (retries en a) (cfg_backoff_base (en_config en)) default_gate manifest l"

definition engine_run_chain ::
  "digest \<Rightarrow> 'w engine \<Rightarrow> val \<Rightarrow> (string \<times> val) list \<Rightarrow> (string \<Rightarrow> 'w executor) \<Rightarrow> 'w call_args
     \<Rightarrow> ('w, chain_result) io" where
  "engine_run_chain H en chain iplans executor_for a =
     run_chain H (en_name en) (call_env en (executor_for []) a) executor_for default_gate chain iplans"

definition engine_resolve_blocker ::
  "digest \<Rightarrow> 'w engine \<Rightarrow> ledger \<Rightarrow> string \<Rightarrow> string \<Rightarrow> val \<Rightarrow> ('w, string) io option \<Rightarrow> ('w, ledger) io" where
  "engine_resolve_blocker H en l bid decision actor clk =
     bindI (opt_else clk (en_clock en)) (\<lambda>stamp. liftI (resolve_blocker H l bid decision actor stamp))"

definition pause :: "string \<Rightarrow> file_store \<Rightarrow> file_store" where
  "pause lid s = set_control lid ''paused'' s"

definition abort :: "string \<Rightarrow> file_store \<Rightarrow> file_store" where
  "abort lid s = set_control lid ''aborted'' s"

section \<open>Signing and landing\<close>

definition config_key :: "'w engine \<Rightarrow> string" where
  "config_key en = (case cfg_signing_key (en_config en) of Some k \<Rightarrow> k | None \<Rightarrow> [])"

definition engine_sign_ledger ::
  "crypto \<Rightarrow> 'w engine \<Rightarrow> (string \<times> val) list \<Rightarrow> string option \<Rightarrow> (string \<times> val) list res" where
  "engine_sign_ledger C en document key = sign_ledger C document (opt_else key (config_key en))"

definition engine_verify_ledger ::
  "crypto \<Rightarrow> 'w engine \<Rightarrow> (string \<times> val) list \<Rightarrow> string option \<Rightarrow> bool res" where
  "engine_verify_ledger C en document key = verify_ledger C document (opt_else key (config_key en))"

text \<open>\<open>_sign_ledger\<close> on the run loop's ledger, which always has a log.\<close>

definition sign_log :: "crypto \<Rightarrow> string \<Rightarrow> ledger \<Rightarrow> ledger res" where
  "sign_log C key l = bindR (mapR (sign_one C key) (execution_log l)) (\<lambda>es. Inr (l\<lparr>execution_log := es\<rparr>))"

definition engine_land ::
  "crypto \<Rightarrow> 'w engine \<Rightarrow> 'w env \<Rightarrow> ledger \<Rightarrow> string \<Rightarrow> string \<Rightarrow> string \<Rightarrow> val option \<Rightarrow> ('w, run_result) io" where
  "engine_land C en env l workspace branch msg actor =
     bindI (case actor of
         None \<Rightarrow> retI ()
       | Some a \<Rightarrow> bindI (liftI (authorize a ''land'')) (\<lambda>decision.
           if v_allowed decision then retI ()
           else raiseI (PermissionError (''authz denied land: '' @ v_reason decision)))) (\<lambda>_.
     bindI (land (sha256 C) env default_gate workspace branch msg l) (\<lambda>result.
     if config_key en = [] then retI result else
     liftI (bindR (sign_log C (config_key en) (rr_ledger result)) (\<lambda>l. Inr (result\<lparr>rr_ledger := l\<rparr>)))))"

definition build_handover :: "'w engine \<Rightarrow> val \<Rightarrow> gate_result \<Rightarrow> val \<Rightarrow> ('w, val) io" where
  "build_handover en document g report = build_handover_receipt (en_clock en) document g report"

section \<open>Recording on a ledger document\<close>

text \<open>\<open>doc.setdefault(k, []).append(v)\<close>.\<close>

definition append_under :: "string \<Rightarrow> val \<Rightarrow> (string \<times> val) list \<Rightarrow> (string \<times> val) list res" where
  "append_under k v document = (case dget_or document k (VList []) of
      VList xs \<Rightarrow> Inr (AList.update k (VList (xs @ [v])) document)
    | _ \<Rightarrow> Inl AttributeError)"

definition scope_field :: "(string \<times> val) list \<Rightarrow> string \<Rightarrow> val res" where
  "scope_field document k = bindR (get_or (VDict document) ''isolation_scope'' (VDict [])) (\<lambda>s. get s k)"

definition record_transaction ::
  "digest \<Rightarrow> (string \<times> val) list \<Rightarrow> (string \<times> val) list \<Rightarrow> (string \<times> val) list res" where
  "record_transaction H document x =
     bindR (append_under ''saga_journal'' (VDict x) document) (\<lambda>document.
     bindR (scope_field document ''client_id'') (\<lambda>cid.
     bindR (scope_field document ''project_id'') (\<lambda>pid.
     append_event H document [
       (''event_type'', dget_or x ''action'' (VStr ''transaction'')),
       (''subject_id'', dget x ''task_id''),
       (''at'', dget_or x ''at'' (VStr [])),
       (''touched_paths'', dget_or x ''touched_paths'' (VList [])),
       (''client_id'', cid),
       (''project_id'', pid)])))"

definition emit_execution_log :: "'w engine \<Rightarrow> val \<Rightarrow> ('w, unit) io" where
  "emit_execution_log en event = pr_log (en_provider en) ''iplan.execution.event'' ''INFO'' (py_str event)"

definition instrument :: "'w otel_sdk option \<Rightarrow> ('w \<times> string list) engine \<Rightarrow> ('w \<times> string list) engine" where
  "instrument sdk en = en\<lparr>en_provider := get_provider sdk\<rparr>"

definition set_default :: "string \<Rightarrow> val \<Rightarrow> (string \<times> val) list \<Rightarrow> (string \<times> val) list" where
  "set_default k v document = (case map_of document k of None \<Rightarrow> AList.update k v document | Some _ \<Rightarrow> document)"

definition start_session :: "(string \<times> val) list \<Rightarrow> (string \<times> val) list" where
  "start_session document = set_default ''agent_leases'' (VList []) (set_default ''execution_log'' (VList []) document)"

definition acquire_lease :: "(string \<times> val) list \<Rightarrow> val \<Rightarrow> (string \<times> val) list res" where
  "acquire_lease document l = append_under ''agent_leases'' l document"

definition record_touched_file ::
  "digest \<Rightarrow> (string \<times> val) list \<Rightarrow> string \<Rightarrow> string \<Rightarrow> string \<Rightarrow> (string \<times> val) list res" where
  "record_touched_file H document task_id path stamp =
     bindR (scope_field document ''client_id'') (\<lambda>cid.
     bindR (scope_field document ''project_id'') (\<lambda>pid.
     append_event H document [
       (''event_type'', VStr ''file_edited''),
       (''subject_id'', VStr task_id),
       (''at'', VStr stamp),
       (''touched_paths'', VList [VStr path]),
       (''client_id'', cid),
       (''project_id'', pid)]))"

definition record_evidence_on :: "(string \<times> val) list \<Rightarrow> val \<Rightarrow> (string \<times> val) list res" where
  "record_evidence_on document ev = append_under ''execution_evidence'' ev document"

definition reconcile_document :: "(string \<times> val) list \<Rightarrow> (string \<times> val) list res" where
  "reconcile_document document =
     bindR (iter (dget_or document ''task_ledger'' (VList []))) (\<lambda>tasks.
     bindR (mapR open_status tasks) (\<lambda>open_flags.
     bindR (py_len (dget_or document ''blockers'' (VList []))) (\<lambda>n.
     let pending = length (filter id open_flags) in
     Inr (AList.update ''reconciliation'' (VDict [
        (''allowed'', VBool (pending = 0 \<and> n = 0)),
        (''pending_tasks'', VInt (int pending)),
        (''open_blockers'', VInt (int n))]) document))))"

section \<open>The tool surface of the hermes engine\<close>

definition iops_validate_ledger :: "digest \<Rightarrow> val \<Rightarrow> validation res" where
  "iops_validate_ledger H document = engine_validate H document"

definition iops_run_gate :: "digest \<Rightarrow> val \<Rightarrow> val \<Rightarrow> gate_result res" where
  "iops_run_gate H document gate = run_gate H document gate"

definition iops_audit_report :: "digest \<Rightarrow> val \<Rightarrow> validation res" where
  "iops_audit_report H document = engine_validate H document"

definition iops_monitor_check :: "digest \<Rightarrow> val \<Rightarrow> validation res" where
  "iops_monitor_check H document = engine_validate H document"

definition run_executor :: "'w engine \<Rightarrow> string \<Rightarrow> ('w, val) io" where
  "run_executor en prompt =
     bindI (emit_execution_log en (VDict [(''event_type'', VStr ''executor_dispatch''), (''prompt'', VStr prompt)])) (\<lambda>_.
     retI (VDict [(''engine'', VStr (engine_id en)), (''dispatched'', VBool True), (''prompt'', VStr prompt)]))"

end
