(* ===== verification/Stored.thy ===== *)
theory Stored
  imports Ledger
begin

text \<open>
  Reading a stored ledger back: the typed view of a document the run loop rendered. The code
  keeps the loaded dict; a document of another shape is refused here. Decoding is the inverse
  of the rendering, so a ledger that was saved and loaded is the ledger.
\<close>

section \<open>Fields\<close>

definition text_at :: "val \<Rightarrow> string \<Rightarrow> string res" where
  "text_at v k = bindR (item v k) as_str"

definition opt_text_at :: "val \<Rightarrow> string \<Rightarrow> string option res" where
  "opt_text_at v k = bindR (item v k) (as_opt as_str)"

definition as_list :: "val \<Rightarrow> val list res" where
  "as_list v = (case v of VList xs \<Rightarrow> Inr xs | _ \<Rightarrow> Inl TypeError)"

definition list_at :: "(val \<Rightarrow> 'a res) \<Rightarrow> val \<Rightarrow> string \<Rightarrow> 'a list res" where
  "list_at f v k = bindR (bindR (item v k) as_list) (mapR f)"

definition as_integer :: "val \<Rightarrow> int res" where
  "as_integer v = (case v of VInt i \<Rightarrow> Inr i | _ \<Rightarrow> Inl TypeError)"

definition as_count :: "val \<Rightarrow> nat res" where
  "as_count v = (case v of VInt i \<Rightarrow> Inr (nat i) | _ \<Rightarrow> Inl TypeError)"

definition as_bool :: "val \<Rightarrow> bool res" where
  "as_bool v = (case v of VBool b \<Rightarrow> Inr b | _ \<Rightarrow> Inl TypeError)"

definition as_entries :: "val \<Rightarrow> (string \<times> val) list res" where
  "as_entries v = (case v of VDict kvs \<Rightarrow> Inr kvs | _ \<Rightarrow> Inl TypeError)"

text \<open>A key that may be absent.\<close>

definition opt_at :: "(val \<Rightarrow> 'a res) \<Rightarrow> val \<Rightarrow> string \<Rightarrow> 'a option res" where
  "opt_at f v k = bindR (as_entries v) (\<lambda>kvs. case map_of kvs k of
      None \<Rightarrow> Inr None | Some x \<Rightarrow> bindR (f x) (\<lambda>y. Inr (Some y)))"

section \<open>Records\<close>

definition control_of :: "val \<Rightarrow> control_block res" where
  "control_of v =
     bindR (text_at v ''ledger_id'') (\<lambda>a. bindR (item v ''source_iplan'') (\<lambda>b.
     bindR (item v ''source_iplan_version'') (\<lambda>c. bindR (item v ''source_iplan_checksum'') (\<lambda>d.
     bindR (text_at v ''status'') (\<lambda>e. bindR (text_at v ''run_state'') (\<lambda>f.
     bindR (opt_at as_bool v ''requires_landing'') (\<lambda>g.
     Inr \<lparr>ledger_id = a, source_iplan = b, source_iplan_version = c, source_iplan_checksum = d,
       lc_status = e, run_state = f, requires_landing = g\<rparr>)))))))"

definition task_of :: "val \<Rightarrow> task_entry res" where
  "task_of v =
     bindR (item v ''task_id'') (\<lambda>a. bindR (item v ''title'') (\<lambda>b. bindR (text_at v ''status'') (\<lambda>c.
     bindR (list_at as_str v ''evidence_refs'') (\<lambda>d. bindR (item v ''acceptance'') (\<lambda>acc.
     bindR (item acc ''criteria'') (\<lambda>e. bindR (text_at acc ''result'') (\<lambda>f.
     bindR (opt_text_at v ''blocked_reason'') (\<lambda>g. bindR (opt_text_at v ''decision_owner'') (\<lambda>h.
     Inr \<lparr>te_task_id = a, te_title = b, te_status = c, te_evidence_refs = d, te_criteria = e,
       te_result = f, te_blocked_reason = g, te_decision_owner = h\<rparr>)))))))))"

definition lease_of :: "val \<Rightarrow> lease res" where
  "lease_of v =
     bindR (text_at v ''lease_id'') (\<lambda>a. bindR (text_at v ''task_id'') (\<lambda>b. bindR (text_at v ''agent_id'') (\<lambda>c.
     bindR (text_at v ''acquired_at'') (\<lambda>d. bindR (opt_text_at v ''expires_at'') (\<lambda>e.
     bindR (opt_text_at v ''released_at'') (\<lambda>f.
     Inr \<lparr>lease_id = a, l_task_id = b, agent_id = c, acquired_at = d, expires_at = e, released_at = f\<rparr>))))))"

definition txn_of :: "val \<Rightarrow> txn res" where
  "txn_of v =
     bindR (text_at v ''txn_id'') (\<lambda>a. bindR (text_at v ''task_id'') (\<lambda>b. bindR (text_at v ''action'') (\<lambda>c.
     bindR (text_at v ''compensation'') (\<lambda>d. bindR (text_at v ''idempotency_key'') (\<lambda>e.
     bindR (text_at v ''status'') (\<lambda>f. bindR (bindR (item v ''timeout_s'') as_integer) (\<lambda>g.
     bindR (opt_at as_integer v ''attempts'') (\<lambda>h.
     Inr \<lparr>txn_id = a, x_task_id = b, x_action = c, x_compensation = d, idempotency_key = e,
       x_status = f, timeout_s = g, attempts = h\<rparr>))))))))"

definition blocker_val_of :: "val \<Rightarrow> blocker res" where
  "blocker_val_of v =
     bindR (text_at v ''blocker_id'') (\<lambda>a. bindR (text_at v ''task_id'') (\<lambda>b.
     bindR (text_at v ''description'') (\<lambda>c. bindR (text_at v ''decision_owner'') (\<lambda>d.
     Inr \<lparr>blocker_id = a, b_task_id = b, b_description = c, b_decision_owner = d\<rparr>))))"

definition history_of :: "val \<Rightarrow> history_entry res" where
  "history_of v =
     bindR (text_at v ''at'') (\<lambda>a. bindR (text_at v ''task_id'') (\<lambda>b.
     bindR (text_at v ''from_status'') (\<lambda>c. bindR (text_at v ''to_status'') (\<lambda>d.
     Inr \<lparr>h_at = a, h_task_id = b, from_status = c, to_status = d\<rparr>))))"

definition reconciliation_of :: "val \<Rightarrow> reconciliation res" where
  "reconciliation_of v =
     bindR (bindR (item v ''allowed'') as_bool) (\<lambda>a. bindR (bindR (item v ''pending_tasks'') as_count) (\<lambda>b.
     bindR (bindR (item v ''open_blockers'') as_count) (\<lambda>c.
     Inr \<lparr>r_allowed = a, pending_tasks = b, open_blockers = c\<rparr>)))"

definition commit_of :: "val \<Rightarrow> commit_entry res" where
  "commit_of v =
     bindR (text_at v ''sha'') (\<lambda>a. bindR (text_at v ''message'') (\<lambda>b. bindR (text_at v ''at'') (\<lambda>c.
     bindR (list_at as_str v ''touched_paths'') (\<lambda>d.
     Inr \<lparr>c_sha = a, c_message = b, c_at = c, c_touched = d\<rparr>))))"

definition vcs_of :: "val \<Rightarrow> vcs_block res" where
  "vcs_of v = bindR (text_at v ''branch'') (\<lambda>a. bindR (list_at commit_of v ''commits'') (\<lambda>b.
     Inr \<lparr>vcs_branch = a, vcs_commits = b\<rparr>))"

definition resolution_of :: "val \<Rightarrow> resolution res" where
  "resolution_of v =
     bindR (text_at v ''blocker_id'') (\<lambda>a. bindR (text_at v ''decision'') (\<lambda>b. bindR (item v ''actor'') (\<lambda>c.
     bindR (text_at v ''at'') (\<lambda>d.
     Inr \<lparr>rs_blocker_id = a, rs_decision = b, rs_actor = c, rs_at = d\<rparr>))))"

definition ledger_of :: "val \<Rightarrow> ledger res" where
  "ledger_of v =
     bindR (bindR (item v ''ledger_control'') control_of) (\<lambda>a.
     bindR (bindR (item v ''isolation_scope'') as_entries) (\<lambda>b.
     bindR (list_at task_of v ''task_ledger'') (\<lambda>c.
     bindR (list_at lease_of v ''agent_leases'') (\<lambda>d.
     bindR (list_at Inr v ''execution_evidence'') (\<lambda>e.
     bindR (list_at blocker_val_of v ''blockers'') (\<lambda>f.
     bindR (bindR (item v ''reconciliation'') reconciliation_of) (\<lambda>g.
     bindR (list_at txn_of v ''saga_journal'') (\<lambda>h.
     bindR (list_at history_of v ''execution_history'') (\<lambda>i.
     bindR (list_at Inr v ''execution_log'') (\<lambda>j.
     bindR (opt_at vcs_of v ''vcs'') (\<lambda>k.
     bindR (opt_at (\<lambda>r. bindR (as_list r) (mapR resolution_of)) v ''resolutions'') (\<lambda>m.
     Inr \<lparr>ledger_control = a, isolation_scope = b, task_ledger = c, agent_leases = d,
       execution_evidence = e, blockers = f, reconciled = g, saga_journal = h,
       execution_history = i, execution_log = j, vcs = k, resolutions = m\<rparr>))))))))))))"

section \<open>Decoding inverts the rendering\<close>

named_theorems decode_simps "decoders on rendered records"

lemma decode_fields [decode_simps]:
  "as_list (VList xs) = Inr xs" "as_integer (VInt i) = Inr i" "as_bool (VBool b) = Inr b"
  "as_count (VInt (int n)) = Inr n" "as_entries (VDict kvs) = Inr kvs"
  "as_opt as_str (opt_str s) = Inr s"
  by (auto simp: as_list_def as_integer_def as_bool_def as_count_def as_entries_def as_opt_def opt_str_def
      split: option.splits)

lemma mapR_decode: "(\<And>x. f (g x) = Inr x) \<Longrightarrow> mapR f (map g xs) = Inr xs"
  by (induction xs) auto

lemma mapR_Inr_id [decode_simps]: "mapR Inr xs = Inr xs"
  by (induction xs) auto

lemma strs_decode [decode_simps]: "bindR (as_list (strs ss)) (mapR as_str) = Inr ss"
  by (simp add: strs_def as_list_def mapR_decode)

lemmas decode_defs = text_at_def opt_text_at_def list_at_def opt_at_def

lemma task_of_val: "task_of (task_val t) = Inr t"
  by (simp add: task_of_def task_val_def decode_defs decode_simps)

lemma lease_of_val: "lease_of (lease_val l) = Inr l"
  by (simp add: lease_of_def lease_val_def decode_defs decode_simps)

lemma txn_of_val: "txn_of (txn_val x) = Inr x"
  by (cases "attempts x") (simp_all add: txn_of_def txn_val_def decode_defs decode_simps opt_key_def)

lemma blocker_of_val: "blocker_val_of (blocker_val b) = Inr b"
  by (simp add: blocker_val_of_def blocker_val_def decode_defs)

lemma history_of_val: "history_of (history_val h) = Inr h"
  by (simp add: history_of_def history_val_def decode_defs)

lemma reconciliation_of_val: "reconciliation_of (reconciliation_val r) = Inr r"
  by (simp add: reconciliation_of_def reconciliation_val_def decode_simps)

lemma commit_of_val: "commit_of (commit_val c) = Inr c"
  by (simp add: commit_of_def commit_val_def decode_defs decode_simps)

lemma vcs_of_val: "vcs_of (vcs_val v) = Inr v"
  by (simp add: vcs_of_def vcs_val_def decode_defs decode_simps mapR_decode [of commit_of commit_val, OF commit_of_val])

lemma resolution_of_val: "resolution_of (resolution_val r) = Inr r"
  by (simp add: resolution_of_def resolution_val_def decode_defs)

lemma control_of_val: "control_of (control_val c) = Inr c"
  by (cases "requires_landing c")
    (simp_all add: control_of_def control_val_def decode_defs decode_simps opt_key_def)

lemmas decode_lists = mapR_decode [of task_of task_val, OF task_of_val]
  mapR_decode [of lease_of lease_val, OF lease_of_val] mapR_decode [of txn_of txn_val, OF txn_of_val]
  mapR_decode [of blocker_val_of blocker_val, OF blocker_of_val] mapR_decode [of history_of history_val, OF history_of_val]
  mapR_decode [of resolution_of resolution_val, OF resolution_of_val]

lemma item_ledger_val:
  "item (ledger_val l) ''ledger_control'' = Inr (control_val (ledger_control l))"
  "item (ledger_val l) ''isolation_scope'' = Inr (VDict (isolation_scope l))"
  "item (ledger_val l) ''task_ledger'' = Inr (VList (map task_val (task_ledger l)))"
  "item (ledger_val l) ''agent_leases'' = Inr (VList (map lease_val (agent_leases l)))"
  "item (ledger_val l) ''execution_evidence'' = Inr (VList (execution_evidence l))"
  "item (ledger_val l) ''blockers'' = Inr (VList (map blocker_val (blockers l)))"
  "item (ledger_val l) ''reconciliation'' = Inr (reconciliation_val (reconciled l))"
  "item (ledger_val l) ''saga_journal'' = Inr (VList (map txn_val (saga_journal l)))"
  "item (ledger_val l) ''execution_history'' = Inr (VList (map history_val (execution_history l)))"
  "item (ledger_val l) ''execution_log'' = Inr (VList (execution_log l))"
  by (simp_all add: ledger_val_def)

lemma opt_ledger_val:
  "opt_at vcs_of (ledger_val l) ''vcs'' = Inr (vcs l)"
  "opt_at (\<lambda>r. bindR (as_list r) (mapR resolution_of)) (ledger_val l) ''resolutions'' = Inr (resolutions l)"
  by (cases "vcs l"; cases "resolutions l";
      simp add: opt_at_def ledger_val_def opt_key_def decode_simps vcs_of_val decode_lists)+

lemma ledger_of_val: "ledger_of (ledger_val l) = Inr l"
  by (simp add: ledger_of_def item_ledger_val opt_ledger_val list_at_def control_of_val reconciliation_of_val
      decode_simps decode_lists)

end
