(* ===== verification/Cli.thy ===== *)
theory Cli
  imports Engine Stored
begin

text \<open>
  The command line (\<open>cli/commands.py\<close>): every command as an effect on the world the engine
  runs in, paired with what a command touches itself: the YAML files it reads, one ledger
  store with its relay tables, the counters of its \<open>IdSource\<close> and the documents it prints.
  The result of a command is its exit code.

  A command line is the value of \<open>command\<close> the argument parser builds. The handlers are the
  same in both engines but for the executor mode of the receiver.
\<close>

section \<open>The world of a command\<close>

record cli =
  cl_files :: "(string \<times> val \<times> string) list"
  cl_environ :: environ
  cl_store :: file_store
  cl_db :: relay_db
  cl_counters :: counters
  cl_printed :: "val list"

definition emit :: "val \<Rightarrow> ('w \<times> cli, unit) io" where
  "emit v = onU (\<lambda>c. c\<lparr>cl_printed := cl_printed c @ [v]\<rparr>)"

text \<open>A file with its parsed document and the digest of its bytes.\<close>

definition read_file :: "string \<Rightarrow> ('w \<times> cli, val \<times> string) io" where
  "read_file path = (\<lambda>(w, c). (case map_of (cl_files c) path of
      None \<Rightarrow> (Inl (OSError path), (w, c)) | Some f \<Rightarrow> (Inr f, (w, c))))"

definition load_doc :: "string \<Rightarrow> ('w \<times> cli, (string \<times> val) list) io" where
  "load_doc path = bindI (read_file path) (\<lambda>(d, _). retI (case d of VDict kvs \<Rightarrow> kvs | _ \<Rightarrow> []))"

definition with_store :: "(file_store \<Rightarrow> (file_store \<times> 'a) res) \<Rightarrow> ('w \<times> cli, 'a) io" where
  "with_store f = (\<lambda>(w, c). (case f (cl_store c) of
      Inl e \<Rightarrow> (Inl e, (w, c)) | Inr (s, a) \<Rightarrow> (Inr a, (w, c\<lparr>cl_store := s\<rparr>))))"

definition with_db :: "('w \<times> relay_db, 'a) io \<Rightarrow> ('w \<times> cli, 'a) io" where
  "with_db m = (\<lambda>(w, c). (case m (w, cl_db c) of (r, (w', db)) \<Rightarrow> (r, (w', c\<lparr>cl_db := db\<rparr>))))"

definition ask :: "(cli \<Rightarrow> 'a) \<Rightarrow> ('w \<times> cli, 'a) io" where
  "ask f = (\<lambda>(w, c). (Inr (f c), (w, c)))"

text \<open>\<open>os.environ.get(name, "")\<close>.\<close>

definition env_text :: "string \<Rightarrow> cli \<Rightarrow> string" where
  "env_text name c = (case map_of (cl_environ c) name of Some v \<Rightarrow> v | None \<Rightarrow> [])"

text \<open>A fresh \<open>IdSource()\<close>: its counters start empty.\<close>

definition new_ids :: "('w \<times> cli, unit) io" where
  "new_ids = onU (\<lambda>c. c\<lparr>cl_counters := []\<rparr>)"

definition cli_id :: "string \<Rightarrow> ('w \<times> cli, string) io" where
  "cli_id kind = (\<lambda>(w, c). (case next_id (cl_counters c) kind of
      (cs, i) \<Rightarrow> (Inr i, (w, c\<lparr>cl_counters := cs\<rparr>))))"

section \<open>Printed documents\<close>

definition exit_of :: "bool \<Rightarrow> int" where
  "exit_of ok = (if ok then 0 else 1)"

definition validation_val :: "validation \<Rightarrow> val" where
  "validation_val v = VDict [
     (''status'', VStr (v_status v)),
     (''findings'', VList (map (\<lambda>f. VDict [(''rule_id'', VStr (rule_id f)), (''severity'', VStr (severity f)),
        (''message'', VStr (message f))]) (v_findings v)))]"

definition gate_val :: "gate_result \<Rightarrow> val" where
  "gate_val g = VDict [
     (''status'', VStr (g_status g)),
     (''rules'', VList (map (\<lambda>r. VDict [(''id'', gr_id r), (''status'', VStr (gr_status r)),
        (''violations'', strs (gr_violations r))]) (g_rules g)))]"

definition slo_val :: "slo_result \<Rightarrow> val" where
  "slo_val r = VDict [
     (''id'', so_id r), (''signal_ref'', so_signal r), (''objective'', so_objective r), (''value'', so_value r),
     (''met'', case so_met r of None \<Rightarrow> VNone | Some b \<Rightarrow> VBool b)]"

definition error_val :: "string \<Rightarrow> val" where
  "error_val s = VDict [(''error'', VStr s)]"

section \<open>Commands on documents\<close>

definition cmd_validate :: "digest \<Rightarrow> string \<Rightarrow> ('w \<times> cli, int) io" where
  "cmd_validate H path =
     bindI (load_doc path) (\<lambda>d.
     bindI (liftI (engine_validate H (VDict d))) (\<lambda>result.
     bindI (emit (validation_val result)) (\<lambda>_. retI (exit_of (v_status result \<noteq> ''fail'')))))"

definition cmd_gate :: "digest \<Rightarrow> string \<Rightarrow> string \<Rightarrow> ('w \<times> cli, int) io" where
  "cmd_gate H ledger_path gate_path =
     bindI (load_doc ledger_path) (\<lambda>d. bindI (load_doc gate_path) (\<lambda>g.
     bindI (liftI (run_gate H (VDict d) (VDict g))) (\<lambda>result.
     bindI (emit (gate_val result)) (\<lambda>_. retI (exit_of (g_status result = ''passed''))))))"

definition cmd_audit :: "digest \<Rightarrow> string \<Rightarrow> string \<Rightarrow> ('w \<times> cli, int) io" where
  "cmd_audit H baseline comparison =
     bindI (load_doc baseline) (\<lambda>b. bindI (load_doc comparison) (\<lambda>c.
     bindI (liftI (build_audit_report (VDict b) (VDict c))) (\<lambda>report.
     bindI (liftI (engine_validate H report)) (\<lambda>validation.
     bindI (emit (VDict [(''report'', report), (''validation'', validation_val validation)])) (\<lambda>_.
     retI (exit_of (v_status validation \<noteq> ''fail'')))))))"

definition cmd_slo_check :: "string \<Rightarrow> string option \<Rightarrow> ('w \<times> cli, int) io" where
  "cmd_slo_check manifest samples =
     bindI (load_doc manifest) (\<lambda>m.
     bindI (if truthy_opt samples then load_doc (the samples) else retI []) (\<lambda>s.
     bindI (liftI (evaluate_slos (VDict m) s)) (\<lambda>results.
     bindI (emit (VList (map slo_val results))) (\<lambda>_. retI 0))))"

definition cmd_intake_payload :: "string \<Rightarrow> ('w \<times> cli, int) io" where
  "cmd_intake_payload path =
     bindI (read_file path) (\<lambda>(d, h).
     bindI (liftI (ingest_task_payload d h)) (\<lambda>manifest.
     bindI (load_doc path) (\<lambda>payload.
     bindI (ask cl_environ) (\<lambda>environ.
     bindI (liftI (validate_payload environ payload)) (\<lambda>fs.
     bindI (emit (VDict [(''manifest'', manifest), (''findings'', strs (map rule_id fs))])) (\<lambda>_.
     retI (exit_of (fs = []))))))))"

definition read_manifest :: "'v engine \<Rightarrow> string \<Rightarrow> ('w \<times> cli, val) io" where
  "read_manifest en path = bindI (read_file path) (\<lambda>(d, h). liftI (ingest_iplan (en_config en) d h))"

definition cmd_intake :: "digest \<Rightarrow> 'v engine \<Rightarrow> string option \<Rightarrow> string option \<Rightarrow> ('w \<times> cli, int) io" where
  "cmd_intake H en iplan payload =
     (if truthy_opt payload then cmd_intake_payload (the payload)
      else if \<not> truthy_opt iplan
      then bindI (emit (error_val ''intake requires an IPLAN path or --payload'')) (\<lambda>_. retI 1)
      else
        bindI (read_manifest en (the iplan)) (\<lambda>manifest.
        bindI (liftI (engine_validate H manifest)) (\<lambda>validation.
        bindI (emit (VDict [(''manifest'', manifest), (''validation'', validation_val validation)])) (\<lambda>_.
        retI (exit_of (v_status validation \<noteq> ''fail''))))))"

definition cmd_emit_events ::
  "crypto \<Rightarrow> string \<Rightarrow> string \<Rightarrow> string \<Rightarrow> string option \<Rightarrow> ('w \<times> cli, int) io" where
  "cmd_emit_events C ledger_path payload_path key_env key_id =
     bindI (load_doc payload_path) (\<lambda>payload. bindI (load_doc ledger_path) (\<lambda>d.
     bindI (ask (env_text key_env)) (\<lambda>key.
     bindI (liftI (to_execution_events C (VDict d) payload (py_encode key) (resolved_key_id key_id payload))) (\<lambda>events.
     bindI (emit (VDict [(''events'', VList events)])) (\<lambda>_. retI 0)))))"

definition cmd_handover :: "digest \<Rightarrow> ('w \<times> cli) engine \<Rightarrow> string \<Rightarrow> string \<Rightarrow> ('w \<times> cli, int) io" where
  "cmd_handover H en ledger_path gate_path =
     bindI (load_doc ledger_path) (\<lambda>d. bindI (load_doc gate_path) (\<lambda>g.
     bindI (liftI (run_gate H (VDict d) (VDict g))) (\<lambda>gate_result.
     bindI (build_handover en (VDict d) gate_result VNone) (\<lambda>receipt.
     bindI (liftI (engine_validate H receipt)) (\<lambda>validation.
     bindI (emit (VDict [(''receipt'', receipt), (''validation'', validation_val validation)])) (\<lambda>_.
     retI (exit_of (v_status validation \<noteq> ''fail''))))))))"

definition cmd_verify :: "crypto \<Rightarrow> 'v engine \<Rightarrow> string \<Rightarrow> string \<Rightarrow> ('w \<times> cli, int) io" where
  "cmd_verify C en path key =
     bindI (load_doc path) (\<lambda>d.
     bindI (liftI (engine_verify_ledger C en d (Some key))) (\<lambda>verified.
     bindI (emit (VDict [(''verified'', VBool verified)])) (\<lambda>_. retI (exit_of verified))))"

section \<open>Runs\<close>

definition cli_args :: "('w \<times> cli) engine \<Rightarrow> ('w \<times> cli, string) io option \<Rightarrow> ('w \<times> cli) call_args" where
  "cli_args en ctl = \<lparr>ca_clock = en_clock en, ca_ids = cli_id, ca_sleep = None, ca_max_retries = None, ca_control = ctl\<rparr>"

text \<open>\<open>default_executor()\<close>: a mock without outcomes never looks at its call counts.\<close>

definition default_executor :: "'w executor" where
  "default_executor = \<lparr>x_execute = (\<lambda>task scope w. (case mock_execute [] task scope (w, []) of (r, (w', _)) \<Rightarrow> (r, w'))),
     x_compensate = (\<lambda>_. retI ())\<rparr>"

definition save_ledger :: "ledger \<Rightarrow> ('w \<times> cli, string) io" where
  "save_ledger l = with_store (save (ledger_val l))"

definition load_ledger :: "digest \<Rightarrow> string \<Rightarrow> ('w \<times> cli, ledger) io" where
  "load_ledger H lid = with_store (\<lambda>s.
     bindR (load H (ledger_file lid) s) (\<lambda>d. bindR (ledger_of d) (\<lambda>l. Inr (s, l))))"

record run_args =
  ra_iplan :: string
  ra_actions :: "string option"
  ra_workspace :: string
  ra_land :: bool
  ra_branch :: string

definition choose_executor ::
  "('w \<times> cli) fs \<Rightarrow> ('w \<times> cli) engine \<Rightarrow> run_args \<Rightarrow> ('w \<times> cli, ('w \<times> cli) executor) io" where
  "choose_executor fs en a =
     (if truthy_opt (ra_actions a)
      then bindI (load_doc (the (ra_actions a))) (\<lambda>spec.
           retI (scripted_executor fs en (VDict spec) (path_join [] (ra_workspace a))))
      else retI default_executor)"

definition land_if_green ::
  "crypto \<Rightarrow> ('w \<times> cli) engine \<Rightarrow> run_args \<Rightarrow> run_result \<Rightarrow> ('w \<times> cli, run_result) io" where
  "land_if_green C en a r =
     (if ra_land a \<and> g_status (rr_gate r) = ''passed'' \<and> r_allowed (reconciled (rr_ledger r))
      then engine_land C en (call_env en default_executor (cli_args en None)) (rr_ledger r) (ra_workspace a) (ra_branch a)
             (''iops: land '' @ ledger_id (ledger_control (rr_ledger r))) None
      else retI r)"

definition cmd_run ::
  "crypto \<Rightarrow> ('w \<times> cli) fs \<Rightarrow> ('w \<times> cli) engine \<Rightarrow> run_args \<Rightarrow> ('w \<times> cli, int) io" where
  "cmd_run C fs en a =
     bindI (read_manifest en (ra_iplan a)) (\<lambda>manifest.
     bindI (liftI (engine_validate (sha256 C) manifest)) (\<lambda>validation.
     if v_status validation = ''fail''
     then bindI (emit (VDict [(''validation'', validation_val validation)])) (\<lambda>_. retI 1) else
     bindI (choose_executor fs en a) (\<lambda>x.
     bindI new_ids (\<lambda>_.
     bindI (engine_run (sha256 C) en manifest x (cli_args en None)) (\<lambda>r.
     bindI (land_if_green C en a r) (\<lambda>r.
     bindI (save_ledger (rr_ledger r)) (\<lambda>saved.
     bindI (build_handover en (ledger_val (rr_ledger r)) (rr_gate r) VNone) (\<lambda>receipt.
     bindI (liftI (item receipt ''result'')) (\<lambda>result.
     bindI (liftI (item result ''status'')) (\<lambda>status.
     bindI (emit (VDict [
        (''ledger_id'', VStr (ledger_id (ledger_control (rr_ledger r)))),
        (''gate'', VStr (g_status (rr_gate r))),
        (''handover'', result),
        (''saved'', VStr saved)])) (\<lambda>_.
     retI (exit_of (py_eq status (VStr ''completed''))))))))))))))"

definition cmd_resume :: "crypto \<Rightarrow> ('w \<times> cli) engine \<Rightarrow> string \<Rightarrow> ('w \<times> cli, int) io" where
  "cmd_resume C en iplan =
     bindI (read_manifest en iplan) (\<lambda>manifest.
     bindI (liftI (bindR (item manifest ''intake_control'') (\<lambda>c. item c ''source_iplan''))) (\<lambda>src.
     let lid = ''LEDGER-'' @ py_str src in
     bindI (load_ledger (sha256 C) lid) (\<lambda>l.
     bindI (with_store (\<lambda>s. Inr (set_control lid ''running'' s, ()))) (\<lambda>_.
     bindI new_ids (\<lambda>_.
     bindI (engine_resume (sha256 C) en manifest l default_executor
        (cli_args en (Some (ask (\<lambda>c. get_control lid (cl_store c)))))) (\<lambda>r.
     bindI (save_ledger (rr_ledger r)) (\<lambda>_.
     bindI (emit (VDict [
        (''ledger_id'', VStr lid),
        (''run_state'', VStr (run_state (ledger_control (rr_ledger r)))),
        (''gate'', VStr (g_status (rr_gate r)))])) (\<lambda>_.
     retI (exit_of (g_status (rr_gate r) = ''passed''))))))))))"

definition cmd_status :: "digest \<Rightarrow> string option \<Rightarrow> ('w \<times> cli, int) io" where
  "cmd_status H lid =
     bindI (if truthy_opt lid then with_store (\<lambda>s. bindR (ledger_status H (the lid) s) (\<lambda>v. Inr (s, v)))
            else ask (\<lambda>c. strs (list_runs (cl_store c)))) (\<lambda>v.
     bindI (emit v) (\<lambda>_. retI 0))"

definition cmd_control :: "bool \<Rightarrow> string \<Rightarrow> ('w \<times> cli, int) io" where
  "cmd_control pausing lid =
     (let state = (if pausing then ''paused'' else ''aborted'') in
      bindI (with_store (\<lambda>s. Inr (set_control lid state s, ()))) (\<lambda>_.
      bindI (emit (VDict [(''ledger_id'', VStr lid), (''run_state'', VStr state)])) (\<lambda>_. retI 0)))"

definition cmd_resolve ::
  "digest \<Rightarrow> ('w \<times> cli) engine \<Rightarrow> string \<Rightarrow> string \<Rightarrow> string \<Rightarrow> string \<Rightarrow> ('w \<times> cli, int) io" where
  "cmd_resolve H en lid bid decision role =
     bindI (load_ledger H lid) (\<lambda>l.
     bindI (engine_resolve_blocker H en l bid decision
        (VDict [(''id'', VStr ''cli''), (''role'', VStr role)]) None) (\<lambda>l.
     bindI (save_ledger l) (\<lambda>_.
     bindI (emit (VDict [(''ledger_id'', VStr lid), (''blocker_id'', VStr bid), (''decision'', VStr decision)])) (\<lambda>_.
     retI 0))))"

definition reconciled_map :: "val list \<Rightarrow> (string \<times> val) list res" where
  "reconciled_map ns = foldR (\<lambda>m n. bindR (item n ''iplan_id'') (\<lambda>i. bindR (item n ''reconciled'') (\<lambda>r.
     Inr (AList.update (py_str i) r m)))) [] ns"

definition cmd_run_chain :: "crypto \<Rightarrow> ('w \<times> cli) engine \<Rightarrow> string \<Rightarrow> ('w \<times> cli, int) io" where
  "cmd_run_chain C en path =
     bindI (load_doc path) (\<lambda>spec.
     bindI (liftI (item (VDict spec) ''chain'')) (\<lambda>chain.
     bindI (liftI (bindR (item (VDict spec) ''iplans'') as_entries)) (\<lambda>iplans.
     bindI new_ids (\<lambda>_.
     bindI (engine_run_chain (sha256 C) en chain iplans (\<lambda>_. default_executor) (cli_args en None)) (\<lambda>r.
     let d = cr_ledger r in
     bindI (liftI (bindR (item d ''chain_control'') (\<lambda>c. item c ''chain_id''))) (\<lambda>cid.
     bindI (liftI (item d ''execution_order'')) (\<lambda>order.
     bindI (liftI (bindR (bindR (item d ''iplan_chain'') iter) reconciled_map)) (\<lambda>nodes.
     bindI (liftI (item d ''chain_reconciliation'')) (\<lambda>rec.
     bindI (liftI (item rec ''allowed'')) (\<lambda>allowed.
     bindI (emit (VDict [(''chain_id'', cid), (''execution_order'', order), (''iplan_chain'', VDict nodes),
        (''chain_reconciliation'', rec)])) (\<lambda>_.
     retI (exit_of (truthy allowed)))))))))))))"

section \<open>Synchronisation\<close>

record sync_args =
  sy_ledger :: string
  sy_config :: "string option"
  sy_payload :: "string option"
  sy_key_env :: string
  sy_key_id :: "string option"
  sy_dry_run :: bool

definition read_config :: "string option \<Rightarrow> ('w \<times> cli, config) io" where
  "read_config path = bindI (ask (\<lambda>c. case path of None \<Rightarrow> None | Some p \<Rightarrow> map_option fst (map_of (cl_files c) p))) (\<lambda>d.
     bindI (ask cl_environ) (\<lambda>environ. liftI (load_config d environ)))"

definition sync_identity :: "sync_args \<Rightarrow> ('w \<times> cli, (string \<times> val) list) io" where
  "sync_identity a =
     (if truthy_opt (sy_payload a)
      then bindI (load_doc (the (sy_payload a))) (\<lambda>p.
           with_db (\<lambda>(w, db). case save_identity (sy_ledger a) p db of (db', i) \<Rightarrow> (Inr i, (w, db'))))
      else ask (\<lambda>c. case load_identity (sy_ledger a) (cl_db c) of Some i \<Rightarrow> i | None \<Rightarrow> []))"

definition event_key :: "val \<Rightarrow> string res" where
  "event_key e = bindR (item e ''idempotency_key'') as_str"

definition sync_dry_run ::
  "crypto \<Rightarrow> val \<Rightarrow> (string \<times> val) list \<Rightarrow> char list \<Rightarrow> sync_args \<Rightarrow> ('w \<times> cli, int) io" where
  "sync_dry_run C document identity key a =
     bindI (liftI (bindR (to_execution_events C document identity key (resolved_key_id (sy_key_id a) identity)) (mapR event_key))) (\<lambda>keys.
     bindI (ask (\<lambda>c. load_settled (sy_ledger a) (cl_db c))) (\<lambda>settled.
     bindI (emit (VDict [(''sync'', VStr ''dry-run''), (''pending'', strs (filter (\<lambda>k. k \<notin> settled) keys)),
        (''total'', VInt (int (length keys)))])) (\<lambda>_. retI 0)))"

definition report_val :: "drain_report \<Rightarrow> nat \<times> nat \<Rightarrow> val" where
  "report_val r pruned = VDict [
     (''sync'', VStr (if report_ok r then ''ok'' else ''halted'')),
     (''delivered'', VInt (int (length (delivered r)))),
     (''dead_lettered'', VInt (int (length (dead_lettered r)))),
     (''pending'', VInt (int (length (pending r)))),
     (''halted'', opt_str (halted r)),
     (''pruned'', VDict [(''delivery'', VInt (int (fst pruned))), (''accepted_task'', VInt (int (snd pruned)))])]"

text \<open>
  \<open>t\<close> is the transport of the client for the configured token, \<open>iso_age\<close> and
  \<open>iso_before\<close> hide the current time.
\<close>

definition cmd_sync ::
  "crypto \<Rightarrow> (config \<Rightarrow> 'w transport) \<Rightarrow> (string \<Rightarrow> rat option res) \<Rightarrow> (int \<Rightarrow> string) \<Rightarrow> string \<Rightarrow> sync_args
     \<Rightarrow> ('w \<times> cli, int) io" where
  "cmd_sync C t iso_age iso_before stamp a =
     bindI (read_config (sy_config a)) (\<lambda>cfg.
     if \<not> cfg_sync_enabled cfg
     then bindI (emit (VDict [(''sync'', VStr ''disabled''), (''ledger_id'', VStr (sy_ledger a))])) (\<lambda>_. retI 0)
     else if \<not> truthy_opt (cfg_endpoint cfg)
     then bindI (emit (error_val ''iplanic.endpoint not configured'')) (\<lambda>_. retI 1) else
     bindI (with_store (\<lambda>s. bindR (load (sha256 C) (ledger_file (sy_ledger a)) s) (\<lambda>d. Inr (s, d)))) (\<lambda>document.
     bindI (sync_identity a) (\<lambda>identity.
     if identity = [] \<or> \<not> truthy (dget identity ''run_id'')
     then bindI (emit (error_val ''no iplanic identity persisted; pass --payload on the first sync'')) (\<lambda>_. retI 1) else
     bindI (ask (\<lambda>c. py_encode (env_text (sy_key_env a) c))) (\<lambda>key.
     if sy_dry_run a then sync_dry_run C document identity key a else
     bindI (with_db (drain C (t cfg) (make_client (the (cfg_endpoint cfg)) 3 0) iso_age stamp document identity
        (sy_ledger a) key (sy_key_id a) (cfg_max_age_s cfg))) (\<lambda>r.
     bindI (ask cl_environ) (\<lambda>environ.
     bindI (with_db (\<lambda>(w, db). case prune_settled iso_before environ None db of (db', n) \<Rightarrow> (Inr n, (w, db')))) (\<lambda>pruned.
     bindI (emit (report_val r pruned)) (\<lambda>_. retI (exit_of (report_ok r)))))))))) "

section \<open>Starting the receiver\<close>

text \<open>\<open>_executor_factory\<close> of the two engines: the executor of a task's workspace, or a refusal.\<close>

definition stub_host :: "('w, val, runtime_result) provider" where
  "stub_host = \<lparr>pv_call = stub_run_task None, pv_monotonic = retI 0, pv_abandon = (\<lambda>_ _. None)\<rparr>"

definition executor_factory :: "string \<Rightarrow> ('w \<times> usage) executor res" where
  "executor_factory mode =
     (if mode = ''mock'' then Inr default_executor
      else if mode = ''host'' then Inr (host_executor stub_host None)
      else Inl (ValueError (''unknown receiver.executor '' @ repr_string mode @ '' (want 'mock' or 'host')'')))"

definition stub_model :: "('w, string, model_response) provider" where
  "stub_model = \<lparr>pv_call = stub_complete ''{}'' None, pv_monotonic = retI 0, pv_abandon = (\<lambda>_ _. None)\<rparr>"

definition hermes_executor_factory ::
  "(string \<Rightarrow> val res) \<Rightarrow> 'w fs \<Rightarrow> 'v engine \<Rightarrow> string list \<Rightarrow> string \<Rightarrow> ('w \<times> usage) executor res" where
  "hermes_executor_factory loads fs en workspace mode =
     (if mode = ''mock'' then Inr default_executor
      else if mode = ''api'' then Inr (api_executor loads stub_model fs en workspace None)
      else Inl (ValueError (''unknown receiver.executor '' @ repr_string mode @ '' (want 'mock' or 'api')'')))"

text \<open>
  \<open>_server\<close> up to \<open>serve_forever\<close>: the server and whether a heartbeat is started, or the exit
  code after a refusal. \<open>bind\<close> is the socket.
\<close>

definition refuse_start :: "string \<Rightarrow> ('w \<times> cli, int + server \<times> bool) io" where
  "refuse_start why = bindI (emit (error_val why)) (\<lambda>_. retI (Inl 1))"

definition cmd_server ::
  "(string \<Rightarrow> int \<Rightarrow> unit res) \<Rightarrow> string option \<Rightarrow> ('w \<times> cli, int + server \<times> bool) io" where
  "cmd_server bind config_path =
     bindI (read_config config_path) (\<lambda>cfg.
     if \<not> receiver_enabled cfg
     then bindI (emit (VDict [(''receiver'', VStr ''disabled'')])) (\<lambda>_. retI (Inl 0)) else
     bindI (ask (env_text (receiver_auth_env cfg))) (\<lambda>token.
     if token = []
     then refuse_start (receiver_auth_env cfg @ '' is empty; the receiver requires a bearer'')
     else if \<not> truthy_opt (cfg_endpoint cfg)
     then refuse_start ''iplanic.endpoint not configured (the receiver drains events back to it)''
     else (case executor_factory (receiver_executor cfg) :: (unit \<times> usage) executor res of
       Inl e \<Rightarrow> refuse_start (case e of ValueError s \<Rightarrow> s | _ \<Rightarrow> [])
     | Inr _ \<Rightarrow>
         bindI (ask cl_db) (\<lambda>db.
         case build_receiver (bind (receiver_bind cfg) (receiver_port cfg)) token (receiver_max_parallel cfg) db of
           Inr s \<Rightarrow> retI (Inr (s, truthy_opt (receiver_executor_id cfg) \<and> truthy_opt (receiver_org_id cfg)))
         | Inl e \<Rightarrow> (case e of
               OSError why \<Rightarrow> refuse_start (''receiver failed to start: '' @ why)
             | ValueError why \<Rightarrow> refuse_start (''receiver failed to start: '' @ why)
             | _ \<Rightarrow> raiseI e)))))"

section \<open>Dispatch\<close>

datatype command =
    Ledger_Validate string
  | Gate_Run string string
  | Audit_Report string string
  | Monitor_Validate string
  | Monitor_Slo_Check string "string option"
  | Intake_Doc "string option" "string option"
  | Emit_Events string string string "string option"
  | Handover_Receipt string string
  | Run_Iplan run_args
  | Status "string option"
  | Verify string string
  | Sync sync_args
  | Pause string
  | Abort string
  | Resume string
  | Resolve string string string string
  | Run_Chain string

definition main ::
  "crypto \<Rightarrow> ('w \<times> cli) fs \<Rightarrow> (config \<Rightarrow> 'w transport) \<Rightarrow> (string \<Rightarrow> rat option res) \<Rightarrow> (int \<Rightarrow> string) \<Rightarrow> string
     \<Rightarrow> ('w \<times> cli) engine \<Rightarrow> command \<Rightarrow> ('w \<times> cli, int) io" where
  "main C fs t iso_age iso_before stamp en cmd = (let H = sha256 C in case cmd of
      Ledger_Validate path \<Rightarrow> cmd_validate H path
    | Gate_Run l g \<Rightarrow> cmd_gate H l g
    | Audit_Report b c \<Rightarrow> cmd_audit H b c
    | Monitor_Validate m \<Rightarrow> cmd_validate H m
    | Monitor_Slo_Check m s \<Rightarrow> cmd_slo_check m s
    | Intake_Doc i p \<Rightarrow> cmd_intake H en i p
    | Emit_Events l p k i \<Rightarrow> cmd_emit_events C l p k i
    | Handover_Receipt l g \<Rightarrow> cmd_handover H en l g
    | Run_Iplan a \<Rightarrow> cmd_run C fs en a
    | Status i \<Rightarrow> cmd_status H i
    | Verify l k \<Rightarrow> cmd_verify C en l k
    | Sync a \<Rightarrow> cmd_sync C t iso_age iso_before stamp a
    | Pause i \<Rightarrow> cmd_control True i
    | Abort i \<Rightarrow> cmd_control False i
    | Resume p \<Rightarrow> cmd_resume C en p
    | Resolve l b d r \<Rightarrow> cmd_resolve H en l b d r
    | Run_Chain p \<Rightarrow> cmd_run_chain C en p)"

end
