(* ===== verification/LedgerClaims.thy ===== *)
theory LedgerClaims
  imports Persistence TaskRun Stored Topo
begin

text \<open>
  Properties of the event log, of the stored ledger, of the task order and of the bounded
  retry, each on its own.
\<close>

section \<open>The event log\<close>

text \<open>
  Appending is total on complete events and keeps the chain: an event with the three
  hashed fields is appended to a verified log, the old events stay as they are, the new one
  carries the next sequence number, and the longer log verifies.
\<close>

theorem append_keeps_chain:
  assumes "verify_chain H elog = Inr True"
    and "{''event_type'', ''subject_id'', ''at''} \<subseteq> dom (map_of event)"
  shows "\<exists>kvs. append_log H elog event = Inr (elog @ [VDict kvs])
     \<and> map_of kvs ''sequence'' = Some (VInt (int (length elog) + 1))
     \<and> map_of kvs ''event_type'' = map_of event ''event_type''
     \<and> verify_chain H (elog @ [VDict kvs]) = Inr True"
proof -
  obtain e where e: "append_log H elog event = Inr (elog @ [e])"
    using append_log_total [OF assms] by blast
  then have "chain_event H elog event = Inr e" by (simp add: append_log_Inr_iff)
  from chain_event_fields [OF this] obtain kvs et where "e = VDict kvs"
    "map_of kvs ''sequence'' = Some (VInt (int (length elog) + 1))"
    "map_of event ''event_type'' = Some et" "map_of kvs ''event_type'' = Some et" by blast
  with e verify_chain_append_log [OF assms(1) e] show ?thesis by (intro exI [of _ kvs] conjI) simp_all
qed

definition zeros :: digest where
  "zeros b = replicate 64 CHR ''0''"

definition start_event :: "(string \<times> val) list" where
  "start_event = [(''event_type'', VStr ''task_started''), (''subject_id'', VStr ''T1''), (''at'', VStr ''t'')]"

theorem append_keeps_chain_witness:
  "\<exists>kvs. append_log zeros [] start_event = Inr [VDict kvs]
     \<and> map_of kvs ''sequence'' = Some (VInt 1) \<and> verify_chain zeros [VDict kvs] = Inr True"
  using append_keeps_chain [of zeros "[]" start_event]
  by (auto simp: verify_chain_def start_event_def)

text \<open>
  C24. Tampering shows. Two verified logs that end in the same hash have one length, and event
  by event the same text of type, subject and time joined by bars, unless two of their payloads
  collide under the digest. If no bar occurs in the fields of one of the logs - nothing is
  asked of the other - the types, subjects and times themselves agree. The digest gives 64
  hexadecimal digits.
\<close>

theorem log_tamper_evident:
  assumes "verify_chain H xs = Inr True" "verify_chain H ys = Inr True"
    and "last_hash None xs = last_hash None ys" and "hexdigest_fn H"
    and "\<And>x y. x \<in> set (payloads_from 0 None xs) \<Longrightarrow> y \<in> set (payloads_from 0 None ys) \<Longrightarrow> \<not> collision H x y"
  shows "map event_text xs = map event_text ys
     \<and> (list_all no_bar xs \<longrightarrow> map event_fields xs = map event_fields ys)"
proof -
  note v = assms(1,2) [unfolded verify_chain_def]
  have "payloads_from 0 None xs = payloads_from 0 None ys"
    by (rule verified_payloads_agree [OF v verified_lengths_agree [OF v assms(3)] assms(3,4)]) (use assms(5) in auto)
  then have "map event_text xs = map event_text ys"
    by (rule payloads_text) (use v assms(4) in auto)
  then show ?thesis using texts_fields by blast
qed

text \<open>A digest that tells texts apart by one letter, and an event that carries a hash of choice.\<close>

definition letter_digest :: digest where
  "letter_digest b = replicate 64 (if CHR ''z'' \<in> set b then CHR ''1'' else CHR ''0'')"

definition one_event :: "string \<Rightarrow> string \<Rightarrow> char \<Rightarrow> val" where
  "one_event et sid d = VDict [(''event_type'', VStr et), (''subject_id'', VStr sid), (''at'', VStr ''t''),
     (''sequence'', VInt 1), (''previous_event_hash'', VNone), (''event_hash'', VStr (''sha256:'' @ replicate 64 d))]"

lemma one_str: "int_str 1 = ''1''"
  by code_simp

lemma one_event_text:
  "event_fields (one_event et sid d) = (et, sid, ''t'')"
  "payload_of 0 None (one_event et sid d) = ''1||'' @ et @ ''|'' @ sid @ ''|t''"
  by (simp_all add: event_fields_def one_event_def dget_def payload_of_def event_payload_def one_str)

lemma letter_hex: "hexdigest_fn letter_digest"
  by (simp add: hexdigest_fn_def letter_digest_def)

text \<open>
  Two logs that differ by a moved bar end in one hash and have the same texts; and a log whose
  subject was changed after the fact does not verify under the hash it was published with.
\<close>

theorem log_tamper_evident_witness:
  "map event_text [one_event ''a|b'' ''c'' CHR ''0''] = map event_text [one_event ''a'' ''b|c'' CHR ''0'']
   \<and> verify_chain letter_digest [one_event ''a'' ''b'' CHR ''0''] = Inr True
   \<and> verify_chain letter_digest [one_event ''a'' ''z'' CHR ''0''] \<noteq> Inr True"
proof (intro conjI notI)
  have v: "verify_chain letter_digest [one_event et sid CHR ''0''] = Inr True"
    if "(et, sid) \<in> {(''a|b'', ''c''), (''a'', ''b|c''), (''a'', ''b'')}" for et sid
    using that by (auto simp: verify_chain_def verify_event_def one_event_def dget_def or_else_def
        compute_event_hash_def letter_digest_def event_payload_def one_str py_encode_def utf8_char_def split: if_splits)
  then show good: "verify_chain letter_digest [one_event ''a'' ''b'' CHR ''0''] = Inr True" by simp
  have last: "last_hash None [one_event et sid d] = last_hash None [one_event et' sid' d]" for et sid et' sid' d
    by (simp add: last_hash_def one_event_def dget_def)
  show "map event_text [one_event ''a|b'' ''c'' CHR ''0''] = map event_text [one_event ''a'' ''b|c'' CHR ''0'']"
    by (rule log_tamper_evident [OF v v last letter_hex, THEN conjunct1])
      (simp_all add: one_event_text collision_def)
  assume bad: "verify_chain letter_digest [one_event ''a'' ''z'' CHR ''0''] = Inr True"
  have "map event_text [one_event ''a'' ''b'' CHR ''0''] = map event_text [one_event ''a'' ''z'' CHR ''0'']"
    by (rule log_tamper_evident [OF good bad last letter_hex, THEN conjunct1])
      (simp_all add: one_event_text collision_def letter_digest_def py_encode_def utf8_char_def)
  then show False by (simp add: event_text_def one_event_text)
qed

text \<open>
  What the hash does not separate: the payload joins its fields with an unescaped bar, so
  moving a bar between type and subject leaves the event hash as it is, under every digest.
\<close>

theorem event_hash_shift:
  "compute_event_hash H n p (a @ ''|'' @ b) sid t = compute_event_hash H n p a (b @ ''|'' @ sid) t"
  by (simp add: compute_event_hash_def event_payload_def)

section \<open>The stored ledger\<close>

lemma saved_loads:
  assumes "verify_chain H (execution_log l) = Inr True" and "CHR ''/'' \<notin> set (ledger_id (ledger_control l))"
  shows "save (ledger_val l) s
       = Inr (run_steps (ledger_id (ledger_control l)) (ledger_val l) save_steps s, ledger_file (ledger_id (ledger_control l)))
     \<and> load H (ledger_file (ledger_id (ledger_control l)))
         (run_steps (ledger_id (ledger_control l)) (ledger_val l) save_steps s) = Inr (ledger_val l)"
proof -
  let ?i = "ledger_id (ledger_control l)"
  have i: "bindR (item (ledger_val l) ''ledger_control'') (\<lambda>c. item c ''ledger_id'') = Inr (VStr ?i)"
    by (simp add: item_ledger_val control_val_def)
  have "map_of (documents (run_steps ?i (ledger_val l) save_steps s)) (ledger_file ?i) = Some (ledger_val l)"
    by (simp add: saved_documents)
  moreover have "is_dict (ledger_val l)" by (simp add: ledger_val_def)
  ultimately have "load H (ledger_file ?i) (run_steps ?i (ledger_val l) save_steps s) = Inr (ledger_val l)"
    using assms(1) by (simp add: load_def get_ledger_val)
  then show ?thesis using i assms(2) by (simp add: save_def)
qed

text \<open>The status query on a document that is a ledger.\<close>

lemma ledger_status_val:
  assumes "load H (ledger_file lid) s = Inr (ledger_val l)"
  shows "ledger_status H lid s = Inr (VDict [
      (''ledger_id'', VStr lid),
      (''source_iplan'', source_iplan (ledger_control l)),
      (''tasks'', VDict (map (\<lambda>(s, n). (s, VInt n)) (foldl count_status [] (map te_status (task_ledger l))))),
      (''reconciliation'', reconciliation_val (reconciled l)),
      (''open_blockers'', VInt (int (length (blockers l))))])"
proof -
  have "mapR (\<lambda>t. bindR (item t ''status'') as_str) (map task_val ts) = Inr (map te_status ts)" for ts
    by (induction ts) (simp_all add: task_val_def as_str_def)
  moreover have "get (control_val c) ''source_iplan'' = Inr (source_iplan c)" for c
    by (simp add: control_val_def dget_def)
  ultimately show ?thesis
    using assms by (simp add: ledger_status_def get_ledger_val py_len_def)
qed

text \<open>
  C23. A ledger survives its store. A ledger whose log verifies, under an id that is a file name,
  is saved; it then loads back and decodes to itself; the runs listed are those listed before
  and this one; and the status query shows its plan, for every status the number of its tasks
  that are in it, its reconciliation and the number of its blockers. Until the final replace
  the previous file is what a reader finds.
\<close>

theorem save_load_roundtrip:
  assumes "verify_chain H (execution_log l) = Inr True"
    and "lid = ledger_id (ledger_control l)" "lid \<noteq> []" "CHR ''/'' \<notin> set lid"
  shows "\<exists>s' counts. save (ledger_val l) s = Inr (s', ledger_file lid)
     \<and> bindR (load H (ledger_file lid) s') ledger_of = Inr l
     \<and> set (list_runs s') = insert lid (set (list_runs s)) \<and> sorted (list_runs s')
     \<and> ledger_status H lid s' = Inr (VDict [
          (''ledger_id'', VStr lid),
          (''source_iplan'', source_iplan (ledger_control l)),
          (''tasks'', VDict counts),
          (''reconciliation'', reconciliation_val (reconciled l)),
          (''open_blockers'', VInt (int (length (blockers l))))])
     \<and> (\<forall>st. map_of counts st = (let n = count_list (map te_status (task_ledger l)) st in
            if n = 0 then None else Some (VInt (int n))))
     \<and> map_of (documents (run_steps lid (ledger_val l) [Write_Tmp] s)) (ledger_file lid) = map_of (documents s) (ledger_file lid)"
proof -
  let ?s' = "run_steps lid (ledger_val l) save_steps s"
  let ?counts = "map (\<lambda>(s, n). (s, VInt n)) (foldl count_status [] (map te_status (task_ledger l)))"
  have sv: "save (ledger_val l) s = Inr (?s', ledger_file lid)" "load H (ledger_file lid) ?s' = Inr (ledger_val l)"
    using saved_loads [OF assms(1), of s] assms(2,4) by simp_all
  have "map_of ?counts st = (let n = count_list (map te_status (task_ledger l)) st in
            if n = 0 then None else Some (VInt (int n)))" for st
    by (simp add: map_of_map counted Let_def)
  moreover have "map_of (documents (run_steps lid (ledger_val l) [Write_Tmp] s)) (ledger_file lid)
      = map_of (documents s) (ledger_file lid)"
    using save_prefix [of lid "ledger_val l" 1 s] by (simp add: save_steps_def)
  ultimately show ?thesis
    using sv saved_runs [OF assms(3)] ledger_status_val [OF sv(2)]
    by (intro exI [of _ ?s'] exI [of _ ?counts]) (simp add: ledger_of_val list_runs_def)
qed

definition first_event :: "string \<Rightarrow> val" where
  "first_event path = VDict [(''event_type'', VStr ''a''), (''subject_id'', VStr ''b''), (''at'', VStr ''t''),
     (''touched_paths'', VList [VStr path]), (''sequence'', VInt 1), (''previous_event_hash'', VNone),
     (''event_hash'', VStr (''sha256:'' @ replicate 64 CHR ''0''))]"

lemma first_event_verifies: "verify_chain zeros [first_event p] = Inr True"
  by (simp add: verify_chain_def verify_event_def first_event_def dget_def or_else_def compute_event_hash_def
      zeros_def)

definition stored_ledger :: ledger where
  "stored_ledger = \<lparr>ledger_control = \<lparr>ledger_id = ''LEDGER-I'', source_iplan = VStr ''I'', source_iplan_version = VStr ''1'',
       source_iplan_checksum = VStr ''c'', lc_status = ''in_progress'', run_state = ''paused'', requires_landing = Some True\<rparr>,
     isolation_scope = [(''client_id'', VStr ''a'')],
     task_ledger = map (\<lambda>(i, st). \<lparr>te_task_id = VStr i, te_title = VStr ''t'', te_status = st, te_evidence_refs = [],
        te_criteria = VList [], te_result = ''none'', te_blocked_reason = None, te_decision_owner = None\<rparr>)
        [(''T1'', ''completed''), (''T2'', ''pending''), (''T3'', ''pending'')],
     agent_leases = [], execution_evidence = [], blockers = [],
     reconciled = \<lparr>r_allowed = False, pending_tasks = 2, open_blockers = 0\<rparr>, saga_journal = [],
     execution_history = [], execution_log = [first_event ''x''], vcs = None, resolutions = Some []\<rparr>"

lemma stored_ledger_verifies: "verify_chain zeros (execution_log stored_ledger) = Inr True"
  by (simp add: stored_ledger_def first_event_verifies)

theorem save_load_roundtrip_witness:
  "\<exists>s' counts. save (ledger_val stored_ledger) \<lparr>documents = [(''LEDGER-H.yaml'', VNone)], controls = []\<rparr> = Inr (s', ''LEDGER-I.yaml'')
     \<and> bindR (load zeros ''LEDGER-I.yaml'' s') ledger_of = Inr stored_ledger
     \<and> set (list_runs s') = {''LEDGER-I'', ''LEDGER-H''}
     \<and> map_of counts ''pending'' = Some (VInt 2) \<and> map_of counts ''blocked'' = None
     \<and> map_sum id (\<lambda>v. item v ''tasks'') (ledger_status zeros ''LEDGER-I'' s') = Inr (Inr (VDict counts))"
proof -
  let ?s = "\<lparr>documents = [(''LEDGER-H.yaml'', VNone)], controls = []\<rparr>"
  have id: "''LEDGER-I'' = ledger_id (ledger_control stored_ledger)" by (simp add: stored_ledger_def)
  have runs: "set (list_runs ?s) = {''LEDGER-H''}"
    by (simp add: list_runs_def endswith_def suffix_def stem_def)
  have n: "count_list (map te_status (task_ledger stored_ledger)) ''pending'' = 2"
    "count_list (map te_status (task_ledger stored_ledger)) ''blocked'' = 0"
    by (simp_all add: stored_ledger_def)
  obtain s' counts where
    1: "save (ledger_val stored_ledger) ?s = Inr (s', ledger_file ''LEDGER-I'')" and
    2: "bindR (load zeros (ledger_file ''LEDGER-I'') s') ledger_of = Inr stored_ledger" and
    3: "set (list_runs s') = insert ''LEDGER-I'' (set (list_runs ?s))" and
    4: "ledger_status zeros ''LEDGER-I'' s' = Inr (VDict [
          (''ledger_id'', VStr ''LEDGER-I''),
          (''source_iplan'', source_iplan (ledger_control stored_ledger)),
          (''tasks'', VDict counts),
          (''reconciliation'', reconciliation_val (reconciled stored_ledger)),
          (''open_blockers'', VInt (int (length (blockers stored_ledger))))])" and
    5: "\<forall>st. map_of counts st = (let n = count_list (map te_status (task_ledger stored_ledger)) st in
            if n = 0 then None else Some (VInt (int n)))"
    using save_load_roundtrip [OF stored_ledger_verifies id, of ?s] by auto
  show ?thesis
    using 1 2 3 4 spec [OF 5, of "''pending''"] spec [OF 5, of "''blocked''"] n
    by (intro exI [of _ s'] exI [of _ counts]) (simp add: runs ledger_file_def)
qed

section \<open>The task order\<close>

text \<open>
  C25. The order exists and is right: on a readable task graph \<open>topo_order\<close> terminates
  without an exception, visits every task id once, and, when the dependencies are acyclic
  (some rank decreases along them), places every dependency before its dependents.
\<close>

theorem topo_order_correct:
  assumes "graph_deps graph = Inr m"
  shows "\<exists>order. topo_order graph = Inr order \<and> set order = set (map fst m) \<and> distinct order
     \<and> (ranked rank (deps_fun m) (set (map fst m)) {}
          \<longrightarrow> (\<forall>t \<in> set order. \<forall>d. VStr d \<in> set (deps_fun m t) \<longrightarrow> before order [] t d))"
proof -
  obtain order where o: "order_loop str_lt (deps_fun m) (map fst m) [] = Inr order"
    using order_loop_str_total by blast
  then have "topo_order graph = Inr order" using assms by (simp add: topo_order_def)
  moreover have "before order [] t d"
    if "ranked rank (deps_fun m) (set (map fst m)) {}" "t \<in> set order" "VStr d \<in> set (deps_fun m t)" for t d
    using order_loop_respects_deps [OF o, of rank] that by simp
  ultimately show ?thesis using order_loop_perm [OF o] by blast
qed

definition diamond :: "val list" where
  "diamond = map (\<lambda>(i, ds). VDict [(''task_id'', VStr i), (''depends_on'', VList (map VStr ds))])
     [(''c'', [''a'', ''b'']), (''b'', [''a'']), (''a'', [])]"

definition diamond_deps :: "(string \<times> val list) list" where
  "diamond_deps = [(''c'', [VStr ''a'', VStr ''b'']), (''b'', [VStr ''a'']), (''a'', [])]"

lemma diamond_graph: "graph_deps diamond = Inr diamond_deps"
  by (simp add: graph_deps_def diamond_def diamond_deps_def dget_or_def mk_set_def)

theorem topo_order_correct_witness:
  "\<exists>order. topo_order diamond = Inr order \<and> set order = {''a'', ''b'', ''c''}
     \<and> before order [] ''c'' ''a'' \<and> before order [] ''c'' ''b''"
proof -
  let ?rank = "\<lambda>t :: string. if t = ''c'' then 2 else if t = ''b'' then 1 else 0 :: nat"
  have "ranked ?rank (deps_fun diamond_deps) (set (map fst diamond_deps)) {}"
    by (simp add: ranked_def diamond_deps_def deps_fun_def)
  with topo_order_correct [OF diamond_graph, of ?rank] obtain order where
    o: "topo_order diamond = Inr order" "set order = set (map fst diamond_deps)"
    and b: "\<forall>t \<in> set order. \<forall>d. VStr d \<in> set (deps_fun diamond_deps t) \<longrightarrow> before order [] t d" by blast
  have "''c'' \<in> set order" "VStr ''a'' \<in> set (deps_fun diamond_deps ''c'')" "VStr ''b'' \<in> set (deps_fun diamond_deps ''c'')"
    unfolding o(2) by (simp_all add: diamond_deps_def deps_fun_def)
  with b have "before order [] ''c'' ''a''" "before order [] ''c'' ''b''" by blast+
  with o show ?thesis by (intro exI [of _ order]) (auto simp: diamond_deps_def)
qed

section \<open>The bounded retry\<close>

text \<open>
  Retries are bounded and never given up early: the executor is called at least once and
  at most \<open>max_retries + 1\<close> times (once when \<open>max_retries\<close> is negative), and the loop
  ends with a success, with a failure that is not retriable, or with the last attempt.
\<close>

theorem retry_bounded:
  assumes "execute_with_retry env task scope max_retries base w = (Inr (result, n), w')"
  shows "1 \<le> n \<and> n \<le> max 1 (max_retries + 1)
     \<and> (outcome result = ''success'' \<or> \<not> retriable result \<or> max_retries < n)"
  using retry_loop_bounds [of env task scope max_retries base 0 w result n w'] assms
  by (simp add: execute_with_retry_def succeeded_def)

text \<open>An executor that fails retriably until its third call, on a world that counts the calls.\<close>

definition flaky :: "nat env" where
  "flaky = \<lparr>clock = retI ''t'', ids = retI, sleep = (\<lambda>_. retI ()), control = retI ''running'',
     execute = (\<lambda>t s n. (Inr \<lparr>outcome = (if n < 2 then ''failure'' else ''success''), touched_paths = [],
        evidence = None, reason = None, retriable = True\<rparr>, Suc n)),
     compensate = (\<lambda>_. retI ()), git_has_changes = (\<lambda>_. retI False), git_commit_all = (\<lambda>_ _ _. retI [])\<rparr>"

lemma flaky_runs: "\<exists>r w. execute_with_retry flaky VNone [] 1 0 0 = (Inr (r, 2), w)"
  by (simp add: execute_with_retry_def retry_loop.simps flaky_def bindI_app)

theorem retry_bounded_witness:
  "\<exists>r w. execute_with_retry flaky VNone [] 1 0 0 = (Inr (r, 2), w)
     \<and> (outcome r = ''success'' \<or> \<not> retriable r \<or> (1 :: int) < 2)"
proof -
  obtain r w where "execute_with_retry flaky VNone [] 1 0 0 = (Inr (r, 2), w)" using flaky_runs by blast
  with retry_bounded [OF this] show ?thesis by blast
qed

end
