(* ===== verification/ExecutorClaims.thy ===== *)
theory ExecutorClaims
  imports Engine
begin

text \<open>
  Properties of the effectors and executors: the path jail, writes, action scripts, evidence,
  budgets and governed calls.
\<close>

section \<open>The jail\<close>

text \<open>
  C12. The jail holds. A path the sandbox allows is relative; following its components from
  the workspace never leaves it, and what it reaches is the normal form the roots were
  compared with; some allowed root contains it and no forbidden path does.
\<close>

theorem jail_confines:
  assumes "jd_allowed (classify_path path roots forbidden)"
  shows "\<not> isabs path
     \<and> (\<exists>cs. walk [] (split_on slash path) = Some cs \<and> normpath path = (if cs = [] then ''.'' else join [slash] cs))
     \<and> (\<exists>r \<in> set roots. under (normpath path) r) \<and> (\<forall>f \<in> set forbidden. \<not> under (normpath path) f)"
  using classify_allowed [OF assms] by metis

lemma jail_example: "jd_allowed (classify_path ''src/x/../a'' [''src''] [''src/secret''])"
  by code_simp

theorem jail_confines_witness:
  "\<not> isabs ''src/x/../a'' \<and> walk [] (split_on slash ''src/x/../a'') = Some [''src'', ''a'']
     \<and> \<not> under (normpath ''src/x/../a'') ''src/secret''"
proof -
  have "walk [] (split_on slash ''src/x/../a'') = Some [''src'', ''a'']" by code_simp
  then show ?thesis using jail_confines [OF jail_example] by (meson list.set_intros(1))
qed

text \<open>
  A write is guarded before it has an effect: without the jail's permission, or when the
  deepest existing ancestor of the target resolves outside the workspace,
  \<open>apply_write\<close> raises \<open>PermissionError\<close> and the world is as it was; a write that
  returns was permitted by both.
\<close>

definition guarded :: "'w fs \<Rightarrow> string \<Rightarrow> string list \<Rightarrow> string list \<Rightarrow> 'w \<Rightarrow> bool" where
  "guarded fs path workspace roots w \<longleftrightarrow> jd_allowed (classify_path path roots [])
     \<and> inside (fs_resolve fs workspace w)
         (fs_resolve fs (existing_ancestor (\<lambda>p. fs_exists fs p w) (rev (path_join (fs_resolve fs workspace w) path))) w)"

lemma apply_write_unguarded:
  "\<not> guarded fs path workspace roots w \<Longrightarrow>
     \<exists>s. apply_write fs path content workspace roots w = (Inl (PermissionError s), w)"
  by (auto simp: apply_write_def guarded_def Let_def)

lemma apply_write_Inr:
  assumes "apply_write fs path content workspace roots w = (Inr p, w')"
  shows "guarded fs path workspace roots w \<and> p = path"
proof -
  have "guarded fs path workspace roots w"
    using apply_write_unguarded [of fs path workspace roots w content] assms by auto
  with assms show ?thesis by (auto simp: apply_write_def guarded_def Let_def bindI_Inr_iff)
qed

theorem write_guarded:
  assumes "apply_write fs path content workspace roots w = (r, w')"
  shows "(\<not> guarded fs path workspace roots w \<longrightarrow> w' = w \<and> (\<exists>s. r = Inl (PermissionError s)))
     \<and> (\<forall>p. r = Inr p \<longrightarrow> guarded fs path workspace roots w \<and> p = path)"
  using assms apply_write_unguarded [of fs path workspace roots w content]
    apply_write_Inr [of fs path content workspace roots w] by auto

text \<open>A file system of plain directories, without links, that holds the list of its files.\<close>

definition plain_fs :: "(string list \<times> string) list fs" where
  "plain_fs = \<lparr>fs_resolve = (\<lambda>p w. p), fs_exists = (\<lambda>p w. length p \<le> 1), fs_is_file = (\<lambda>p w. p \<in> fst ` set w),
     fs_mkdir = (\<lambda>p. retI ()), fs_write = (\<lambda>p c w. (Inr (), (p, c) # w)),
     fs_unlink = (\<lambda>p w. (Inr (), filter (\<lambda>f. fst f \<noteq> p) w)), fs_run = (\<lambda>cmd p w. (Inr (0, ''ok''), w))\<rparr>"

theorem write_guarded_witness:
  "\<exists>s. apply_write plain_fs ''../x'' (VStr ''c'') [''w''] [''src''] [] = (Inl (PermissionError s), [])"
proof -
  have "\<not> guarded plain_fs ''../x'' [''w''] [''src''] []" by code_simp
  with write_guarded [of plain_fs "''../x''" "VStr ''c''" "[''w'']" "[''src'']" "[]"
      "fst (apply_write plain_fs ''../x'' (VStr ''c'') [''w''] [''src''] [])"
      "snd (apply_write plain_fs ''../x'' (VStr ''c'') [''w''] [''src''] [])"]
  show ?thesis by (metis prod.collapse)
qed

section \<open>Scripts and evidence\<close>

lemma run_action_touched:
  assumes "run_action fs workspace roots touched a w = (Inr p, w')"
    and "\<forall>q \<in> set touched. jd_allowed (classify_path q roots [])"
  shows "case p of Goes t \<Rightarrow> \<forall>q \<in> set t. jd_allowed (classify_path q roots [])
     | Stops r \<Rightarrow> (\<forall>q \<in> set (touched_paths r). jd_allowed (classify_path q roots [])) \<and> outcome r = ''failure''"
proof -
  have allowed: "guarded fs q workspace roots v \<Longrightarrow> jd_allowed (classify_path q roots [])" for q v
    by (simp add: guarded_def)
  show ?thesis
    using assms
    by (auto simp: run_action_def catchI_Inr_iff bindI_Inr_iff failure_def dest!: apply_write_Inr allowed
        split: if_splits pyerr.splits)
qed

lemma run_actions_touched:
  assumes "run_actions fs workspace roots touched as w = (Inr p, w')"
    and "\<forall>q \<in> set touched. jd_allowed (classify_path q roots [])"
  shows "case p of Goes t \<Rightarrow> \<forall>q \<in> set t. jd_allowed (classify_path q roots [])
     | Stops r \<Rightarrow> (\<forall>q \<in> set (touched_paths r). jd_allowed (classify_path q roots [])) \<and> outcome r = ''failure''"
  using assms
proof (induction as arbitrary: touched w)
  case (Cons a as)
  from Cons.prems(1) obtain p1 w1 where p1: "run_action fs workspace roots touched a w = (Inr p1, w1)"
    and rest: "(case p1 of Stops r \<Rightarrow> retI (Stops r) | Goes touched \<Rightarrow> run_actions fs workspace roots touched as) w1 = (Inr p, w')"
    by (auto simp: bindI_Inr_iff)
  note step = run_action_touched [OF p1 Cons.prems(2)]
  show ?case
  proof (cases p1)
    case (Goes t)
    with step rest Cons.IH [of t w1] show ?thesis by simp
  next
    case (Stops r)
    with step rest show ?thesis by auto
  qed
qed auto

lemma run_checks_spec:
  "foldI (\<lambda>(passed, results) c. bindI (run_check fs workspace secrets c) (\<lambda>r.
        retI (passed \<and> ck_exit r = 0, results @ [r]))) s checks w = (Inr s', w') \<Longrightarrow>
   \<exists>rs. snd s' = snd s @ rs \<and> fst s' = (fst s \<and> (\<forall>r \<in> set rs. ck_exit r = 0)) \<and> length rs = length checks
     \<and> (\<forall>r \<in> set rs. \<exists>out. ck_output r = redact out secrets)"
proof (induction checks arbitrary: s w)
  case (Cons c cs)
  obtain b rs0 where s: "s = (b, rs0)" by (cases s)
  obtain r w1 where r: "run_check fs workspace secrets c w = (Inr r, w1)"
    and rest: "foldI (\<lambda>(passed, results) c. bindI (run_check fs workspace secrets c) (\<lambda>r.
        retI (passed \<and> ck_exit r = 0, results @ [r]))) (b \<and> ck_exit r = 0, rs0 @ [r]) cs w1 = (Inr s', w')"
    using Cons.prems unfolding foldI.simps s prod.case bindI_Inr_iff retI_app by blast
  from r obtain out where "ck_output r = redact out secrets" by (auto simp: run_check_def bindI_Inr_iff)
  moreover obtain rs where "snd s' = rs0 @ r # rs" "fst s' = ((b \<and> ck_exit r = 0) \<and> (\<forall>r \<in> set rs. ck_exit r = 0))"
    "length rs = length cs" "\<forall>r \<in> set rs. \<exists>out. ck_output r = redact out secrets"
    using Cons.IH [OF rest] by auto
  ultimately show ?case using s by (intro exI [of _ "r # rs"]) auto
qed simp

text \<open>
  C40. Evidence is honest and redacted: checks run one by one, each leaves one result, they
  pass exactly when every exit code is zero, and no secret (a non-empty string without a
  star) occurs in any captured output.
\<close>

theorem checks_redacted:
  assumes "run_checks fs checks workspace secrets w = (Inr (passed, results), w')"
  shows "length results = length checks \<and> (passed \<longleftrightarrow> (\<forall>r \<in> set results. ck_exit r = 0))
     \<and> (\<forall>r \<in> set results. \<forall>t \<in> set secrets. starless t \<longrightarrow> \<not> sublist t (ck_output r))"
  using run_checks_spec [of fs workspace secrets "(True, [])" checks w "(passed, results)" w'] assms redact_removes
  by (fastforce simp: run_checks_def)

definition leaky_fs :: "unit fs" where
  "leaky_fs = \<lparr>fs_resolve = (\<lambda>p w. p), fs_exists = (\<lambda>p w. True), fs_is_file = (\<lambda>p w. False),
     fs_mkdir = (\<lambda>p. retI ()), fs_write = (\<lambda>p c. retI ()), fs_unlink = (\<lambda>p. retI ()),
     fs_run = (\<lambda>cmd p. retI (0, ''token=abc!''))\<rparr>"

definition leaky_check :: val where
  "leaky_check = VDict [(''name'', VStr ''c''), (''command'', VList [VStr ''env''])]"

lemma leaky_run: "run_checks leaky_fs [leaky_check] [] [''abc''] () =
   (Inr (True, [\<lparr>ck_name = VStr ''c'', ck_exit = 0, ck_output = ''token=***!''\<rparr>]), ())"
  by code_simp

theorem checks_redacted_witness:
  "\<not> sublist ''abc'' (ck_output \<lparr>ck_name = VStr ''c'', ck_exit = 0, ck_output = ''token=***!''\<rparr>)"
  using checks_redacted [OF leaky_run] by (simp add: starless_def)

text \<open>
  A script stays in its jail: whatever the actions of a task are, every path the executor
  reports as touched passed the jail for the roots of the run, and a failure has a reason.
\<close>

theorem script_confined:
  assumes "apply_task_spec fs spec workspace roots secrets w = (Inr r, w')"
  shows "(\<forall>p \<in> set (touched_paths r). jd_allowed (classify_path p roots []))
     \<and> outcome r \<in> {''success'', ''failure''}"
proof -
  from assms obtain actions p w1 where p: "run_actions fs workspace roots [] actions w = (Inr p, w1)"
    and rest: "(case p of Stops r \<Rightarrow> retI r
       | Goes touched \<Rightarrow>
           bindI (liftI (get_or spec ''checks'' (VList []))) (\<lambda>checks.
           if \<not> truthy checks
           then retI \<lparr>outcome = ''success'', touched_paths = touched, evidence = None, reason = None, retriable = False\<rparr>
           else
           bindI (liftI (iter checks)) (\<lambda>checks.
           bindI (run_checks fs checks workspace secrets) (\<lambda>(passed, results).
           retI \<lparr>outcome = (if passed then ''success'' else ''failure''), touched_paths = touched,
             evidence = Some (checks_evidence results),
             reason = (if passed then None else Some ''checks failed''), retriable = False\<rparr>)))) w1 = (Inr r, w')"
    unfolding apply_task_spec_def bindI_Inr_iff liftI_app by blast
  note t = run_actions_touched [OF p]
  show ?thesis
  proof (cases p)
    case (Goes touched)
    with t have "\<forall>q \<in> set touched. jd_allowed (classify_path q roots [])" by simp
    moreover have "touched_paths r = touched \<and> outcome r \<in> {''success'', ''failure''}"
      using rest Goes by (auto simp: bindI_Inr_iff split: if_splits)
    ultimately show ?thesis by simp
  next
    case (Stops r')
    with t rest show ?thesis by simp
  qed
qed

definition two_writes :: val where
  "two_writes = VDict [(''actions'', VList [
     VDict [(''type'', VStr ''write''), (''path'', VStr ''src/a''), (''content'', VStr ''1'')],
     VDict [(''type'', VStr ''write''), (''path'', VStr ''etc/b''), (''content'', VStr ''2'')]])]"

lemma two_writes_run: "apply_task_spec plain_fs two_writes [''w''] [''src''] [] [] =
   (Inr (failure [''src/a''] ''sandbox denied etc/b: SANDBOX.OUTSIDE_ROOTS''), [([''w'', ''src'', ''a''], ''1'')])"
  by code_simp

theorem script_confined_witness:
  "jd_allowed (classify_path ''src/a'' [''src''] [])"
  using script_confined [OF two_writes_run] by (simp add: failure_def)

section \<open>Budgets\<close>

definition in_budget :: "budget \<Rightarrow> usage \<Rightarrow> bool" where
  "in_budget b u \<longleftrightarrow> (case max_tokens b of None \<Rightarrow> True | Some m \<Rightarrow> u_tokens u \<le> m)
     \<and> (case max_cost_usd b of None \<Rightarrow> True | Some m \<Rightarrow> u_cost u \<le> m)
     \<and> (case max_wall_s b of None \<Rightarrow> True | Some m \<Rightarrow> u_wall u \<le> m)"

lemma over_typed:
  "over (limit_val VInt t) (usage_val u) ''tokens'' = Inr (case t of None \<Rightarrow> False | Some m \<Rightarrow> m < u_tokens u)"
  "over (limit_val VFloat c) (usage_val u) ''cost_usd'' = Inr (case c of None \<Rightarrow> False | Some m \<Rightarrow> m < u_cost u)"
  "over (limit_val VFloat c) (usage_val u) ''wall_s'' = Inr (case c of None \<Rightarrow> False | Some m \<Rightarrow> m < u_wall u)"
  by (auto simp: over_def limit_val_def usage_val_def dget_or_def py_lt_def split: option.splits)

lemma check_typed: "\<exists>d. check (Typed b) (usage_val u) = Inr d \<and> (bd_allowed d \<longleftrightarrow> in_budget b u)"
  by (auto simp: check_def check_limits_def over_typed in_budget_def split: option.splits)

text \<open>
  C39. A spent budget stops the next call before it is made: over any limit, both governed
  executors answer a budget failure, and neither the world nor the usage changes.
\<close>

theorem spent_budget_blocks:
  assumes "\<not> in_budget b u"
  shows "\<exists>why. host_execute p b task scope (w, u) = (Inr (budget_failure why), (w, u))
     \<and> api_execute loads q fs b workspace secrets task scope (w, u) = (Inr (budget_failure why), (w, u))"
proof -
  obtain d where "check (Typed b) (usage_val u) = Inr d" "\<not> bd_allowed d" using check_typed assms by blast
  then show ?thesis
    by (intro exI [of _ "bd_reason d"]) (simp add: host_execute_def api_execute_def check_usage_def bindI_app)
qed

definition capped :: budget where
  "capped = \<lparr>max_tokens = Some 10, max_cost_usd = None, max_wall_s = None\<rparr>"

definition idle_host :: "(unit, val, runtime_result) provider" where
  "idle_host = \<lparr>pv_call = stub_run_task None, pv_monotonic = retI 0, pv_abandon = (\<lambda>_ _. None)\<rparr>"

theorem spent_budget_blocks_witness:
  "\<exists>why. host_execute idle_host capped VNone []
     ((), no_usage\<lparr>u_tokens := 11\<rparr>) = (Inr (budget_failure why), ((), no_usage\<lparr>u_tokens := 11\<rparr>))"
proof -
  have "\<not> in_budget capped (no_usage\<lparr>u_tokens := 11\<rparr>)" by (simp add: in_budget_def capped_def no_usage_def)
  from spent_budget_blocks [OF this, of idle_host VNone "[]" "()"] show ?thesis by blast
qed

text \<open>
  C28. The governor of a host runtime: a success it reports stayed within the budget and
  changed only files the jail allows for the roots of the run.
\<close>

lemma judge_success:
  assumes "outcome (judge_runtime roots result) = ''success''"
  shows "touched_paths (judge_runtime roots result) = rt_changed result \<and> rt_success result
     \<and> (\<forall>p \<in> set (rt_changed result). jd_allowed (classify_path p roots []))"
proof (cases "find (\<lambda>p. \<not> jd_allowed (classify_path p roots [])) (rt_changed result)")
  case None
  then have "\<forall>p \<in> set (rt_changed result). jd_allowed (classify_path p roots [])" by (simp add: find_None_iff)
  moreover have "touched_paths (judge_runtime roots result) = rt_changed result \<and> rt_success result"
    using None assms by (simp add: judge_runtime_def failure_def split: if_splits)
  ultimately show ?thesis by blast
next
  case (Some p)
  with assms show ?thesis by (simp add: judge_runtime_def failure_def)
qed

lemma check_usage_Inr: "check_usage b s = (Inr d, s') \<Longrightarrow> s' = s \<and> (bd_allowed d \<longleftrightarrow> in_budget b (snd s))"
  using check_typed [of b "snd s"] by (auto simp: check_usage_def split: prod.splits)

lemma host_execute_cases:
  assumes "host_execute p b task scope s = (Inr r, s')"
  shows "(\<exists>why. r = budget_failure why)
     \<or> (\<exists>result roots. scope_roots scope = Inr roots \<and> r = judge_runtime roots result \<and> in_budget b (snd s'))"
proof (rule ccontr)
  assume no: "\<not> ?thesis"
  from assms no obtain s1 result s2 d s3 roots where
    d: "check_usage b s2 = (Inr d, s3)" "bd_allowed d" and roots: "scope_roots scope = Inr roots"
    "r = judge_runtime roots result" "s' = s3"
    unfolding host_execute_def bindI_Inr_iff by (auto simp: bindI_Inr_iff split: if_splits option.splits)
  with check_usage_Inr [OF d(1)] no show False by blast
qed

theorem host_governed:
  assumes "host_execute p b task scope s = (Inr r, s')" and "outcome r = ''success''"
  shows "in_budget b (snd s') \<and> (\<exists>roots. scope_roots scope = Inr roots
     \<and> (\<forall>f \<in> set (touched_paths r). jd_allowed (classify_path f roots [])))"
proof -
  have "\<not> (\<exists>why. r = budget_failure why)" using assms(2) by (auto simp: budget_failure_def failure_def)
  with host_execute_cases [OF assms(1)] obtain result roots where
    r: "scope_roots scope = Inr roots" "r = judge_runtime roots result" "in_budget b (snd s')" by blast
  with judge_success [of roots result] assms(2) show ?thesis by simp
qed

definition honest_host :: "(unit, val, runtime_result) provider" where
  "honest_host = \<lparr>pv_call = stub_run_task (Some \<lparr>rt_success = True, rt_changed = [''src/a''], rt_output = ''done'',
     rt_usage = [(''tokens'', VInt 7)]\<rparr>), pv_monotonic = retI 0, pv_abandon = (\<lambda>_ _. None)\<rparr>"

lemma honest_run:
  "host_execute honest_host capped VNone [(''allowed_roots'', VList [VStr ''src''])] ((), no_usage)
     = (Inr \<lparr>outcome = ''success'', touched_paths = [''src/a''],
         evidence = Some [(''kind'', VStr ''runtime''), (''summary'', VStr ''done''), (''location'', VStr ''workspace'')],
         reason = None, retriable = False\<rparr>, ((), no_usage\<lparr>u_tokens := 7\<rparr>))"
  by code_simp

theorem host_governed_witness:
  "in_budget capped (no_usage\<lparr>u_tokens := 7\<rparr>)"
  using host_governed [OF honest_run] by simp

end
