(* ===== verification/SecurityClaims.thy ===== *)
theory SecurityClaims
  imports Engine LedgerClaims Examples
begin

text \<open>
  Properties of authorization, of the signatures and of the door a dispatched payload enters
  through.
\<close>

section \<open>A cryptography for the examples\<close>

definition toy_crypto :: crypto where
  "toy_crypto = \<lparr>jcs = (\<lambda>v. Inr (json_sorted v)), sha256 = zeros, hmac_hex = (\<lambda>k d. to_hex (take 2 k)),
     ed_sign = (\<lambda>k d. Inr (k @ d)), ed_verify = (\<lambda>k s d. Inr (s = k @ d))\<rparr>"

section \<open>Operators\<close>

text \<open>
  Landing needs the operator: for an actor of any other role (or without one)
  \<open>land\<close> raises before it has an effect, so no commit is made and the world is as it was.
\<close>

theorem land_needs_operator:
  assumes "get actor ''role'' \<noteq> Inr (VStr ''operator'')"
  shows "\<exists>e. engine_land C en env l workspace branch msg (Some actor) w = (Inl e, w)"
proof (cases "authorize actor ''land''")
  case (Inl e)
  then show ?thesis by (simp add: engine_land_def bindI_app)
next
  case (Inr v)
  have "\<not> permitted actor ''land''" using permitted_operator_only [of actor "''land''"] assms by auto
  then have "\<not> v_allowed v" using authorize_allowed [OF Inr] by blast
  then show ?thesis by (simp add: engine_land_def bindI_app Inr)
qed

definition agent_actor :: val where
  "agent_actor = VDict [(''id'', VStr ''a''), (''role'', VStr ''agent'')]"

definition plain_engine :: "string \<Rightarrow> unit engine" where
  "plain_engine n = \<lparr>en_name = n, en_config = default_config, en_clock = retI ''t'', en_sleep = (\<lambda>_. retI ()),
     en_has_changes = (\<lambda>_. retI True), en_commit_all = (\<lambda>_ _ _. retI ''sha''), en_provider = noop_provider\<rparr>"

theorem land_needs_operator_witness:
  "\<exists>e. engine_land toy_crypto (plain_engine ''claude'') (ex_env ''running'' (\<lambda>_. ex_good)) ex_final ''/repo'' ''b'' ''m''
     (Some agent_actor) () = (Inl e, ())"
  by (rule land_needs_operator) (simp add: agent_actor_def dget_def)

text \<open>
  C34. Resolving a blocker: only an operator can; the decision is recorded and logged as one
  more event of a chain that still verifies; a decision other than override changes neither
  tasks nor blockers; an override removes the blocker and reopens its task.
\<close>

theorem resolve_blocker_effect:
  assumes "resolve_blocker H l bid decision actor stamp = Inr l'"
    and "verify_chain H (execution_log l) = Inr True"
  shows "get actor ''role'' = Inr (VStr ''operator'')
     \<and> verify_chain H (execution_log l') = Inr True \<and> length (execution_log l') = Suc (length (execution_log l))
     \<and> (decision \<noteq> ''override'' \<longrightarrow> task_ledger l' = task_ledger l \<and> blockers l' = blockers l)
     \<and> (decision = ''override'' \<longrightarrow> (\<forall>b. find_blocker bid l = Some b \<longrightarrow>
          blockers l' = filter (\<lambda>x. blocker_id x \<noteq> bid) (blockers l)
        \<and> (\<forall>e \<in> set (task_ledger l'). is_entry (b_task_id b) e \<longrightarrow> te_status e = ''pending'')))"
proof -
  obtain v actor_id e where r: "authorize actor (if decision = ''override'' then ''override'' else ''approve'') = Inr v"
    "v_allowed v" and l': "l' = (resolved bid decision (add_resolution bid decision actor_id stamp l))\<lparr>execution_log := execution_log l @ [e]\<rparr>"
    by (rule resolve_blocker_Inr [OF assms(1)]) blast
  have "permitted actor (if decision = ''override'' then ''override'' else ''approve'')"
    using authorize_allowed [OF r(1)] r(2) by simp
  then have role: "get actor ''role'' = Inr (VStr ''operator'')"
    by (rule permitted_operator_only) simp
  have fb: "find_blocker bid (add_resolution bid decision actor_id stamp l) = find_blocker bid l"
    by (simp add: find_blocker_def)
  have keep: "decision \<noteq> ''override'' \<Longrightarrow> task_ledger l' = task_ledger l \<and> blockers l' = blockers l"
    by (simp add: l' resolved_def split: option.splits)
  have "blockers l' = filter (\<lambda>x. blocker_id x \<noteq> bid) (blockers l)
      \<and> (\<forall>e \<in> set (task_ledger l'). is_entry (b_task_id b) e \<longrightarrow> te_status e = ''pending'')"
    if "decision = ''override''" "find_blocker bid l = Some b" for b
    using that fb by (auto simp: l' resolved_def reopen_task_def is_entry_def)
  with role keep resolve_blocker_log [OF assms] show ?thesis by blast
qed

definition operator_actor :: val where
  "operator_actor = VDict [(''id'', VStr ''o''), (''role'', VStr ''operator'')]"

definition blocked_ledger :: ledger where
  "blocked_ledger = stored_ledger\<lparr>
     task_ledger := [\<lparr>te_task_id = VStr ''T1'', te_title = VStr ''t'', te_status = ''blocked'', te_evidence_refs = [],
        te_criteria = VList [], te_result = ''none'', te_blocked_reason = Some ''r'', te_decision_owner = Some ''operator''\<rparr>],
     blockers := [\<lparr>blocker_id = ''B1'', b_task_id = ''T1'', b_description = ''r'', b_decision_owner = ''operator''\<rparr>]\<rparr>"

lemma blocked_resolves: "\<exists>l'. resolve_blocker zeros blocked_ledger ''B1'' ''override'' operator_actor ''t2'' = Inr l'
    \<and> task_ledger l' \<noteq> []"
  by (simp add: resolve_blocker_def authorize_def ROLE_ACTIONS_def operator_actor_def dget_def mk_verdict_def
      blocked_ledger_def stored_ledger_def find_blocker_def Let_def add_resolution_def reopen_task_def log_event_def
      resolution_event_def append_log_def chain_event_def first_event_def opt_str_def is_entry_def)

theorem resolve_blocker_effect_witness:
  "\<exists>l'. resolve_blocker zeros blocked_ledger ''B1'' ''override'' operator_actor ''t2'' = Inr l' \<and> blockers l' = []"
proof -
  obtain l' where r: "resolve_blocker zeros blocked_ledger ''B1'' ''override'' operator_actor ''t2'' = Inr l'"
    using blocked_resolves by blast
  have "verify_chain zeros (execution_log blocked_ledger) = Inr True"
    by (simp add: blocked_ledger_def stored_ledger_def first_event_verifies)
  from resolve_blocker_effect [OF r this] have "blockers l' = filter (\<lambda>x. blocker_id x \<noteq> ''B1'') (blockers blocked_ledger)"
    by (simp add: blocked_ledger_def find_blocker_def)
  with r show ?thesis by (simp add: blocked_ledger_def)
qed

section \<open>Signatures\<close>

lemma filter_update_excluded:
  "k \<in> set ks \<Longrightarrow> filter (\<lambda>kv. fst kv \<notin> set ks) (AList.update k v kvs) = filter (\<lambda>kv. fst kv \<notin> set ks) kvs"
  by (induction kvs) auto

text \<open>
  What a signature covers: setting the signature or the ingestion time of an event leaves
  its signed payload as it is, and so does an explicit null of an absent field.
\<close>

lemma signature_excludes:
  "signing_payload (AList.update ''signature'' x event) = signing_payload event
   \<and> signing_payload (AList.update ''received_at'' x event) = signing_payload event
   \<and> signing_payload (event @ [(k, VNone)]) = signing_payload event"
proof -
  have "''signature'' \<in> set EXCLUDED_EVENT_FIELDS" "''received_at'' \<in> set EXCLUDED_EVENT_FIELDS"
    by (simp_all add: EXCLUDED_EVENT_FIELDS_def)
  then show ?thesis by (simp add: signing_payload_def filter_update_excluded)
qed

text \<open>
  C35. Verification accepts what was signed, with either algorithm: HMAC gives hexadecimal text,
  and an Ed25519 signature made with a private seed verifies under its public key.
\<close>

theorem sign_then_verify:
  assumes "sign C payload algorithm key = Inr s"
    and hex: "\<And>k d. ascii (hmac_hex C k d)"
    and ed: "\<And>k d sig. ed_sign C k d = Inr sig \<Longrightarrow> ed_verify C (public k) sig d = Inr True"
  shows "Signing.verify C payload s algorithm (if algorithm = ''ed25519'' then public key else key) = Inr True"
  using assms(1)
  by (auto simp: sign_def Signing.verify_def bindR_Inr_iff compare_digest_def hex from_to_hex ed split: if_splits)

lemma hex_digit_ascii: "(of_char (hex_digit (of_char c div 16)) :: nat) < 128" "(of_char (hex_digit (of_char c mod 16)) :: nat) < 128"
proof -
  have "(of_char c :: nat) div 16 < 16" using of_char_256 [of c] by (simp add: less_mult_imp_div_less)
  then show "(of_char (hex_digit (of_char c div 16)) :: nat) < 128" by (auto simp: hex_digit_def)
  have "(of_char c :: nat) mod 16 < 16" by simp
  then show "(of_char (hex_digit (of_char c mod 16)) :: nat) < 128" by (auto simp: hex_digit_def)
qed

lemma to_hex_ascii: "ascii (to_hex bs)"
  by (induction bs) (auto simp: ascii_def to_hex_def hex_byte_def Let_def hex_digit_ascii)

theorem sign_then_verify_witness:
  "\<exists>s. sign toy_crypto (VDict [(''a'', VInt 1)]) ''ed25519'' ''k'' = Inr s
     \<and> Signing.verify toy_crypto (VDict [(''a'', VInt 1)]) s ''ed25519'' ''k'' = Inr True"
proof -
  obtain s where s: "sign toy_crypto (VDict [(''a'', VInt 1)]) ''ed25519'' ''k'' = Inr s"
    by (simp add: sign_def canonicalize_def toy_crypto_def)
  have "Signing.verify toy_crypto (VDict [(''a'', VInt 1)]) s ''ed25519''
     (if ''ed25519'' = ''ed25519'' then id ''k'' else ''k'') = Inr True"
    by (rule sign_then_verify [OF s]) (auto simp: toy_crypto_def to_hex_ascii)
  with s show ?thesis by simp
qed

lemma verify_event_signature:
  "verify_event H i p (VDict (AList.update ''signature'' x kvs)) = verify_event H i p (VDict kvs)"
  by (simp add: verify_event_def)

lemma sign_one_cases:
  assumes "sign_one C key e = Inr e'"
  obtains kvs where "e = VDict kvs" "e' = VDict (AList.update ''signature'' (VStr (sign_event C kvs key)) kvs)"
  using assms by (cases e) (auto simp: sign_one_def dict_of_def)

lemma signed_chain:
  "mapR (sign_one C key) es = Inr es' \<Longrightarrow> verify_from H i p es' = verify_from H i p es"
proof (induction es arbitrary: es' i p)
  case (Cons e es)
  from Cons.prems obtain d ds where d: "sign_one C key e = Inr d" "mapR (sign_one C key) es = Inr ds" "es' = d # ds"
    by (auto simp: bindR_Inr_iff)
  obtain kvs where "e = VDict kvs" "d = VDict (AList.update ''signature'' (VStr (sign_event C kvs key)) kvs)"
    by (rule sign_one_cases [OF d(1)])
  then have "verify_event H i p d = verify_event H i p e" by (simp add: verify_event_signature)
  moreover have "\<And>j q. verify_from H j q ds = verify_from H j q es" using Cons.IH [OF d(2)] .
  ultimately show ?case using d(3) by simp
qed simp

lemma canonical_event_update: "canonical_event (AList.update ''signature'' x kvs) = canonical_event kvs"
  using filter_update_excluded [of "''signature''" "[''signature'']" x kvs] by (simp add: canonical_event_def)

lemma signed_ok:
  assumes "mapR (sign_one C key) es = Inr es'" and "\<And>k d. ascii (hmac_hex C k d)"
  shows "allR (signature_ok C key) es' = Inr True"
proof -
  have "signature_ok C key d = Inr True" if d: "d \<in> set es'" for d
  proof -
    obtain e where "sign_one C key e = Inr d" using mapR_mem [OF assms(1) d] by blast
    then obtain kvs where "d = VDict (AList.update ''signature'' (VStr (sign_event C kvs key)) kvs)"
      by (rule sign_one_cases)
    moreover have "ascii (sign_event C kvs key)" using assms(2) by (auto simp: ascii_def sign_event_def)
    ultimately show ?thesis
      by (simp add: signature_ok_def compare_digest_def sign_event_def canonical_event_update)
  qed
  then show ?thesis using allR_Inr [of es' "signature_ok C key" "\<lambda>_. True"] by simp
qed

text \<open>
  C36. Signing a ledger: the signed ledger has the same chain, and \<open>verify_ledger\<close> accepts it
  under the same key exactly when its hash chain verifies.
\<close>

theorem signed_ledger_verifies:
  assumes "sign_ledger C document key = Inr document'"
    and "map_of document ''execution_log'' = Some (VList es)"
    and "\<And>k d. ascii (hmac_hex C k d)"
  shows "verify_ledger C document' key = verify_chain (sha256 C) es"
proof -
  from assms(1,2) obtain es' where es': "mapR (sign_one C key) es = Inr es'"
    "document' = AList.update ''execution_log'' (VList es') document"
    by (auto simp: sign_ledger_def bindR_Inr_iff)
  have "verify_chain (sha256 C) es' = verify_chain (sha256 C) es"
    unfolding verify_chain_def by (rule signed_chain [OF es'(1)])
  with es' signed_ok [OF es'(1) assms(3)] show ?thesis
    by (cases "verify_chain (sha256 C) es") (auto simp: verify_ledger_def)
qed

lemma toy_signs: "\<exists>d. sign_ledger toy_crypto [(''execution_log'', VList [first_event ''x''])] ''k'' = Inr d"
  by (simp add: sign_ledger_def sign_one_def first_event_def)

theorem signed_ledger_verifies_witness:
  "\<exists>d. sign_ledger toy_crypto [(''execution_log'', VList [first_event ''x''])] ''k'' = Inr d
     \<and> verify_ledger toy_crypto d ''k'' = Inr True"
proof -
  obtain d where d: "sign_ledger toy_crypto [(''execution_log'', VList [first_event ''x''])] ''k'' = Inr d"
    using toy_signs by blast
  have "verify_ledger toy_crypto d ''k'' = verify_chain (sha256 toy_crypto) [first_event ''x'']"
    by (rule signed_ledger_verifies [OF d]) (simp_all add: toy_crypto_def to_hex_ascii)
  with d show ?thesis by (simp add: toy_crypto_def first_event_verifies)
qed

section \<open>The door\<close>

text \<open>
  C37. The door protects the clone: a payload without findings whose repository is an object
  has a URL of an allowed scheme that the guard in front of \<open>git clone\<close> lets pass, and
  neither the URL nor the ref can be read by git as an option.
\<close>

lemma emit_if_Nil: "emit_if c r m fs = Inr [] \<longleftrightarrow> \<not> c \<and> fs = []"
  by (auto simp: emit_if_def bindR_Inr_iff)

lemma check_repository_passes:
  assumes "check_repository environ repo fs = Inr []"
  shows "clone_url_ok environ (str_field repo ''url'') \<and> \<not> startswith (str_field repo ''base_ref'') ''-''
     \<and> fs = [] \<and> dget repo ''url'' = VStr (str_field repo ''url'') \<and> dget repo ''base_ref'' = VStr (str_field repo ''base_ref'')"
proof -
  have all: "\<forall>f \<in> set REPOSITORY_FIELDS. is_str (dget repo f) \<and> truthy (dget repo f)"
    using assms by (auto simp: check_repository_def emit_if_Nil split: if_splits)
  then have "is_str (dget repo ''url'')" "is_str (dget repo ''base_ref'')" by (simp_all add: REPOSITORY_FIELDS_def)
  then have "dget repo ''url'' = VStr (str_field repo ''url'')" "dget repo ''base_ref'' = VStr (str_field repo ''base_ref'')"
    by (auto simp: is_str_def str_field_def split: val.splits)
  with all assms show ?thesis by (auto simp: check_repository_def emit_if_Nil bindR_Inr_iff)
qed

lemma validate_payload_repository:
  assumes "validate_payload environ payload = Inr []"
    and "dget payload ''context_package'' = VDict ctx" "dget ctx ''repository'' = VDict repo"
  shows "\<exists>fs. check_repository environ repo fs = Inr []"
proof -
  have "truthy (VDict ctx)" using assms(3) by (auto simp: dget_def split: option.splits)
  with assms show ?thesis by (auto simp: validate_payload_def bindR_Inr_iff Let_def)
qed

theorem door_protects_clone:
  assumes "validate_payload environ payload = Inr []"
    and "dget payload ''context_package'' = VDict ctx" "dget ctx ''repository'' = VDict repo"
  shows "\<exists>url ref. dget repo ''url'' = VStr url \<and> dget repo ''base_ref'' = VStr ref
     \<and> (\<exists>scheme rest. url_scheme url = Some (scheme, rest) \<and> lower scheme \<in> set (allowed_clone_schemes environ))
     \<and> \<not> remote_helper url \<and> \<not> startswith url ''-'' \<and> \<not> startswith ref ''-''"
proof -
  obtain fs where "check_repository environ repo fs = Inr []"
    using validate_payload_repository [OF assms] by blast
  note c = check_repository_passes [OF this]
  then obtain scheme rest where s: "url_scheme (str_field repo ''url'') = Some (scheme, rest)"
    using clone_url_ok_scheme by blast
  with c have "lower scheme \<in> set (allowed_clone_schemes environ)" by (auto simp: clone_url_ok_def Let_def split: if_splits)
  with c s url_scheme_no_helper [OF s] show ?thesis by blast
qed

definition good_repo :: "(string \<times> val) list" where
  "good_repo = [(''url'', VStr ''https://h/r.git''), (''default_branch'', VStr ''main''), (''base_ref'', VStr ''v1'')]"

definition good_payload :: "(string \<times> val) list" where
  "good_payload = [(''org_id'', VStr ''o''), (''project_id'', VStr ''p''), (''run_id'', VStr ''r''), (''step_id'', VStr ''s''),
     (''executor_id'', VStr ''exec:abcdefghijklmnop''), (''task_id'', VStr ''s''), (''iplan_id'', VStr ''I''),
     (''plan_version_id'', VStr ''1''),
     (''work_order'', VDict [(''work_order_id'', VStr ''w''), (''todos'', VList [VDict [(''todo_id'', VStr ''T1''), (''description'', VStr ''d'')]])]),
     (''context_package'', VDict [(''repository'', VDict good_repo)])]"

lemma good_payload_valid: "validate_payload [] good_payload = Inr []"
  by code_simp

theorem door_protects_clone_witness:
  "\<exists>url. dget good_repo ''url'' = VStr url \<and> \<not> remote_helper url \<and> \<not> startswith url ''-''"
proof -
  have "dget good_payload ''context_package'' = VDict [(''repository'', VDict good_repo)]"
    "dget [(''repository'', VDict good_repo)] ''repository'' = VDict good_repo"
    by (simp_all add: good_payload_def dget_def)
  from door_protects_clone [OF good_payload_valid this] show ?thesis by blast
qed

text \<open>
  C38. The workspace of a task is inside the receiver's root: its path is the root followed by
  two components made of letters, digits, dots, underscores and dashes, neither of which is
  empty or a dot entry, whatever the ids in the payload are.
\<close>

lemma slug_safe:
  assumes "slug v = Inr r"
  shows "set r \<subseteq> Collect safe_char \<and> r \<notin> {[], ''.'', ''..''}"
proof -
  have "safe_char (CHR ''_'')" by (simp add: safe_char_def)
  with assms show ?thesis by (auto simp: slug_def bindR_Inr_iff Let_def split: if_splits)
qed

theorem workspace_contained:
  assumes "task_workspace rt run_id task_id = Inr p"
  shows "\<exists>r t. p = path_under rt [r, t] \<and> slash \<notin> set r \<union> set t
     \<and> r \<notin> {[], ''.'', ''..''} \<and> t \<notin> {[], ''.'', ''..''}"
proof -
  have "\<not> safe_char slash" by (simp add: safe_char_def slash_def is_alpha_def is_digit_def)
  moreover from assms obtain r t where "slug run_id = Inr r" "slug task_id = Inr t" "p = path_under rt [r, t]"
    by (auto simp: task_workspace_def bindR_Inr_iff)
  ultimately show ?thesis using slug_safe [of run_id r] slug_safe [of task_id t] by blast
qed

theorem workspace_contained_witness:
  "\<exists>r t. ''./w/.._.._x/a_b'' = ''./'' @ path_under ''w'' [r, t] \<and> slash \<notin> set r \<union> set t"
proof -
  have "task_workspace ''w'' (VStr ''../../x'') (VStr ''a/b'') = Inr ''w/.._.._x/a_b''" by code_simp
  from workspace_contained [OF this] show ?thesis by auto
qed

end
