(* ===== verification/RelayClaims.thy ===== *)
theory RelayClaims
  imports Relay SecurityClaims
begin

text \<open>
  Properties of the relay: the drain loses nothing, keeps the order, delivers only what the
  service acknowledged and does nothing twice; deliveries are bounded; answers are classified.

  The loop of the drain is proved once over any outbox that settles what it is told to settle,
  and then used on the tables of the relay store.
\<close>

section \<open>The outbox\<close>

abbreviation event_key :: "val \<Rightarrow> string res" where
  "event_key e \<equiv> bindR (item e ''idempotency_key'') as_str"

text \<open>What one call of the loop did: \<open>n\<close> events were passed, \<open>ds\<close> and \<open>bs\<close> are the keys it settled.\<close>

definition passed_events :: "string set \<Rightarrow> val list \<Rightarrow> drain_report \<Rightarrow> drain_report \<Rightarrow> nat \<Rightarrow> string list \<Rightarrow> string list \<Rightarrow> bool" where
  "passed_events S es r r' n ds bs =
     (n \<le> length es \<and> delivered r' = delivered r @ ds \<and> dead_lettered r' = dead_lettered r @ bs
      \<and> (\<forall>e \<in> set (take n es). \<exists>k. event_key e = Inr k \<and> k \<in> S \<union> set ds \<union> set bs)
      \<and> (if n = length es then pending r' = pending r \<and> halted r' = halted r
         else \<exists>k. event_key (es ! n) = Inr k \<and> k \<notin> S \<and> pending r' = pending r @ [k]))"

text \<open>The keys settled by delivery are those of events that \<open>send\<close> answered with Advance, in order.\<close>

definition acknowledged :: "(val \<Rightarrow> ('w, verdict_of) io) \<Rightarrow> val list \<Rightarrow> string list \<Rightarrow> bool" where
  "acknowledged send es ds = (\<exists>as. subseq as es \<and> map event_key as = map Inr ds
     \<and> (\<forall>e \<in> set as. \<exists>u v u'. send e u = (Inr v, u') \<and> vd_action v = Advance))"

lemma passed_skip:
  assumes "passed_events S es r r' n ds bs" and "event_key e = Inr k" and "k \<in> S"
  shows "passed_events S (e # es) r r' (Suc n) ds bs"
  using assms by (auto simp: passed_events_def)

lemma passed_deliver:
  assumes "passed_events S es (r\<lparr>delivered := delivered r @ [k]\<rparr>) r' n ds bs" and "event_key e = Inr k"
  shows "passed_events S (e # es) r r' (Suc n) (k # ds) bs"
  using assms by (auto simp: passed_events_def)

lemma passed_bury:
  assumes "passed_events S es (r\<lparr>dead_lettered := dead_lettered r @ [k]\<rparr>) r' n ds bs" and "event_key e = Inr k"
  shows "passed_events S (e # es) r r' (Suc n) ds (k # bs)"
  using assms by (auto simp: passed_events_def)

lemma passed_stop:
  assumes "event_key e = Inr k" "k \<notin> S"
  shows "passed_events S (e # es) r (r\<lparr>pending := pending r @ [k]\<rparr>) 0 [] []"
    and "passed_events S (e # es) r (r\<lparr>pending := pending r @ [k], halted := h\<rparr>) 0 [] []"
  using assms by (auto simp: passed_events_def)

lemma acknowledged_Nil: "acknowledged send es []"
  unfolding acknowledged_def by (rule exI [of _ "[]"]) simp

lemma acknowledged_skip: "acknowledged send es ds \<Longrightarrow> acknowledged send (e # es) ds"
  unfolding acknowledged_def using list_emb_Cons by blast

lemma acknowledged_Cons:
  assumes "acknowledged send es ds" "event_key e = Inr k" "send e u = (Inr v, u')" "vd_action v = Advance"
  shows "acknowledged send (e # es) (k # ds)"
proof -
  obtain as where "subseq as es" "map event_key as = map Inr ds"
    "\<forall>e \<in> set as. \<exists>u v u'. send e u = (Inr v, u') \<and> vd_action v = Advance"
    using assms(1) unfolding acknowledged_def by blast
  with assms(2-) show ?thesis unfolding acknowledged_def
    by (intro exI [of _ "e # as"]) auto
qed

text \<open>What one event makes the loop do.\<close>

lemma drain_loop_cases [consumes 1, case_names unkeyed settled failed advanced buried stopped]:
  assumes "drain_loop mark bury send S (e # es) r (w, db) = (res, (w', db'))"
    and "\<And>x. event_key e = Inl x \<Longrightarrow> res = Inl x \<Longrightarrow> w' = w \<Longrightarrow> db' = db \<Longrightarrow> P"
    and "\<And>k. event_key e = Inr k \<Longrightarrow> k \<in> S \<Longrightarrow> drain_loop mark bury send S es r (w, db) = (res, (w', db')) \<Longrightarrow> P"
    and "\<And>k x. event_key e = Inr k \<Longrightarrow> k \<notin> S \<Longrightarrow> send e w = (Inl x, w') \<Longrightarrow> res = Inl x \<Longrightarrow> db' = db \<Longrightarrow> P"
    and "\<And>k v u. event_key e = Inr k \<Longrightarrow> k \<notin> S \<Longrightarrow> send e w = (Inr v, u) \<Longrightarrow> vd_action v = Advance \<Longrightarrow>
      drain_loop mark bury send S es (r\<lparr>delivered := delivered r @ [k]\<rparr>) (u, mark k db) = (res, (w', db')) \<Longrightarrow> P"
    and "\<And>k v u. event_key e = Inr k \<Longrightarrow> k \<notin> S \<Longrightarrow> send e w = (Inr v, u) \<Longrightarrow> vd_action v = Dead_Letter \<Longrightarrow>
      drain_loop mark bury send S es (r\<lparr>dead_lettered := dead_lettered r @ [k]\<rparr>) (u, bury (vd_reason v) e k db)
        = (res, (w', db')) \<Longrightarrow> P"
    and "\<And>k v h. event_key e = Inr k \<Longrightarrow> k \<notin> S \<Longrightarrow> send e w = (Inr v, w') \<Longrightarrow> db' = db \<Longrightarrow>
      res = Inr (r\<lparr>pending := pending r @ [k], halted := h\<rparr>) \<Longrightarrow> P"
  shows P
proof (cases "event_key e")
  case (Inl x)
  with assms(1) show ?thesis by (intro assms(2) [of x]) (auto simp: bindI_app)
next
  case k: (Inr k)
  obtain a u where a: "send e w = (a, u)" by (cases "send e w")
  show ?thesis
  proof (cases "k \<in> S")
    case True
    with assms(1) k show ?thesis by (intro assms(3) [of k]) (auto simp: bindI_app)
  next
    case out: False
    note run = assms(1) k out a
    show ?thesis
    proof (cases a)
      case (Inl x)
      with run show ?thesis by (intro assms(4) [of k x]) (auto simp: bindI_app)
    next
      case v: (Inr v)
      have keep: "r\<lparr>pending := pending r @ [k]\<rparr> = r\<lparr>pending := pending r @ [k], halted := halted r\<rparr>" by simp
      show ?thesis
      proof (cases "vd_action v")
        case Advance
        with run v show ?thesis by (intro assms(5) [of k v u]) (auto simp: bindI_app)
      next
        case Dead_Letter
        with run v show ?thesis by (intro assms(6) [of k v u]) (auto simp: bindI_app)
      next
        case Retry
        with run v show ?thesis by (intro assms(7) [of k v "halted r"]) (auto simp: bindI_app)
      qed (use run v in \<open>auto simp: bindI_app intro: assms(7) [of k v "Some (vd_reason v)"]\<close>)
    qed
  qed
qed

locale outbox =
  fixes keys :: "'db \<Rightarrow> string set"
    and mark :: "string \<Rightarrow> 'db \<Rightarrow> 'db"
    and bury :: "string \<Rightarrow> val \<Rightarrow> string \<Rightarrow> 'db \<Rightarrow> 'db"
  assumes keys_mark: "keys (mark k db) = insert k (keys db)"
    and keys_bury: "keys (bury why e k db) = insert k (keys db)"
begin

lemma loop_settles:
  "drain_loop mark bury send S es r (w, db) = (Inr r', (w', db')) \<Longrightarrow>
     \<exists>n ds bs. passed_events S es r r' n ds bs \<and> acknowledged send es ds \<and> keys db' = keys db \<union> set ds \<union> set bs"
proof (induction es arbitrary: r w db)
  case Nil
  then show ?case
    by (intro exI [of _ 0] exI [of _ "[]"]) (simp add: passed_events_def acknowledged_Nil)
next
  case (Cons e es)
  from Cons.prems show ?case
  proof (cases rule: drain_loop_cases)
    case (settled k)
    from Cons.IH [OF settled(3)] show ?thesis
      using passed_skip [OF _ settled(1,2)] acknowledged_skip by blast
  next
    case (advanced k v u)
    from Cons.IH [OF advanced(5)] obtain n ds bs where n:
      "passed_events S es (r\<lparr>delivered := delivered r @ [k]\<rparr>) r' n ds bs" "acknowledged send es ds"
      "keys db' = keys (mark k db) \<union> set ds \<union> set bs" by blast
    have "keys db' = keys db \<union> set (k # ds) \<union> set bs" using n(3) by (auto simp: keys_mark)
    then show ?thesis
      using passed_deliver [OF n(1) advanced(1)] acknowledged_Cons [OF n(2) advanced(1,3,4)] by blast
  next
    case (buried k v u)
    from Cons.IH [OF buried(5)] obtain n ds bs where n:
      "passed_events S es (r\<lparr>dead_lettered := dead_lettered r @ [k]\<rparr>) r' n ds bs" "acknowledged send es ds"
      "keys db' = keys (bury (vd_reason v) e k db) \<union> set ds \<union> set bs" by blast
    have "keys db' = keys db \<union> set ds \<union> set (k # bs)" using n(3) by (auto simp: keys_bury)
    then show ?thesis
      using passed_bury [OF n(1) buried(1)] acknowledged_skip [OF n(2)] by blast
  next
    case (stopped k v h)
    have "passed_events S (e # es) r r' 0 [] []" using passed_stop [OF stopped(1,2)] stopped(5) by simp
    then show ?thesis
      using acknowledged_Nil stopped(4) by (intro exI [of _ 0] exI [of _ "[]"]) simp
  qed simp_all
qed

lemma loop_keeps:
  "drain_loop mark bury send S es r (w, db) = (res, (w', db')) \<Longrightarrow> keys db \<subseteq> keys db'"
proof (induction es arbitrary: r w db)
  case (Cons e es)
  from Cons.prems show ?case
  proof (cases rule: drain_loop_cases)
    case (advanced k v u)
    from Cons.IH [OF advanced(5)] show ?thesis by (simp add: keys_mark)
  next
    case (buried k v u)
    from Cons.IH [OF buried(5)] show ?thesis by (simp add: keys_bury)
  qed (auto dest: Cons.IH)
qed simp

end

lemma loop_idle:
  "(\<And>e. e \<in> set es \<Longrightarrow> \<exists>k \<in> S. event_key e = Inr k) \<Longrightarrow> drain_loop mark bury send S es r x = (Inr r, x)"
proof (induction es)
  case (Cons e es)
  obtain k where "k \<in> S" "event_key e = Inr k" using Cons.prems [of e] by auto
  with Cons show ?case by (simp add: bindI_app)
qed simp

lemma load_settled_append:
  "load_settled lid (db\<lparr>delivery := xs @ [r]\<rparr>) =
     d_key ` {r \<in> set xs. d_ledger r = lid} \<union> (if d_ledger r = lid then {d_key r} else {})"
  by (auto simp: load_settled_def)

lemma load_settled_mark: "load_settled lid (mark_settled lid stamp k db) = insert k (load_settled lid db)"
proof (cases "\<exists>r \<in> set (delivery db). row_at lid k r")
  case True
  then have "k \<in> load_settled lid db" by (auto simp: load_settled_def row_at_def)
  with True show ?thesis by (auto simp: mark_settled_def)
next
  case False
  then have "load_settled lid (mark_settled lid stamp k db) =
      d_key ` {r \<in> set (delivery db). d_ledger r = lid} \<union> {k}"
    by (simp add: mark_settled_def load_settled_append)
  then show ?thesis by (simp add: load_settled_def)
qed

lemma load_settled_bury: "load_settled lid (dead_letter lid stamp why e k db) = insert k (load_settled lid db)"
proof -
  have "load_settled lid (dead_letter lid stamp why e k db) =
      d_key ` {r \<in> set (filter (\<lambda>r. \<not> row_at lid k r) (delivery db)). d_ledger r = lid} \<union> {k}"
    unfolding dead_letter_def load_settled_append by simp
  also have "\<dots> = insert k (load_settled lid db)" by (auto simp: load_settled_def row_at_def)
  finally show ?thesis .
qed

interpretation tables: outbox "load_settled lid" "mark_settled lid stamp" "dead_letter lid stamp" for lid stamp
  by unfold_locales (simp_all add: load_settled_mark load_settled_bury)

section \<open>The drain\<close>

lemma drain_Inr:
  assumes "drain C t c iso_age stamp document identity lid key key_id max_age (w, db) = (Inr report, (w', db'))"
  obtains events where "to_execution_events C document identity key (resolved_key_id key_id identity) = Inr events"
    "drain_loop (mark_settled lid stamp) (dead_letter lid stamp) (deliver_with_refresh t c iso_age max_age)
       (load_settled lid db) events empty_report (w, db) = (Inr report, (w', db'))"
  using assms by (auto simp: drain_def bindI_Inr_iff)

text \<open>
  An example: three logged events, of which one is not projected; the service acknowledges the
  first request and then is down, or acknowledges every request.
\<close>

definition relay_log :: "string \<Rightarrow> string \<Rightarrow> val" where
  "relay_log kind h = VDict [(''event_type'', VStr kind), (''at'', VStr ''t''), (''touched_paths'', VList []),
     (''event_hash'', VStr h)]"

definition relay_doc :: val where
  "relay_doc = VDict [(''execution_log'', VList [relay_log ''task_started'' ''h1'', relay_log ''compensation'' ''h2'',
     relay_log ''task_blocked'' ''h3''])]"

definition test_transport :: "nat \<Rightarrow> nat transport" where
  "test_transport m = \<lparr>tp_open = (\<lambda>_ _ _ n. (Inr (if n < m then 202 else 503, []), n + 1)), tp_token = retI None,
     tp_sleep = (\<lambda>_. retI ()), tp_loads = (\<lambda>_. Inr VNone)\<rparr>"

definition light_crypto :: crypto where
  "light_crypto = \<lparr>jcs = (\<lambda>_. Inr []), sha256 = (\<lambda>_. ''0''), hmac_hex = (\<lambda>_ _. []), ed_sign = (\<lambda>_ _. Inr []),
     ed_verify = (\<lambda>_ _ _. Inr True)\<rparr>"

definition test_drain :: "nat \<Rightarrow> (nat \<times> relay_db, drain_report) io" where
  "test_drain m = drain light_crypto (test_transport m) (make_client ''https://h'' 1 0) (\<lambda>_. Inr None) ''t'' relay_doc
     [(''run_id'', VStr ''R'')] ''L'' ''k'' None 5"

lemma test_drain_down:
  "(case test_drain 1 (0, empty_db) of
      (Inr r, _) \<Rightarrow> delivered r = [''R:h1:task.started''] \<and> dead_lettered r = [] \<and> pending r = [''R:h3:task.blocked'']
    | _ \<Rightarrow> False)"
  by code_simp

lemma test_drain_up:
  "(case test_drain 2 (0, empty_db) of (Inr r, _) \<Rightarrow> length (delivered r) = 2 \<and> pending r = [] | _ \<Rightarrow> False)"
  by code_simp

lemma drain_case:
  assumes "case test_drain m x of (Inr r, _) \<Rightarrow> P r | _ \<Rightarrow> False"
  obtains r w db where "test_drain m x = (Inr r, (w, db))" "P r"
  using assms by (cases "test_drain m x") (auto split: sum.splits)

text \<open>
  C13. The drain loses nothing and keeps the order. Of the projected events, those before some
  point are settled, as before or now; the settled keys grow by exactly the delivered and the
  dead-lettered ones; if the drain stopped before the end, the event it stopped at is the one
  pending key, not settled before, and if it did not, nothing is pending and nothing halted.
\<close>

theorem drain_no_loss:
  assumes "drain C t c iso_age stamp document identity lid key key_id max_age (w, db) = (Inr report, (w', db'))"
  shows "\<exists>events n. to_execution_events C document identity key (resolved_key_id key_id identity) = Inr events
     \<and> n \<le> length events
     \<and> load_settled lid db' = load_settled lid db \<union> set (delivered report) \<union> set (dead_lettered report)
     \<and> set (take n (map event_key events)) \<subseteq> Inr ` load_settled lid db'
     \<and> (if n = length events then pending report = [] \<and> halted report = None
        else \<exists>k. event_key (events ! n) = Inr k \<and> k \<notin> load_settled lid db \<and> pending report = [k])"
proof -
  obtain events where e: "to_execution_events C document identity key (resolved_key_id key_id identity) = Inr events"
    "drain_loop (mark_settled lid stamp) (dead_letter lid stamp) (deliver_with_refresh t c iso_age max_age)
       (load_settled lid db) events empty_report (w, db) = (Inr report, (w', db'))"
    by (rule drain_Inr [OF assms])
  obtain n ds bs where p: "passed_events (load_settled lid db) events empty_report report n ds bs"
    "load_settled lid db' = load_settled lid db \<union> set ds \<union> set bs"
    using tables.loop_settles [OF e(2)] by blast
  then have r: "delivered report = ds" "dead_lettered report = bs" "n \<le> length events"
    by (simp_all add: passed_events_def empty_report_def)
  have "set (take n (map event_key events)) \<subseteq> Inr ` load_settled lid db'"
    using p by (fastforce simp: passed_events_def take_map)
  moreover have "if n = length events then pending report = [] \<and> halted report = None
        else \<exists>k. event_key (events ! n) = Inr k \<and> k \<notin> load_settled lid db \<and> pending report = [k]"
    using p(1) by (auto simp: passed_events_def empty_report_def split: if_splits)
  ultimately show ?thesis using e(1) p(2) r by blast
qed

theorem drain_no_loss_witness:
  "\<exists>r w db. test_drain 1 (0, empty_db) = (Inr r, (w, db)) \<and> pending r = [''R:h3:task.blocked'']
     \<and> load_settled ''L'' db = {''R:h1:task.started''}"
proof -
  obtain r w db where r: "test_drain 1 (0, empty_db) = (Inr r, (w, db))" "delivered r = [''R:h1:task.started'']"
    "dead_lettered r = []" "pending r = [''R:h3:task.blocked'']"
    by (rule drain_case [OF test_drain_down]) blast
  from drain_no_loss [OF r(1) [unfolded test_drain_def]]
  have "load_settled ''L'' db = load_settled ''L'' empty_db \<union> set (delivered r) \<union> set (dead_lettered r)" by blast
  with r show ?thesis by (simp add: load_settled_def empty_db_def)
qed

text \<open>
  A drain that ends has nothing to do again: when a drain left nothing pending, a second
  one on the same ledger sends nothing, whatever the transport and the clock are then, leaves
  the world and the tables as they are and reports nothing.
\<close>

theorem drain_twice:
  assumes "drain C t c iso_age stamp document identity lid key key_id max_age (w, db) = (Inr report, (w', db'))"
    and "pending report = []"
  shows "drain C t' c' iso_age' stamp' document identity lid key key_id max_age' (u, db') = (Inr empty_report, (u, db'))"
proof -
  obtain events where e: "to_execution_events C document identity key (resolved_key_id key_id identity) = Inr events"
    "drain_loop (mark_settled lid stamp) (dead_letter lid stamp) (deliver_with_refresh t c iso_age max_age)
       (load_settled lid db) events empty_report (w, db) = (Inr report, (w', db'))"
    by (rule drain_Inr [OF assms(1)])
  obtain n ds bs where p: "passed_events (load_settled lid db) events empty_report report n ds bs"
    "load_settled lid db' = load_settled lid db \<union> set ds \<union> set bs"
    using tables.loop_settles [OF e(2)] by blast
  with assms(2) have "n = length events" by (auto simp: passed_events_def empty_report_def split: if_splits)
  with p have "\<exists>k \<in> load_settled lid db'. event_key x = Inr k" if "x \<in> set events" for x
    using that by (fastforce simp: passed_events_def)
  then show ?thesis by (simp add: drain_def bindI_app e(1) loop_idle)
qed

theorem drain_twice_witness:
  "\<exists>r w db. test_drain 2 (0, empty_db) = (Inr r, (w, db)) \<and> test_drain 0 (w, db) = (Inr empty_report, (w, db))"
proof -
  obtain r w db where r: "test_drain 2 (0, empty_db) = (Inr r, (w, db))" "pending r = []"
    by (rule drain_case [OF test_drain_up]) blast
  from r(1) drain_twice [OF r(1) [unfolded test_drain_def] r(2)] show ?thesis by (metis test_drain_def)
qed

section \<open>Deliveries\<close>

text \<open>The opener was called on the event and the service answered with status \<open>st\<close>.\<close>

definition answered :: "'w transport \<Rightarrow> client \<Rightarrow> val \<Rightarrow> int \<Rightarrow> bool" where
  "answered t c event st = (\<exists>hs u raw u'. tp_open t (cl_url c) (py_encode (json_dumps event)) hs u = (Inr (st, raw), u'))"

lemma os_handler: "(case e of OSError _ \<Rightarrow> Some h | _ \<Rightarrow> None) = Some k \<longleftrightarrow> (\<exists>s. e = OSError s) \<and> k = h"
  by (cases e) auto

lemma try_open_Some:
  assumes "try_open t c data w = (Inr (Some (st, raw)), w')"
  shows "\<exists>hs u. tp_open t (cl_url c) data hs u = (Inr (st, raw), w')"
  using assms by (auto simp: try_open_def bindI_Inr_iff catchI_Inr_iff os_handler)

lemma deliver_loop_status:
  "deliver_loop t c data n w = (Inr rsp, w') \<Longrightarrow> \<exists>hs u raw u'. tp_open t (cl_url c) data hs u = (Inr (rsp_status rsp, raw), u')"
proof (induction t c data n arbitrary: w rule: deliver_loop.induct)
  case (1 t c data n)
  from "1.prems" obtain r u where r: "try_open t c data w = (Inr r, u)"
    "(case r of
         None \<Rightarrow> if n \<ge> cl_max_retries c then raiseI TransportError
             else bindI (client_backoff t c n) (\<lambda>_. deliver_loop t c data (n + 1))
       | Some (status, raw) \<Rightarrow>
           if status \<ge> 500 \<and> n < cl_max_retries c
           then bindI (client_backoff t c n) (\<lambda>_. deliver_loop t c data (n + 1))
           else liftI (bindR (parse_body (tp_loads t) raw) (\<lambda>b. Inr \<lparr>rsp_status = status, rsp_body = b\<rparr>))) u = (Inr rsp, w')"
    unfolding deliver_loop.simps [of t c data n] bindI_Inr_iff by blast
  show ?case
  proof (cases r)
    case None
    with r(2) obtain v where "n < cl_max_retries c" "deliver_loop t c data (n + 1) v = (Inr rsp, w')"
      by (auto simp: bindI_Inr_iff split: if_splits)
    with "1.IH"(1) None show ?thesis by fastforce
  next
    case (Some p)
    obtain status raw where p: "p = (status, raw)" by (cases p)
    show ?thesis
    proof (cases "status \<ge> 500 \<and> n < cl_max_retries c")
      case True
      with r(2) Some p obtain v where "deliver_loop t c data (n + 1) v = (Inr rsp, w')"
        by (auto simp: bindI_Inr_iff)
      with "1.IH"(2) Some p True show ?thesis by fastforce
    next
      case False
      with r(2) Some p have "rsp_status rsp = status" by (auto simp: bindR_Inr_iff)
      with try_open_Some [OF r(1) [unfolded Some p]] show ?thesis by blast
    qed
  qed
qed

lemma classify_advance: "classify iso_age max_age rsp event = Inr v \<Longrightarrow> vd_action v = Advance \<Longrightarrow> rsp_status rsp = 202"
  by (auto simp: classify_def Let_def bindR_Inr_iff split: if_splits option.splits)

lemma deliver_once_advance:
  assumes "deliver_once t c iso_age max_age event w = (Inr v, w')" "vd_action v = Advance"
  shows "answered t c event 202"
proof -
  from assms(1) obtain rsp u where r: "deliver t c event w = (Inr rsp, u)" "classify iso_age max_age rsp event = Inr v"
    by (auto simp: deliver_once_def bindI_Inr_iff)
  have "rsp_status rsp = 202" using classify_advance [OF r(2) assms(2)] .
  with deliver_loop_status [OF r(1) [unfolded deliver_def]] show ?thesis unfolding answered_def by simp
qed

lemma deliver_advance:
  assumes "deliver_with_refresh t c iso_age max_age event w = (Inr v, w')" "vd_action v = Advance"
  shows "answered t c event 202"
proof -
  from assms(1) obtain v1 u where v1: "deliver_once t c iso_age max_age event w = (Inr v1, u)"
    "(if vd_action v1 \<noteq> Refresh then retI v1 else
     bindI (deliver_once t c iso_age max_age event) (\<lambda>v.
     retI (if vd_action v = Refresh
       then \<lparr>vd_action = Halt, vd_reason = ''auth refresh failed (401 after refresh)''\<rparr> else v))) u = (Inr v, w')"
    unfolding deliver_with_refresh_def bindI_Inr_iff by blast
  show ?thesis
  proof (cases "vd_action v1 = Refresh")
    case False
    with v1(2) have "v = v1" by simp
    with deliver_once_advance [OF v1(1)] assms(2) show ?thesis by simp
  next
    case True
    with v1(2) obtain v2 u2 where v2: "deliver_once t c iso_age max_age event u = (Inr v2, u2)"
      "v = (if vd_action v2 = Refresh
       then \<lparr>vd_action = Halt, vd_reason = ''auth refresh failed (401 after refresh)''\<rparr> else v2)"
      by (auto simp: bindI_Inr_iff)
    with assms(2) have "v = v2" by (auto split: if_splits)
    with deliver_once_advance [OF v2(1)] assms(2) show ?thesis by simp
  qed
qed

text \<open>
  Delivered means acknowledged: the keys a drain reports as delivered are, in order, the
  keys of projected events each of which was sent and answered with 202.
\<close>

theorem drain_delivers_acknowledged:
  assumes "drain C t c iso_age stamp document identity lid key key_id max_age (w, db) = (Inr report, (w', db'))"
  shows "\<exists>events sent. to_execution_events C document identity key (resolved_key_id key_id identity) = Inr events
     \<and> subseq sent events \<and> map event_key sent = map Inr (delivered report) \<and> list_all (\<lambda>e. answered t c e 202) sent"
proof -
  obtain events where e: "to_execution_events C document identity key (resolved_key_id key_id identity) = Inr events"
    "drain_loop (mark_settled lid stamp) (dead_letter lid stamp) (deliver_with_refresh t c iso_age max_age)
       (load_settled lid db) events empty_report (w, db) = (Inr report, (w', db'))"
    by (rule drain_Inr [OF assms])
  obtain n ds bs where p: "passed_events (load_settled lid db) events empty_report report n ds bs"
    "acknowledged (deliver_with_refresh t c iso_age max_age) events ds"
    using tables.loop_settles [OF e(2)] by blast
  have "delivered report = ds" using p(1) by (simp add: passed_events_def empty_report_def)
  moreover obtain as where "subseq as events" "map event_key as = map Inr ds"
    "\<forall>e \<in> set as. \<exists>u v u'. deliver_with_refresh t c iso_age max_age e u = (Inr v, u') \<and> vd_action v = Advance"
    using p(2) unfolding acknowledged_def by blast
  moreover from this(3) have "list_all (\<lambda>e. answered t c e 202) as"
    using deliver_advance by (fastforce simp: list_all_iff)
  ultimately show ?thesis using e(1) by blast
qed

theorem drain_delivers_acknowledged_witness:
  "\<exists>e. event_key e = Inr ''R:h1:task.started'' \<and> answered (test_transport 1) (make_client ''https://h'' 1 0) e 202"
proof -
  obtain r w db where r: "test_drain 1 (0, empty_db) = (Inr r, (w, db))" "delivered r = [''R:h1:task.started'']"
    by (rule drain_case [OF test_drain_down]) blast
  obtain sent where "map event_key sent = map Inr (delivered r)"
    "list_all (\<lambda>e. answered (test_transport 1) (make_client ''https://h'' 1 0) e 202) sent"
    using drain_delivers_acknowledged [OF r(1) [unfolded test_drain_def]] by blast
  with r(2) have "map event_key sent = [Inr ''R:h1:task.started'']"
    "list_all (\<lambda>e. answered (test_transport 1) (make_client ''https://h'' 1 0) e 202) sent" by simp_all
  then show ?thesis by (cases sent) auto
qed

section \<open>Attempts\<close>

text \<open>The transport with a counter of the calls of its opener beside the world.\<close>

definition counted :: "'w transport \<Rightarrow> ('w \<times> nat) transport" where
  "counted t = \<lparr>tp_open = (\<lambda>url data hs. bindI (onU Suc) (\<lambda>_. onW (tp_open t url data hs))), tp_token = onW (tp_token t),
     tp_sleep = (\<lambda>d. onW (tp_sleep t d)), tp_loads = tp_loads t\<rparr>"

lemma try_open_counted:
  assumes "try_open (counted t) c data (w, n) = (r, (w', n'))"
  shows "n' \<le> Suc n \<and> (\<forall>x. r = Inr x \<longrightarrow> n' = Suc n)"
  using assms by (auto simp: try_open_def counted_def bindI_app catchI_def onW_def onU_def
      split: prod.splits sum.splits option.splits pyerr.splits)

lemma backoff_counted: "client_backoff (counted t) c k (w, n) = (r, (w', n')) \<Longrightarrow> n' = n"
  by (auto simp: client_backoff_def counted_def onW_def split: if_splits prod.splits)

lemma deliver_loop_counted:
  "deliver_loop (counted t) c data k (w, n) = (res, (w', n')) \<Longrightarrow>
     n' \<le> n + 1 + nat (cl_max_retries c - k)
     \<and> (\<forall>rsp. res = Inr rsp \<longrightarrow> n < n' \<and> (rsp_status rsp < 500 \<or> n' = n + 1 + nat (cl_max_retries c - k)))"
proof (induction "nat (cl_max_retries c - k)" arbitrary: k w n rule: less_induct)
  case less
  obtain r u m where r: "try_open (counted t) c data (w, n) = (r, (u, m))" by (metis prod_cases3)
  note tc = try_open_counted [OF r]
  have again: "n' \<le> m + 1 + nat (cl_max_retries c - (k + 1))
     \<and> (\<forall>rsp. res = Inr rsp \<longrightarrow> m < n' \<and> (rsp_status rsp < 500 \<or> n' = m + 1 + nat (cl_max_retries c - (k + 1))))
     \<or> n' = m \<and> (\<exists>e. res = Inl e)"
    if "bindI (client_backoff (counted t) c k) (\<lambda>_. deliver_loop (counted t) c data (k + 1)) (u, m) = (res, (w', n'))"
      and "k < cl_max_retries c"
  proof -
    obtain b v j where b: "client_backoff (counted t) c k (u, m) = (b, (v, j))" by (metis prod_cases3)
    have j: "j = m" using backoff_counted [OF b] .
    show ?thesis
    proof (cases b)
      case (Inl e)
      with that(1) b j have "res = Inl e" "n' = m" by (auto simp: bindI_app)
      then show ?thesis by simp
    next
      case (Inr x)
      with that(1) b j have "deliver_loop (counted t) c data (k + 1) (v, m) = (res, (w', n'))" by (simp add: bindI_app)
      from less.hyps [OF _ this] that(2) show ?thesis by simp
    qed
  qed
  show ?case
  proof (cases r)
    case (Inl e)
    with less.prems r have "res = Inl e" "n' = m" by (auto simp: deliver_loop.simps [of "counted t" c data k] bindI_app)
    with tc show ?thesis by simp
  next
    case x: (Inr x)
    with tc have m: "m = Suc n" by simp
    show ?thesis
    proof (cases "k < cl_max_retries c \<and> (case x of None \<Rightarrow> True | Some (st, raw) \<Rightarrow> st \<ge> 500)")
      case True
      then have "bindI (client_backoff (counted t) c k) (\<lambda>_. deliver_loop (counted t) c data (k + 1)) (u, m) = (res, (w', n'))"
        using less.prems r x by (auto simp: deliver_loop.simps [of "counted t" c data k] bindI_app split: option.splits)
      from again [OF this] True m show ?thesis by auto
    next
      case False
      then show ?thesis using less.prems r x m
        by (auto simp: deliver_loop.simps [of "counted t" c data k] bindI_app bindR_Inr_iff split: option.splits if_splits)
    qed
  qed
qed

text \<open>
  Attempts are bounded: one delivery opens at most \<open>max_retries + 1\<close> connections however
  the transport behaves, and when it returns an answer, that answer is below 500 or the
  attempts are used up.
\<close>

theorem deliver_bounded:
  assumes "deliver (counted t) c event (w, n) = (res, (w', n'))"
  shows "n' \<le> n + 1 + nat (cl_max_retries c)
     \<and> (case res of Inr rsp \<Rightarrow> n < n' \<and> (rsp_status rsp < 500 \<or> n' = n + 1 + nat (cl_max_retries c)) | Inl _ \<Rightarrow> True)"
  using deliver_loop_counted [OF assms [unfolded deliver_def]] by (cases res) auto

theorem deliver_bounded_witness:
  "snd (snd (deliver (counted (test_transport 0)) (make_client ''https://h'' 2 0) VNone (0, 0))) \<le> 3"
proof -
  obtain res w n where d: "deliver (counted (test_transport 0)) (make_client ''https://h'' 2 0) VNone (0, 0) = (res, (w, n))"
    by (metis prod_cases3)
  from deliver_bounded [OF d] have "n \<le> 0 + 1 + nat (cl_max_retries (make_client ''https://h'' 2 0))" by blast
  with d show ?thesis by (simp add: make_client_def)
qed

section \<open>Answers\<close>

text \<open>
  The classification of answers: 202 advances, 401 refreshes, a server error is retried
  whatever its body says, an integrity error halts at every other status, and no other answer
  than 202 advances; a 403 whose body names none of the known codes is dead-lettered.
\<close>

theorem classify_answers:
  "(classify iso_age max_age rsp event = Inr v \<longrightarrow> (vd_action v = Advance \<longleftrightarrow> rsp_status rsp = 202)
       \<and> (vd_action v = Refresh \<longleftrightarrow> rsp_status rsp = 401))
   \<and> (rsp_status rsp \<ge> 500 \<longrightarrow> (\<exists>why. classify iso_age max_age rsp event = Inr \<lparr>vd_action = Retry, vd_reason = why\<rparr>))
   \<and> (rsp_status rsp < 500 \<and> rsp_status rsp \<notin> {202, 401} \<and> reject_code (rsp_body rsp) \<in> {VStr ''invalid_signature'', VStr ''schema_invalid''}
        \<longrightarrow> (\<exists>why. classify iso_age max_age rsp event = Inr \<lparr>vd_action = Halt, vd_reason = why\<rparr>))
   \<and> (rsp_status rsp = 403 \<and> reject_code (rsp_body rsp) = VNone
        \<longrightarrow> (\<exists>why. classify iso_age max_age rsp event = Inr \<lparr>vd_action = Dead_Letter, vd_reason = why\<rparr>))"
proof (intro conjI impI)
  assume c: "classify iso_age max_age rsp event = Inr v"
  show "vd_action v = Advance \<longleftrightarrow> rsp_status rsp = 202"
    using c by (auto simp: classify_def Let_def bindR_Inr_iff split: if_splits option.splits)
  show "vd_action v = Refresh \<longleftrightarrow> rsp_status rsp = 401"
    using c by (auto simp: classify_def Let_def bindR_Inr_iff split: if_splits option.splits)
qed (auto simp: classify_def Let_def)

theorem classify_answers_witness:
  "\<exists>why. classify (\<lambda>_. Inr None) 5 \<lparr>rsp_status = 503, rsp_body = [(''code'', VStr ''schema_invalid'')]\<rparr> VNone
     = Inr \<lparr>vd_action = Retry, vd_reason = why\<rparr>"
  using classify_answers [of "\<lambda>_. Inr None" 5 "\<lparr>rsp_status = 503, rsp_body = [(''code'', VStr ''schema_invalid'')]\<rparr>" VNone]
  by simp

end
