(* ===== verification/ReceiverClaims.thy ===== *)
theory ReceiverClaims
  imports RelayClaims
begin

text \<open>
  Properties of the receiver: who gets through the door, how many workers run, and that the
  acceptance table makes every dispatched task run at most once.

  The acceptance table is related to the map it stands for, from run and task id to status;
  the interleavings of the handlers are a step relation over its transactions.
\<close>

section \<open>The acceptance table as a map\<close>

definition row_key :: "accepted_row \<Rightarrow> string \<times> string" where
  "row_key r = (a_run r, a_task r)"

definition status_map :: "relay_db \<Rightarrow> string \<times> string \<Rightarrow> string option" where
  "status_map db = (\<lambda>(r, t). task_status r t db)"

text \<open>The primary key of the table.\<close>

definition keyed_table :: "relay_db \<Rightarrow> bool" where
  "keyed_table db = distinct (map row_key (accepted db))"

abbreviation is_row :: "string \<times> string \<Rightarrow> accepted_row \<Rightarrow> bool" where
  "is_row k r \<equiv> row_key r = k"

lemma accepted_at_key: "accepted_at r t = is_row (r, t)"
  by (rule ext) (auto simp: accepted_at_def row_key_def)

lemma status_map_find: "status_map db k = map_option a_status (find (is_row k) (accepted db))"
  by (cases k) (simp add: status_map_def task_status_def accepted_at_key)

lemma status_map_cong: "accepted db' = accepted db \<Longrightarrow> status_map db' = status_map db"
  by (rule ext) (simp add: status_map_find)

lemma keyed_table_cong: "accepted db' = accepted db \<Longrightarrow> keyed_table db' = keyed_table db"
  by (simp add: keyed_table_def)

lemma find_update_rows:
  assumes "\<And>r. row_key (f r) = row_key r"
  shows "find (is_row k) (map f rows) = map_option f (find (is_row k) rows)"
  by (induction rows) (simp_all add: assms)

lemma fresh_row: "row_key r \<notin> row_key ` set rows \<Longrightarrow> find (is_row (row_key r)) rows = None"
  by (auto simp: find_None_iff) (metis imageI)

lemma found_key: "find (is_row k) rows = Some x \<Longrightarrow> row_key x = k"
  by (auto simp: find_Some_iff)

lemma status_map_update:
  assumes "accepted db' = map f (accepted db)" "\<And>r. row_key (f r) = row_key r"
  shows "status_map db' k = map_option (\<lambda>x. a_status (f x)) (find (is_row k) (accepted db))"
  by (simp add: status_map_find assms(1) find_update_rows [of f, OF assms(2)] option.map_comp comp_def)

lemma find_kept_rows:
  "distinct (map row_key rows) \<Longrightarrow> find (is_row k) (filter P rows) =
     (case find (is_row k) rows of Some r \<Rightarrow> if P r then Some r else None | None \<Rightarrow> None)"
proof (induction rows)
  case (Cons r rows)
  then have "find (is_row (row_key r)) rows = None" by (simp add: fresh_row)
  with Cons show ?case by (auto split: option.splits)
qed simp

lemma count_rows:
  "distinct (map row_key rows) \<Longrightarrow> count_list (map row_key (filter P rows)) k =
     (case find (is_row k) rows of Some r \<Rightarrow> if P r then 1 else 0 | None \<Rightarrow> 0)"
proof (induction rows)
  case (Cons r rows)
  then have "find (is_row (row_key r)) rows = None" by (simp add: fresh_row)
  with Cons show ?case by (auto split: option.splits)
qed simp

lemma length_rows:
  "distinct (map row_key rows) \<Longrightarrow> length (filter (\<lambda>r. is_row k r \<and> P r) rows) =
     (case find (is_row k) rows of Some r \<Rightarrow> if P r then 1 else 0 | None \<Rightarrow> 0)"
proof (induction rows)
  case (Cons r rows)
  then have "find (is_row (row_key r)) rows = None" by (simp add: fresh_row)
  with Cons show ?case by (auto split: option.splits)
qed simp

lemma row_key_update [simp]:
  "row_key (r\<lparr>a_status := x, a_updated := y\<rparr>) = row_key r"
  by (simp add: row_key_def)

lemma accept_refines:
  "status_map (fst (accept_task stamp r t db)) =
     (if status_map db (r, t) = None then (status_map db)((r, t) \<mapsto> ''accepted'') else status_map db)"
  "snd (accept_task stamp r t db) = (if status_map db (r, t) \<in> {None, Some ''accepted''} then ''accept'' else ''replay'')"
proof -
  show "status_map (fst (accept_task stamp r t db)) =
     (if status_map db (r, t) = None then (status_map db)((r, t) \<mapsto> ''accepted'') else status_map db)"
  proof (cases "find (is_row (r, t)) (accepted db)")
    case None
    then have "status_map (fst (accept_task stamp r t db)) k = ((status_map db)((r, t) \<mapsto> ''accepted'')) k" for k
      by (auto simp: accept_task_def accepted_at_key status_map_find find_append row_key_def split: option.splits)
    with None show ?thesis by (simp add: status_map_find fun_eq_iff)
  next
    case (Some row)
    then show ?thesis by (simp add: accept_task_def accepted_at_key status_map_find)
  qed
  show "snd (accept_task stamp r t db) = (if status_map db (r, t) \<in> {None, Some ''accepted''} then ''accept'' else ''replay'')"
    by (simp add: accept_task_def accepted_at_key status_map_find split: option.splits)
qed

lemma accept_keyed:
  assumes "keyed_table db"
  shows "keyed_table (fst (accept_task stamp r t db))"
proof (cases "find (is_row (r, t)) (accepted db)")
  case None
  then have "(r, t) \<notin> row_key ` set (accepted db)" by (auto simp: find_None_iff)
  with assms None show ?thesis by (simp add: accept_task_def accepted_at_key keyed_table_def row_key_def [of "\<lparr>a_run = r, a_task = t, a_status = _, a_updated = _\<rparr>"])
qed (use assms in \<open>simp add: accept_task_def accepted_at_key\<close>)

lemma claim_refines:
  assumes "keyed_table db"
  shows "claim_task stamp r t db = (db', won) \<Longrightarrow>
     won = (status_map db (r, t) = Some ''accepted'')
     \<and> status_map db' = (if won then (status_map db)((r, t) \<mapsto> ''running'') else status_map db) \<and> keyed_table db'"
proof -
  assume c: "claim_task stamp r t db = (db', won)"
  let ?f = "\<lambda>x. if is_row (r, t) x \<and> a_status x = ''accepted'' then x\<lparr>a_status := ''running'', a_updated := stamp\<rparr> else x"
  have f: "row_key (?f x) = row_key x" for x by simp
  from c have db': "accepted db' = map ?f (accepted db)"
    and won: "won = (length (filter (\<lambda>x. is_row (r, t) x \<and> a_status x = ''accepted'') (accepted db)) = 1)"
    by (auto simp: claim_task_def accepted_at_key Let_def)
  have w: "won = (status_map db (r, t) = Some ''accepted'')"
    using assms by (simp add: won length_rows keyed_table_def status_map_find split: option.splits)
  have "status_map db' k = (if won then (status_map db)((r, t) \<mapsto> ''running'') else status_map db) k" for k
    using found_key [of k "accepted db"]
    by (cases "find (is_row k) (accepted db)"; cases "k = (r, t)")
      (auto simp: status_map_update [OF db' f] w status_map_find [of db])
  moreover have "keyed_table db'" using assms f by (simp add: keyed_table_def db' comp_def)
  ultimately show ?thesis using w by blast
qed

lemma settle_refines:
  "status_map (settle_task stamp r t ok db) =
     (if status_map db (r, t) = None then status_map db
      else (status_map db)((r, t) \<mapsto> (if ok then ''done'' else ''failed'')))"
  "keyed_table (settle_task stamp r t ok db) = keyed_table db"
proof -
  let ?f = "\<lambda>x. if is_row (r, t) x then x\<lparr>a_status := (if ok then ''done'' else ''failed''), a_updated := stamp\<rparr> else x"
  have f: "row_key (?f x) = row_key x" for x by simp
  have db': "accepted (settle_task stamp r t ok db) = map ?f (accepted db)"
    by (simp add: settle_task_def accepted_at_key)
  have "status_map (settle_task stamp r t ok db) k = (if status_map db (r, t) = None then status_map db
      else (status_map db)((r, t) \<mapsto> (if ok then ''done'' else ''failed''))) k" for k
    using found_key [of k "accepted db"]
    by (cases "find (is_row k) (accepted db)"; cases "k = (r, t)")
      (auto simp: status_map_update [OF db' f] status_map_find [of db])
  then show "status_map (settle_task stamp r t ok db) =
     (if status_map db (r, t) = None then status_map db
      else (status_map db)((r, t) \<mapsto> (if ok then ''done'' else ''failed'')))" by (rule ext)
  show "keyed_table (settle_task stamp r t ok db) = keyed_table db" using f by (simp add: keyed_table_def db' comp_def)
qed

text \<open>The rows a sweep removes.\<close>

definition swept_rows :: "(int \<Rightarrow> string) \<Rightarrow> environ \<Rightarrow> int option \<Rightarrow> relay_db \<Rightarrow> accepted_row list" where
  "swept_rows iso_before environ max_age db =
     filter (stale_accepted (iso_before (retention_window max_age environ))) (accepted db)"

lemma prune_refines:
  fixes iso_before :: "int \<Rightarrow> string" and environ :: environ and max_age :: "int option"
  assumes "keyed_table db"
  defines "db' \<equiv> fst (prune_settled iso_before environ max_age db)"
    and "swept \<equiv> map row_key (swept_rows iso_before environ max_age db)"
  shows "status_map db' k = (if k \<in> set swept then None else status_map db k)"
    and "k \<in> set swept \<Longrightarrow> status_map db k \<in> {Some ''done'', Some ''failed''}"
    and "count_list swept k = (if k \<in> set swept then 1 else 0)"
    and "keyed_table db'"
proof -
  let ?P = "stale_accepted (iso_before (retention_window max_age environ))"
  have d: "distinct (map row_key (accepted db))" using assms(1) by (simp add: keyed_table_def)
  have db': "accepted db' = filter (\<lambda>r. \<not> ?P r) (accepted db)" by (simp add: db'_def prune_settled_def Let_def)
  have c: "count_list swept k = (case find (is_row k) (accepted db) of Some r \<Rightarrow> if ?P r then 1 else 0 | None \<Rightarrow> 0)"
    unfolding swept_def swept_rows_def by (rule count_rows [OF d])
  have mem: "k \<in> set swept \<longleftrightarrow> (\<exists>r. find (is_row k) (accepted db) = Some r \<and> ?P r)"
    using c count_list_0_iff [of swept k] by (auto split: option.splits if_splits)
  show "status_map db' k = (if k \<in> set swept then None else status_map db k)"
    by (auto simp: status_map_find db' find_kept_rows [OF d] mem split: option.splits)
  show "k \<in> set swept \<Longrightarrow> status_map db k \<in> {Some ''done'', Some ''failed''}"
    by (auto simp: mem status_map_find stale_accepted_def)
  show "count_list swept k = (if k \<in> set swept then 1 else 0)"
    using c mem by (auto split: option.splits)
  show "keyed_table db'" using d by (simp add: keyed_table_def db' distinct_map_filter)
qed

section \<open>The acceptance protocol\<close>

text \<open>
  The fleet: the tables every handler and worker shares, the tasks that were claimed and not
  settled yet, every task run so far and every row swept so far.
\<close>

record fleet =
  fl_db :: relay_db
  fl_live :: "(string \<times> string) list"
  fl_runs :: "(string \<times> string) list"
  fl_swept :: "(string \<times> string) list"

definition fleet_start :: fleet where
  "fleet_start = \<lparr>fl_db = empty_db, fl_live = [], fl_runs = [], fl_swept = []\<rparr>"

text \<open>
  The transactions, in any order and from any number of threads. The door accepts at any time;
  a worker claims, and runs when it wins the claim; it settles what it claimed; a worker whose
  log call fails after that settles the settled row again; the drain works on the other
  tables; any worker sweeps.
\<close>

inductive fleet_step :: "fleet \<Rightarrow> fleet \<Rightarrow> bool" where
  Accept: "accept_task stamp r t (fl_db s) = (db', decision) \<Longrightarrow> fleet_step s (s\<lparr>fl_db := db'\<rparr>)"
| Win: "claim_task stamp r t (fl_db s) = (db', True) \<Longrightarrow>
    fleet_step s (s\<lparr>fl_db := db', fl_live := (r, t) # fl_live s, fl_runs := (r, t) # fl_runs s\<rparr>)"
| Lose: "claim_task stamp r t (fl_db s) = (db', False) \<Longrightarrow> fleet_step s (s\<lparr>fl_db := db'\<rparr>)"
| Settle: "(r, t) \<in> set (fl_live s) \<Longrightarrow>
    fleet_step s (s\<lparr>fl_db := settle_task stamp r t ok (fl_db s), fl_live := remove1 (r, t) (fl_live s)\<rparr>)"
| Resettle: "task_status r t (fl_db s) \<in> {Some ''done'', Some ''failed''} \<Longrightarrow>
    fleet_step s (s\<lparr>fl_db := settle_task stamp r t ok (fl_db s)\<rparr>)"
| Deliver: "accepted db' = accepted (fl_db s) \<Longrightarrow> fleet_step s (s\<lparr>fl_db := db'\<rparr>)"
| Sweep: "fleet_step s (s\<lparr>fl_db := fst (prune_settled iso_before environ max_age (fl_db s)),
    fl_swept := map row_key (swept_rows iso_before environ max_age (fl_db s)) @ fl_swept s\<rparr>)"

inductive_cases fleet_stepE: "fleet_step s s'"

text \<open>A row that was claimed since it was last swept stands for one run.\<close>

definition used_up :: "string option \<Rightarrow> nat" where
  "used_up st = (if st \<in> {None, Some ''accepted''} then 0 else 1)"

definition fleet_ok :: "fleet \<Rightarrow> bool" where
  "fleet_ok s = (keyed_table (fl_db s) \<and> distinct (fl_live s)
     \<and> (\<forall>k. k \<in> set (fl_live s) \<longleftrightarrow> status_map (fl_db s) k = Some ''running'')
     \<and> (\<forall>k. count_list (fl_runs s) k = count_list (fl_swept s) k + used_up (status_map (fl_db s) k)))"

lemma count_distinct: "distinct xs \<Longrightarrow> count_list xs x = (if x \<in> set xs then 1 else 0)"
  by (induction xs) auto

lemma fleet_start_ok: "fleet_ok fleet_start"
  by (simp add: fleet_ok_def fleet_start_def empty_db_def keyed_table_def status_map_find used_up_def)

lemma fleet_step_ok:
  assumes "fleet_step s s'" and "fleet_ok s"
  shows "fleet_ok s'"
proof -
  from assms(2) have ok: "keyed_table (fl_db s)" "distinct (fl_live s)"
    "\<And>k. k \<in> set (fl_live s) \<longleftrightarrow> status_map (fl_db s) k = Some ''running''"
    "\<And>k. count_list (fl_runs s) k = count_list (fl_swept s) k + used_up (status_map (fl_db s) k)"
    unfolding fleet_ok_def by blast+
  show ?thesis
    using assms(1)
  proof cases
    case (Accept stamp r t db' decision)
    then have "status_map db' = (if status_map (fl_db s) (r, t) = None then (status_map (fl_db s))((r, t) \<mapsto> ''accepted'') else status_map (fl_db s))"
      and "keyed_table db'"
      using accept_refines(1) [of stamp r t "fl_db s"] accept_keyed [OF ok(1), of stamp r t] by simp_all
    with ok Accept show ?thesis by (auto simp: fleet_ok_def used_up_def)
  next
    case (Win stamp r t db')
    note c = claim_refines [OF ok(1) Win(2)]
    then have "(r, t) \<notin> set (fl_live s)" using ok(3) [of "(r, t)"] by simp
    with c ok Win show ?thesis by (auto simp: fleet_ok_def used_up_def)
  next
    case (Lose stamp r t db')
    note c = claim_refines [OF ok(1) Lose(2)]
    with ok Lose show ?thesis by (auto simp: fleet_ok_def)
  next
    case (Settle r t stamp b)
    then have "status_map (fl_db s) (r, t) = Some ''running''" using ok(3) by blast
    then have "status_map (settle_task stamp r t b (fl_db s)) = (status_map (fl_db s))((r, t) \<mapsto> (if b then ''done'' else ''failed''))"
      by (simp add: settle_refines(1))
    with ok Settle show ?thesis by (auto simp: fleet_ok_def settle_refines(2) used_up_def)
  next
    case (Resettle r t stamp b)
    then have st: "status_map (fl_db s) (r, t) \<in> {Some ''done'', Some ''failed''}" by (simp add: status_map_def)
    then have "status_map (settle_task stamp r t b (fl_db s)) = (status_map (fl_db s))((r, t) \<mapsto> (if b then ''done'' else ''failed''))"
      by (auto simp: settle_refines(1))
    with ok Resettle st show ?thesis by (auto simp: fleet_ok_def settle_refines(2) used_up_def)
  next
    case (Deliver db')
    with ok show ?thesis by (simp add: fleet_ok_def status_map_cong [of db'] keyed_table_cong [of db'])
  next
    case (Sweep iso_before environ max_age)
    note p = prune_refines [OF ok(1), where iso_before = iso_before and environ = environ and max_age = max_age]
    have "k \<in> set (fl_live s) \<longleftrightarrow> status_map (fl_db s') k = Some ''running''" for k
      using ok(3) [of k] p(1,2) [where k = k] Sweep by auto
    moreover have "count_list (fl_runs s') k = count_list (fl_swept s') k + used_up (status_map (fl_db s') k)" for k
      using ok(4) [of k] p(1,2,3) [where k = k] Sweep by (auto simp: used_up_def)
    ultimately show ?thesis using ok(1,2) p(4) Sweep by (simp add: fleet_ok_def)
  qed
qed

lemma fleet_steps_ok: "fleet_step\<^sup>*\<^sup>* s s' \<Longrightarrow> fleet_ok s \<Longrightarrow> fleet_ok s'"
  by (induction rule: rtranclp_induct) (auto intro: fleet_step_ok)

text \<open>
  C10. A dispatched task runs at most once. In every state the fleet can reach, a task is
  claimed by at most one worker, it is exactly when its row says so, and it ran at most once
  more than its settled row was swept: while its row is kept, once.
\<close>

theorem at_most_one_run:
  assumes "fleet_step\<^sup>*\<^sup>* fleet_start s"
  shows "count_list (fl_live s) (r, t) \<le> 1
     \<and> (count_list (fl_live s) (r, t) = 1 \<longleftrightarrow> task_status r t (fl_db s) = Some ''running'')
     \<and> count_list (fl_runs s) (r, t) \<le> 1 + count_list (fl_swept s) (r, t)"
proof -
  have ok: "fleet_ok s" using fleet_steps_ok [OF assms fleet_start_ok] .
  then have "count_list (fl_live s) (r, t) = (if (r, t) \<in> set (fl_live s) then 1 else 0)"
    by (simp add: fleet_ok_def count_distinct)
  with ok show ?thesis by (auto simp: fleet_ok_def used_up_def status_map_def)
qed

text \<open>Two accepted dispatches of one task, of which the first worker wins the claim.\<close>

definition once_fleet :: fleet where
  "once_fleet = \<lparr>fl_db = fst (claim_task ''t'' ''R'' ''T'' (fst (accept_task ''t'' ''R'' ''T'' empty_db))),
     fl_live = [(''R'', ''T'')], fl_runs = [(''R'', ''T'')], fl_swept = []\<rparr>"

lemma once_reached: "fleet_step\<^sup>*\<^sup>* fleet_start once_fleet"
proof -
  let ?a = "fleet_start\<lparr>fl_db := fst (accept_task ''t'' ''R'' ''T'' empty_db)\<rparr>"
  have "fleet_step fleet_start ?a"
    by (rule Accept [where stamp = "''t''" and r = "''R''" and t = "''T''" and decision = "''accept''"])
      (simp add: fleet_start_def accept_task_def empty_db_def)
  moreover have "fleet_step ?a once_fleet"
    using Win [of "''t''" "''R''" "''T''" ?a "fl_db once_fleet"]
    by (simp add: once_fleet_def fleet_start_def accept_task_def empty_db_def claim_task_def accepted_at_def)
  ultimately show ?thesis by (meson rtranclp.rtrancl_refl rtranclp.rtrancl_into_rtrancl)
qed

theorem at_most_one_run_witness:
  "count_list (fl_live once_fleet) (''R'', ''T'') \<le> 1 \<and> task_status ''R'' ''T'' (fl_db once_fleet) = Some ''running''"
  using at_most_one_run [OF once_reached, of "''R''" "''T''"] by (simp add: once_fleet_def)

end
