(* ===== verification/WorkerClaims.thy ===== *)
theory WorkerClaims
  imports ReceiverClaims
begin

text \<open>
  The worker and the door of the receiver against the acceptance protocol: what
  \<open>execute_payload\<close> does to the tables is a sequence of steps of the protocol, whatever the run,
  the drain or the log do; the door lets only authenticated, valid payloads in and never runs
  more workers than there are slots.
\<close>

section \<open>Effects that keep a part of the tables\<close>

definition keeps :: "('u \<Rightarrow> 'a) \<Rightarrow> ('w \<times> 'u, 'b) io \<Rightarrow> bool" where
  "keeps f m = (\<forall>w u. f (snd (snd (m (w, u)))) = f u)"

named_theorems keeps_intros "effects that keep a part of the state"

lemma keepsD: "keeps f m \<Longrightarrow> m (w, u) = (r, (w', u')) \<Longrightarrow> f u' = f u"
  unfolding keeps_def by (metis snd_conv)

lemma keeps_ret [keeps_intros]: "keeps f (retI a)"
  by (simp add: keeps_def)

lemma keeps_lift [keeps_intros]: "keeps f (liftI r)"
  by (simp add: keeps_def)

lemma keeps_onW [keeps_intros]: "keeps f (onW m)"
  by (simp add: keeps_def)

lemma keeps_onU: "(\<And>u. f (h u) = f u) \<Longrightarrow> keeps f (onU h)"
  by (simp add: keeps_def)

lemma keeps_bind [keeps_intros]:
  assumes "keeps f m" and "\<And>x. keeps f (g x)"
  shows "keeps f (bindI m g)"
  unfolding keeps_def
proof (intro allI)
  fix w u
  obtain r w' u' where m: "m (w, u) = (r, (w', u'))" by (metis prod_cases3)
  then have "f u' = f u" by (rule keepsD [OF assms(1)])
  with m assms(2) show "f (snd (snd (bindI m g (w, u)))) = f u"
    by (cases r) (simp_all add: bindI_app keeps_def)
qed

text \<open>The loop of the drain keeps what marking and burying keep.\<close>

locale framed_outbox = outbox +
  fixes frame :: "'a \<Rightarrow> 'b"
  assumes frame_mark: "frame (mark k db) = frame db"
    and frame_bury: "frame (bury why e k db) = frame db"
begin

lemma loop_frame: "keeps frame (drain_loop mark bury send S es r)"
proof (induction es arbitrary: r)
  case (Cons e es)
  have branch: "keeps frame (case vd_action v of
         Advance \<Rightarrow> bindI (onU (mark k)) (\<lambda>_. drain_loop mark bury send S es (r\<lparr>delivered := delivered r @ [k]\<rparr>))
       | Dead_Letter \<Rightarrow> bindI (onU (bury (vd_reason v) e k)) (\<lambda>_.
           drain_loop mark bury send S es (r\<lparr>dead_lettered := dead_lettered r @ [k]\<rparr>))
       | Retry \<Rightarrow> retI (r\<lparr>pending := pending r @ [k]\<rparr>)
       | _ \<Rightarrow> retI (r\<lparr>pending := pending r @ [k], halted := Some (vd_reason v)\<rparr>))" for v k
    by (cases "vd_action v")
      (auto intro!: keeps_intros keeps_onU Cons.IH simp: frame_mark frame_bury)
  show ?case by (simp, intro keeps_intros) (simp add: Cons.IH keeps_bind keeps_onW branch)
qed (simp add: keeps_ret)

end

interpretation tables: framed_outbox "load_settled lid" "mark_settled lid stamp" "dead_letter lid stamp" accepted for lid stamp
  by unfold_locales (simp_all add: mark_settled_def dead_letter_def)

lemma drain_frame: "keeps accepted (drain C t c iso_age stamp document identity lid key key_id max_age)"
  unfolding keeps_def
proof (intro allI)
  fix w db
  show "accepted (snd (snd (drain C t c iso_age stamp document identity lid key key_id max_age (w, db)))) = accepted db"
    unfolding drain_def prod.case
    by (rule keeps_bind [unfolded keeps_def, rule_format])
      (simp_all add: tables.loop_frame [unfolded keeps_def, rule_format])
qed

section \<open>The worker\<close>

text \<open>What a run of a claimed task does to the acceptance table: it settles the row, or raises.\<close>

definition settles :: "string \<Rightarrow> string \<Rightarrow> string \<Rightarrow> ('w \<times> relay_db, 'b) io \<Rightarrow> bool" where
  "settles stamp r t m = (\<forall>w db res w' db'. m (w, db) = (res, (w', db')) \<longrightarrow>
     (\<exists>e. res = Inl e) \<and> accepted db' = accepted db
     \<or> (\<exists>ok db1. accepted db1 = accepted db \<and> db' = settle_task stamp r t ok db1))"

lemma settles_bind:
  assumes "keeps accepted m" and "\<And>x. settles stamp r t (g x)"
  shows "settles stamp r t (bindI m g)"
  unfolding settles_def
proof (intro allI impI)
  fix w db res w' db'
  assume b: "bindI m g (w, db) = (res, (w', db'))"
  obtain x v db1 where m: "m (w, db) = (x, (v, db1))" by (metis prod_cases3)
  have db1: "accepted db1 = accepted db" using keepsD [OF assms(1) m] .
  show "(\<exists>e. res = Inl e) \<and> accepted db' = accepted db
     \<or> (\<exists>ok db1. accepted db1 = accepted db \<and> db' = settle_task stamp r t ok db1)"
  proof (cases x)
    case (Inl e)
    with b m db1 show ?thesis by (auto simp: bindI_app)
  next
    case (Inr a)
    with b m have "g a (v, db1) = (res, (w', db'))" by (simp add: bindI_app)
    with assms(2) db1 show ?thesis unfolding settles_def by metis
  qed
qed

lemma settles_onU: "settles stamp r t (bindI (onU (settle_task stamp r t ok)) (\<lambda>_. bindI (onW l) (\<lambda>_. retI b)))"
  unfolding settles_def by (auto simp: bindI_app split: sum.splits)

lemma run_payload_settles:
  assumes "sql_text run_id = Inr r" "sql_text task_id = Inr t"
  shows "settles (dp_stamp d) r t (run_task_payload d payload run_id task_id)"
proof -
  have save: "keeps accepted (\<lambda>(w, db). (case save_identity lid payload db of (db', identity) \<Rightarrow> (Inr identity, (w, db'))))" for lid
    by (simp add: keeps_def save_identity_def Let_def)
  show ?thesis
    unfolding run_task_payload_def assms Let_def bindR_simps bindI_lift prod.case
    by (intro settles_bind settles_onU save drain_frame keeps_intros)
qed

text \<open>The parts of \<open>execute_payload\<close>: the claim, and the run with its handler and cleanup.\<close>

definition guarded_run :: "'w deps \<Rightarrow> (string \<times> val) list \<Rightarrow> val \<Rightarrow> val \<Rightarrow> string \<Rightarrow> string \<Rightarrow> ('w \<times> relay_db, bool) io" where
  "guarded_run d payload run_id task_id r t =
     catchI (run_task_payload d payload run_id task_id) (\<lambda>e. Some (settle_failed d (task_label run_id task_id) r t))"

lemma execute_payload_ids:
  assumes "execute_payload d payload (w, db) = (res, (w', db'))"
  obtains (unread) e where "res = Inl e" "db' = db"
  | (read) run_id task_id r t db1 won where "item (VDict payload) ''run_id'' = Inr run_id"
      "item (VDict payload) ''task_id'' = Inr task_id" "sql_text run_id = Inr r" "sql_text task_id = Inr t"
      "claim_task (dp_stamp d) r t db = (db1, won)"
      "(if \<not> won then onW (dp_log d (''claim-lost '' @ task_label run_id task_id)) else
         bindI (onW (dp_log d (''run-start '' @ task_label run_id task_id))) (\<lambda>_.
         finallyI (bindI (guarded_run d payload run_id task_id r t) (\<lambda>_. retI ()))
           (cleanup d (cloned_workspace d payload run_id task_id)))) (w, db1) = (res, (w', db'))"
proof -
  note x = assms [unfolded execute_payload_def guarded_run_def [symmetric]]
  show thesis
  proof (cases "item (VDict payload) ''run_id''")
    case (Inl e)
    with x show thesis by (intro unread) (auto simp: bindI_app)
  next
    case rid: (Inr run_id)
    show thesis
    proof (cases "item (VDict payload) ''task_id''")
      case (Inl e)
      with x rid show thesis by (intro unread) (auto simp: bindI_app)
    next
      case tid: (Inr task_id)
      show thesis
      proof (cases "bindR (sql_text run_id) (\<lambda>r. bindR (sql_text task_id) (\<lambda>t. Inr (r, t)))")
        case (Inl e)
        with x rid tid show thesis by (intro unread) (auto simp: bindI_app bindR_Inl_iff)
      next
        case (Inr p)
        then obtain r t where rt: "sql_text run_id = Inr r" "sql_text task_id = Inr t" by (auto simp: bindR_Inr_iff)
        obtain db1 won where c: "claim_task (dp_stamp d) r t db = (db1, won)" by (cases "claim_task (dp_stamp d) r t db")
        show thesis
          by (rule read [OF rid tid rt c]) (use x rid tid rt c in \<open>simp add: bindI_app\<close>)
      qed
    qed
  qed
qed

lemma guarded_run_settles:
  assumes "sql_text run_id = Inr r" "sql_text task_id = Inr t"
    and "guarded_run d payload run_id task_id r t (w, db) = (res, (w', db'))"
  shows "\<exists>ok db1. accepted db1 = accepted db \<and>
     (db' = settle_task (dp_stamp d) r t ok db1 \<or> db' = settle_task (dp_stamp d) r t False (settle_task (dp_stamp d) r t ok db1))"
proof -
  obtain x v db2 where m: "run_task_payload d payload run_id task_id (w, db) = (x, (v, db2))" by (metis prod_cases3)
  have s: "(\<exists>e. x = Inl e) \<and> accepted db2 = accepted db
     \<or> (\<exists>ok db1. accepted db1 = accepted db \<and> db2 = settle_task (dp_stamp d) r t ok db1)"
    using run_payload_settles [OF assms(1,2), of d payload] m unfolding settles_def by blast
  show ?thesis
  proof (cases x)
    case (Inl e)
    with assms(3) m have "db' = settle_task (dp_stamp d) r t False db2"
      by (auto simp: guarded_run_def catchI_def settle_failed_def bindI_app split: sum.splits)
    with s show ?thesis by blast
  next
    case (Inr b)
    with assms(3) m have "db' = db2" by (simp add: guarded_run_def catchI_def)
    with s Inr show ?thesis by blast
  qed
qed

lemma cleanup_steps:
  assumes "cleanup d p (w, fl_db s) = (res, (w', db'))"
  shows "\<exists>s'. fleet_step\<^sup>*\<^sup>* s s' \<and> fl_db s' = db' \<and> fl_runs s' = fl_runs s \<and> fl_live s' = fl_live s"
proof -
  have "db' = fl_db s \<or> db' = fst (prune_settled (dp_iso_before d) (dp_environ d) None (fl_db s))"
    using assms by (cases p) (auto simp: cleanup_def bindI_app split: sum.splits)
  then show ?thesis
  proof
    assume "db' = fl_db s"
    then show ?thesis by blast
  next
    assume "db' = fst (prune_settled (dp_iso_before d) (dp_environ d) None (fl_db s))"
    moreover note r_into_rtranclp [of fleet_step, OF Sweep [of s "dp_iso_before d" "dp_environ d" None]]
    ultimately show ?thesis by fastforce
  qed
qed

text \<open>A claimed task: the tables it may leave, and the steps that lead there.\<close>

lemma settle_steps:
  assumes "fleet_ok s" "(r, t) \<in> set (fl_live s)" "accepted db1 = accepted (fl_db s)"
  shows "\<exists>s'. fleet_step\<^sup>*\<^sup>* s s' \<and> fl_db s' = settle_task stamp r t ok db1 \<and> fl_runs s' = fl_runs s
       \<and> fl_live s' = remove1 (r, t) (fl_live s)"
    and "\<exists>s'. fleet_step\<^sup>*\<^sup>* s s' \<and> fl_db s' = settle_task stamp r t False (settle_task stamp r t ok db1)
       \<and> fl_runs s' = fl_runs s \<and> fl_live s' = remove1 (r, t) (fl_live s)"
proof -
  let ?s1 = "s\<lparr>fl_db := db1\<rparr>"
  let ?s2 = "?s1\<lparr>fl_db := settle_task stamp r t ok db1, fl_live := remove1 (r, t) (fl_live s)\<rparr>"
  let ?s3 = "?s2\<lparr>fl_db := settle_task stamp r t False (settle_task stamp r t ok db1)\<rparr>"
  have 1: "fleet_step s ?s1" using assms(3) by (rule Deliver)
  have 2: "fleet_step ?s1 ?s2" using Settle [of r t ?s1 stamp ok] assms(2) by simp
  have "status_map (fl_db s) (r, t) = Some ''running''" using assms(1,2) by (simp add: fleet_ok_def)
  then have "status_map (settle_task stamp r t ok db1) (r, t) \<in> {Some ''done'', Some ''failed''}"
    by (simp add: settle_refines(1) status_map_cong [OF assms(3)])
  then have 3: "fleet_step ?s2 ?s3" using Resettle [of r t ?s2 stamp False] by (simp add: status_map_def)
  from 1 2 have steps: "fleet_step\<^sup>*\<^sup>* s ?s2" by (meson rtranclp.rtrancl_refl rtranclp.rtrancl_into_rtrancl)
  then show "\<exists>s'. fleet_step\<^sup>*\<^sup>* s s' \<and> fl_db s' = settle_task stamp r t ok db1 \<and> fl_runs s' = fl_runs s
       \<and> fl_live s' = remove1 (r, t) (fl_live s)" by (intro exI [of _ ?s2]) simp
  from steps 3 have "fleet_step\<^sup>*\<^sup>* s ?s3" by (rule rtranclp.rtrancl_into_rtrancl)
  then show "\<exists>s'. fleet_step\<^sup>*\<^sup>* s s' \<and> fl_db s' = settle_task stamp r t False (settle_task stamp r t ok db1)
       \<and> fl_runs s' = fl_runs s \<and> fl_live s' = remove1 (r, t) (fl_live s)" by (intro exI [of _ ?s3]) simp
qed

lemma won_steps:
  assumes "fleet_ok s" and ids: "sql_text run_id = Inr r" "sql_text task_id = Inr t"
    and c: "claim_task (dp_stamp d) r t (fl_db s) = (db1, True)"
    and x: "bindI (onW (dp_log d (''run-start '' @ task_label run_id task_id))) (\<lambda>_.
         finallyI (bindI (guarded_run d payload run_id task_id r t) (\<lambda>_. retI ()))
           (cleanup d (cloned_workspace d payload run_id task_id))) (w, db1) = (res, (w', db'))"
  shows "\<exists>s'. fleet_step\<^sup>*\<^sup>* s s' \<and> fl_db s' = db' \<and> length (fl_runs s') \<le> length (fl_runs s) + 1
     \<and> (res = Inr () \<longrightarrow> fl_live s' = fl_live s)"
proof -
  let ?s1 = "s\<lparr>fl_db := db1, fl_live := (r, t) # fl_live s, fl_runs := (r, t) # fl_runs s\<rparr>"
  have 1: "fleet_step s ?s1" using Win c by simp
  have ok1: "fleet_ok ?s1" using fleet_step_ok [OF 1 assms(1)] .
  obtain l w1 where log: "dp_log d (''run-start '' @ task_label run_id task_id) w = (l, w1)" by fastforce
  show ?thesis
  proof (cases l)
    case (Inl e)
    with x log have "res = Inl e" "db' = db1" by (auto simp: bindI_app)
    with 1 show ?thesis by (intro exI [of _ ?s1]) auto
  next
    case (Inr u)
    obtain g w2 db2 where g: "guarded_run d payload run_id task_id r t (w1, db1) = (g, (w2, db2))" by (metis prod_cases3)
    obtain ok db0 where db0: "accepted db0 = accepted (fl_db ?s1)"
      "db2 = settle_task (dp_stamp d) r t ok db0 \<or> db2 = settle_task (dp_stamp d) r t False (settle_task (dp_stamp d) r t ok db0)"
      using guarded_run_settles [OF ids g] by auto
    have "(r, t) \<in> set (fl_live ?s1)" by simp
    from settle_steps [OF ok1 this db0(1)] db0(2) obtain s2 where s2: "fleet_step\<^sup>*\<^sup>* ?s1 s2" "fl_db s2 = db2"
      "fl_runs s2 = fl_runs ?s1" "fl_live s2 = remove1 (r, t) (fl_live ?s1)" by metis
    obtain k w3 db3 where k: "cleanup d (cloned_workspace d payload run_id task_id) (w2, db2) = (k, (w3, db3))" by (metis prod_cases3)
    have "db' = db3"
      using x log Inr g k by (auto simp: bindI_app finallyI_def split: sum.splits)
    moreover obtain s3 where s3: "fleet_step\<^sup>*\<^sup>* s2 s3" "fl_db s3 = db3" "fl_runs s3 = fl_runs s2" "fl_live s3 = fl_live s2"
      using cleanup_steps [of d _ w2 s2 k w3 db3] k s2(2) by blast
    moreover have "fleet_step\<^sup>*\<^sup>* s s3" using 1 s2(1) s3(1) by (meson converse_rtranclp_into_rtranclp rtranclp_trans)
    ultimately show ?thesis using s2 by (intro exI [of _ s3]) simp
  qed
qed

text \<open>
  C20. The worker follows the protocol: whatever the workspace, the run, the drain and the log
  do, the tables that \<open>execute_payload\<close> leaves are reached by steps of the protocol with at most
  one run, and unless it ends with an exception no claim of its own is left unsettled.
\<close>

theorem worker_follows_protocol:
  assumes "fleet_ok s" and "execute_payload d payload (w, fl_db s) = (res, (w', db'))"
  shows "\<exists>s'. fleet_step\<^sup>*\<^sup>* s s' \<and> fl_db s' = db' \<and> length (fl_runs s') \<le> length (fl_runs s) + 1
     \<and> (res = Inr () \<longrightarrow> fl_live s' = fl_live s)"
proof (rule execute_payload_ids [OF assms(2)])
  fix e assume "res = Inl e" "db' = fl_db s"
  then show ?thesis by (intro exI [of _ s]) simp
next
  fix run_id task_id r t db1 won
  assume ids: "sql_text run_id = Inr r" "sql_text task_id = Inr t"
    and c: "claim_task (dp_stamp d) r t (fl_db s) = (db1, won)"
    and x: "(if \<not> won then onW (dp_log d (''claim-lost '' @ task_label run_id task_id)) else
         bindI (onW (dp_log d (''run-start '' @ task_label run_id task_id))) (\<lambda>_.
         finallyI (bindI (guarded_run d payload run_id task_id r t) (\<lambda>_. retI ()))
           (cleanup d (cloned_workspace d payload run_id task_id)))) (w, db1) = (res, (w', db'))"
  show ?thesis
  proof (cases won)
    case False
    then have "fleet_step s (s\<lparr>fl_db := db1\<rparr>)" using Lose c by simp
    moreover have "db' = db1" using x False by auto
    ultimately show ?thesis by (intro exI [of _ "s\<lparr>fl_db := db1\<rparr>"]) auto
  next
    case True
    with won_steps [OF assms(1) ids] c x show ?thesis by simp
  qed
qed

text \<open>An accepted task whose payload cannot be adapted: the worker settles it as failed.\<close>

definition test_deps :: "unit deps" where
  "test_deps = \<lparr>dp_crypto = light_crypto, dp_agent = ''claude'', dp_env = (\<lambda>_. ex_env ''running'' (\<lambda>_. ex_good)),
     dp_retries = 0, dp_backoff = 0, dp_workspace = ''w'', dp_rmtree = (\<lambda>_. retI ()), dp_mkdir = (\<lambda>_. retI ()),
     dp_git = (\<lambda>_. raiseI CalledProcessError), dp_save = (\<lambda>_. retI ()),
     dp_transport = \<lparr>tp_open = (\<lambda>_ _ _. retI (202, [])), tp_token = retI None, tp_sleep = (\<lambda>_. retI ()), tp_loads = (\<lambda>_. Inr VNone)\<rparr>,
     dp_client = make_client ''https://h'' 0 0, dp_iso_age = (\<lambda>_. Inr None), dp_iso_before = (\<lambda>_. ''''), dp_stamp = ''t'',
     dp_key = ''k'', dp_key_id = None, dp_environ = [], dp_log = (\<lambda>_. retI ())\<rparr>"

definition accepted_fleet :: fleet where
  "accepted_fleet = fleet_start\<lparr>fl_db := fst (accept_task ''t'' ''R'' ''T'' empty_db)\<rparr>"

definition bare_payload :: "(string \<times> val) list" where
  "bare_payload = [(''run_id'', VStr ''R''), (''task_id'', VStr ''T'')]"

lemma bare_run:
  "(case execute_payload test_deps bare_payload ((), fl_db accepted_fleet) of
      (Inr _, (_, db)) \<Rightarrow> task_status ''R'' ''T'' db = Some ''failed'' | _ \<Rightarrow> False)"
  by code_simp

lemma accepted_fleet_ok: "fleet_ok accepted_fleet"
proof -
  have "fleet_step fleet_start accepted_fleet"
    using Accept [of "''t''" "''R''" "''T''" fleet_start "fl_db accepted_fleet" "''accept''"]
    by (simp add: accepted_fleet_def fleet_start_def accept_task_def empty_db_def)
  then show ?thesis using fleet_start_ok by (rule fleet_step_ok)
qed

theorem worker_follows_protocol_witness:
  "\<exists>s'. fleet_step\<^sup>*\<^sup>* accepted_fleet s' \<and> task_status ''R'' ''T'' (fl_db s') = Some ''failed'' \<and> fl_live s' = []"
proof -
  obtain res w db where x: "execute_payload test_deps bare_payload ((), fl_db accepted_fleet) = (res, (w, db))" by (metis prod_cases3)
  with bare_run have r: "res = Inr ()" "task_status ''R'' ''T'' db = Some ''failed''" by (auto split: sum.splits)
  from worker_follows_protocol [OF accepted_fleet_ok x] r show ?thesis
    by (auto simp: accepted_fleet_def fleet_start_def)
qed

section \<open>The door\<close>

lemma bearer_token:
  assumes "verify_bearer header token = Inr True"
  shows "header = Some (''Bearer '' @ token) \<and> token \<noteq> []"
proof (cases header)
  case None
  with assms show ?thesis by (simp add: verify_bearer_def)
next
  case (Some h)
  with assms have "token \<noteq> []" "startswith h ''Bearer ''" "compare_digest (drop 7 h) token = Inr True"
    by (auto simp: verify_bearer_def split: if_splits)
  moreover from this(3) have "drop 7 h = token" by (auto simp: compare_digest_def split: if_splits)
  moreover from calculation(2) obtain z where "h = ''Bearer '' @ z" by (auto simp: startswith_prefix prefix_def)
  ultimately show ?thesis using Some by simp
qed

lemma admit_payload_Inr:
  assumes "admit_payload environ kvs = Inr (Admitted payload run_id task_id)"
  shows "validate_payload environ payload = Inr [] \<and> payload = kvs
    \<and> run_id = dget payload ''run_id'' \<and> task_id = dget payload ''task_id''"
  using assms by (auto simp: admit_payload_def bindR_Inr_iff item_Inr_iff dget_def split: if_splits option.splits)

lemma admit_payload_status:
  assumes "admit_payload environ kvs = Inr (Refused rep)"
  shows "rp_status rep = 400"
  using assms by (auto simp: admit_payload_def bindR_Inr_iff refuse_detail_def split: if_splits)

lemma admit_cases:
  assumes "admit loads environ token q = Inr a"
  shows "(\<exists>rep. a = Refused rep \<and> rp_status rep \<in> {400, 401, 404, 413})
    \<or> (\<exists>payload run_id task_id. a = Admitted payload run_id task_id \<and> rq_path q = ''/v1/tasks''
        \<and> verify_bearer (rq_auth q) token = Inr True \<and> validate_payload environ payload = Inr []
        \<and> run_id = dget payload ''run_id'' \<and> task_id = dget payload ''task_id'')"
proof -
  consider "rq_path q \<noteq> ''/v1/tasks''" | "rq_path q = ''/v1/tasks''" "verify_bearer (rq_auth q) token = Inr False"
    | "rq_path q = ''/v1/tasks''" "verify_bearer (rq_auth q) token = Inr True"
    using assms by (cases "verify_bearer (rq_auth q) token") (auto simp: admit_def split: if_splits)
  then show ?thesis
  proof cases
    case 1
    with assms show ?thesis by (auto simp: admit_def refuse_def)
  next
    case 2
    with assms show ?thesis by (auto simp: admit_def refuse_def)
  next
    case 3
    show ?thesis
    proof (cases "validate_content_length (rq_length q)")
      case (Inl p)
      then have "fst p \<in> {400, 413}" by (auto simp: validate_content_length_def split: option.splits if_splits)
      with assms 3 Inl show ?thesis by (auto simp: admit_def refuse_detail_def split: prod.splits)
    next
      case n: (Inr n)
      show ?thesis
      proof (cases "parse_request loads q n")
        case (Inr rep)
        then have "rp_status rep = 400" by (auto simp: parse_request_def Let_def refuse_detail_def split: if_splits sum.splits pyerr.splits)
        with assms 3 n Inr show ?thesis by (auto simp: admit_def)
      next
        case (Inl r)
        with assms 3 n obtain v where v: "(case v of VDict kvs \<Rightarrow> admit_payload environ kvs
            | _ \<Rightarrow> Inr (Refused (refuse_detail 400 ''schema_invalid'' (VStr ''body must be a JSON object'')))) = Inr a"
          by (auto simp: admit_def bindR_Inr_iff)
        show ?thesis
        proof (cases "\<exists>kvs. v = VDict kvs")
          case True
          with v obtain kvs where kvs: "admit_payload environ kvs = Inr a" by auto
          show ?thesis
          proof (cases a)
            case (Refused rep)
            with kvs admit_payload_status show ?thesis by auto
          next
            case (Admitted payload run_id task_id)
            with kvs admit_payload_Inr 3 show ?thesis by auto
          qed
        next
          case False
          with v show ?thesis by (auto simp: refuse_detail_def split: val.splits)
        qed
      qed
    qed
  qed
qed

text \<open>
  What an admitted request does to the server: a new acceptance row for a task that has none; a
  worker in a free slot, unless the task was run before.
\<close>

definition accepted_into :: "string \<Rightarrow> string \<Rightarrow> string \<Rightarrow> relay_db \<Rightarrow> relay_db" where
  "accepted_into stamp r t db = (if status_map db (r, t) = None
     then db\<lparr>accepted := accepted db @ [\<lparr>a_run = r, a_task = t, a_status = ''accepted'', a_updated = stamp\<rparr>]\<rparr>
     else db)"

definition post_effect :: "string \<Rightarrow> string \<Rightarrow> string \<Rightarrow> (string \<times> val) list \<Rightarrow> int \<Rightarrow> server \<Rightarrow> server \<Rightarrow> bool" where
  "post_effect stamp r t payload status s s' \<longleftrightarrow>
     (if status_map (sv_db s) (r, t) \<notin> {None, Some ''accepted''} then status = 202 \<and> s' = s
      else if sv_slots s = 0 then status = 503 \<and> s' = s\<lparr>sv_db := accepted_into stamp r t (sv_db s)\<rparr>
      else status = 202 \<and> s' = s\<lparr>sv_slots := sv_slots s - 1, sv_db := accepted_into stamp r t (sv_db s),
             sv_workers := sv_workers s @ [payload]\<rparr>)"

lemma accept_task_into: "fst (accept_task stamp r t db) = accepted_into stamp r t db"
  by (auto simp: accept_task_def accepted_into_def accepted_at_key status_map_find split: option.splits)

lemma accept_outcome:
  assumes "bindR (sql_text run_id) (\<lambda>rid. bindR (sql_text task_id) (\<lambda>tid.
           let (db, decision) = accept_task stamp rid tid (sv_db s); s = s\<lparr>sv_db := db\<rparr> in
           if decision = ''replay'' then Inr (ack run_id task_id ''duplicate'', s)
           else if sv_slots s = 0 then Inr (refuse 503 ''receiver_busy'', s)
           else Inr (ack run_id task_id ''accepted'',
             s\<lparr>sv_slots := sv_slots s - 1, sv_workers := sv_workers s @ [payload]\<rparr>))) = Inr (rep, s')"
  shows "\<exists>r t. sql_text run_id = Inr r \<and> sql_text task_id = Inr t \<and> post_effect stamp r t payload (rp_status rep) s s'"
proof -
  obtain r t where ids: "sql_text run_id = Inr r" "sql_text task_id = Inr t"
    using assms by (auto simp: bindR_Inr_iff)
  obtain db decision where acc: "accept_task stamp r t (sv_db s) = (db, decision)" by fastforce
  have db: "db = accepted_into stamp r t (sv_db s)"
    and d: "decision = (if status_map (sv_db s) (r, t) \<in> {None, Some ''accepted''} then ''accept'' else ''replay'')"
    using accept_task_into [of stamp r t "sv_db s"] accept_refines(2) [of stamp r t "sv_db s"] acc by simp_all
  have r: "(if decision = ''replay'' then Inr (ack run_id task_id ''duplicate'', s\<lparr>sv_db := db\<rparr>)
       else if sv_slots s = 0 then Inr (refuse 503 ''receiver_busy'', s\<lparr>sv_db := db\<rparr>)
       else Inr (ack run_id task_id ''accepted'',
         s\<lparr>sv_db := db, sv_slots := sv_slots s - 1, sv_workers := sv_workers s @ [payload]\<rparr>)) = Inr (rep, s')"
    using assms unfolding ids bindR_simps acc prod.case Let_def server.simps server.update_convs
    by (cases "decision = ''replay''"; cases "sv_slots s = 0") simp_all
  have "post_effect stamp r t payload (rp_status rep) s s'"
  proof (cases "status_map (sv_db s) (r, t) \<in> {None, Some ''accepted''}")
    case True
    with r db d show ?thesis
      by (cases "sv_slots s = 0") (auto simp: post_effect_def ack_def refuse_def)
  next
    case False
    then have "db = sv_db s" by (auto simp: db accepted_into_def)
    with False r d show ?thesis by (auto simp: post_effect_def ack_def)
  qed
  with ids show ?thesis by blast
qed

lemma post_outcome:
  assumes "do_post loads environ token stamp q s = Inr (rep, s')"
  shows "rp_status rep \<in> {400, 401, 404, 413} \<and> s' = s
     \<or> rq_path q = ''/v1/tasks'' \<and> rq_auth q = Some (''Bearer '' @ token) \<and> token \<noteq> []
       \<and> (\<exists>payload r t. validate_payload environ payload = Inr [] \<and> sql_text (dget payload ''run_id'') = Inr r
            \<and> sql_text (dget payload ''task_id'') = Inr t \<and> post_effect stamp r t payload (rp_status rep) s s')"
proof -
  obtain a where a: "admit loads environ token q = Inr a"
    "(case a of Refused r \<Rightarrow> Inr (r, s)
       | Admitted payload run_id task_id \<Rightarrow>
           bindR (sql_text run_id) (\<lambda>rid. bindR (sql_text task_id) (\<lambda>tid.
           let (db, decision) = accept_task stamp rid tid (sv_db s); s = s\<lparr>sv_db := db\<rparr> in
           if decision = ''replay'' then Inr (ack run_id task_id ''duplicate'', s)
           else if sv_slots s = 0 then Inr (refuse 503 ''receiver_busy'', s)
           else Inr (ack run_id task_id ''accepted'',
             s\<lparr>sv_slots := sv_slots s - 1, sv_workers := sv_workers s @ [payload]\<rparr>)))) = Inr (rep, s')"
    using assms by (auto simp: do_post_def bindR_Inr_iff)
  consider (refused) r where "a = Refused r" "rp_status r \<in> {400, 401, 404, 413}"
    | (admitted) payload where "a = Admitted payload (dget payload ''run_id'') (dget payload ''task_id'')"
      "rq_path q = ''/v1/tasks''" "verify_bearer (rq_auth q) token = Inr True" "validate_payload environ payload = Inr []"
    using admit_cases [OF a(1)] by blast
  then show ?thesis
  proof cases
    case (refused r)
    with a(2) show ?thesis by auto
  next
    case (admitted payload)
    from accept_outcome [OF a(2) [unfolded admitted(1) admission.case]] bearer_token [OF admitted(3)] admitted(2,4)
    show ?thesis by blast
  qed
qed

text \<open>
  C29. The door. A request that gets a reply is either refused with 400, 401, 404 or 413 and leaves
  the server as it was, or it came over the right path with the server's token as bearer and carries a payload
  without findings. Then, for a task that has run or is running, nothing changes and 202 is
  answered; else an acceptance row is added if the task has none, and the answer is 202 with a
  worker for the payload in a free slot, or 503 with no worker when there is no free slot.
\<close>

theorem door_guard:
  assumes "do_post loads environ token stamp q s = Inr (rep, s')"
  shows "rp_status rep \<in> {400, 401, 404, 413} \<and> s' = s
     \<or> rq_path q = ''/v1/tasks'' \<and> rq_auth q = Some (''Bearer '' @ token) \<and> token \<noteq> []
       \<and> (\<exists>payload r t. validate_payload environ payload = Inr [] \<and> sql_text (dget payload ''run_id'') = Inr r
            \<and> sql_text (dget payload ''task_id'') = Inr t
            \<and> (if status_map (sv_db s) (r, t) \<notin> {None, Some ''accepted''} then rp_status rep = 202 \<and> s' = s
               else if sv_slots s = 0 then rp_status rep = 503 \<and> s' = s\<lparr>sv_db := accepted_into stamp r t (sv_db s)\<rparr>
               else rp_status rep = 202 \<and> s' = s\<lparr>sv_slots := sv_slots s - 1,
                      sv_db := accepted_into stamp r t (sv_db s), sv_workers := sv_workers s @ [payload]\<rparr>))"
  using post_outcome [OF assms] unfolding post_effect_def .

definition json_payload :: "string \<Rightarrow> val res" where
  "json_payload s = (if s = ''ok'' then Inr (VDict good_payload) else Inl (ValueError ''Expecting value''))"

definition test_request :: request where
  "test_request = \<lparr>rq_path = ''/v1/tasks'', rq_auth = Some ''Bearer s3'', rq_length = Some ''2'', rq_body = ''ok''\<rparr>"

definition test_server :: "nat \<Rightarrow> server" where
  "test_server n = \<lparr>sv_slots = n, sv_db = empty_db, sv_workers = []\<rparr>"

lemma test_post:
  "(case do_post json_payload [] ''s3'' ''t'' test_request (test_server 1) of
      Inr (rep, s) \<Rightarrow> rp_status rep = 202 \<and> length (sv_workers s) = 1 | _ \<Rightarrow> False)"
  "(case do_post json_payload [] ''s3'' ''t'' test_request (test_server 0) of
      Inr (rep, s) \<Rightarrow> rp_status rep = 503 | _ \<Rightarrow> False)"
  by code_simp+

theorem door_guard_witness:
  "\<exists>rep s r t. do_post json_payload [] ''s3'' ''t'' test_request (test_server 0) = Inr (rep, s)
     \<and> rp_status rep = 503 \<and> s = (test_server 0)\<lparr>sv_db := accepted_into ''t'' r t empty_db\<rparr>"
proof -
  obtain rep s where p: "do_post json_payload [] ''s3'' ''t'' test_request (test_server 0) = Inr (rep, s)"
    "rp_status rep = 503"
    using test_post(2) by (auto split: sum.splits)
  from door_guard [OF p(1)] p(2) obtain r t where "s = (test_server 0)\<lparr>sv_db := accepted_into ''t'' r t empty_db\<rparr>"
    by (auto simp: test_server_def split: if_splits)
  with p show ?thesis by blast
qed

section \<open>Slots\<close>

text \<open>
  What a started server does: it answers requests, its workers change the tables, and a worker
  that ends releases its slot.
\<close>

inductive served :: "(string \<Rightarrow> val res) \<Rightarrow> environ \<Rightarrow> string \<Rightarrow> nat \<Rightarrow> 'w deps \<Rightarrow> server \<Rightarrow> bool"
  for loads :: "string \<Rightarrow> val res" and environ :: environ and token :: string and n :: nat and d :: "'w deps" where
  Start: "build_receiver bound token (int n) db = Inr s \<Longrightarrow> served loads environ token n d s"
| Post: "served loads environ token n d s \<Longrightarrow> do_post loads environ token stamp q s = Inr (rep, s') \<Longrightarrow>
    served loads environ token n d s'"
| Work: "served loads environ token n d s \<Longrightarrow> i < length (sv_workers s) \<Longrightarrow>
    execute_payload d (sv_workers s ! i) (w, sv_db s) = (res, (w', db')) \<Longrightarrow>
    served loads environ token n d (end_worker i (s\<lparr>sv_db := db'\<rparr>))"

inductive_cases servedE: "served loads environ token n d s"

text \<open>
  C30. Bounded concurrency: in every state a started receiver reaches, its free slots and its
  running workers add up to the configured number, every worker runs a payload the door found
  no fault with, and the token is not empty.
\<close>

theorem workers_bounded:
  assumes "served loads environ token n d s"
  shows "sv_slots s + length (sv_workers s) = n \<and> token \<noteq> []
     \<and> list_all (\<lambda>payload. validate_payload environ payload = Inr []) (sv_workers s)"
  using assms
proof (induction rule: served.induct)
  case (Start db s)
  then show ?case by (auto simp: build_receiver_def receiver_server_def bindR_Inr_iff split: if_splits)
next
  case (Post s stamp q rep s')
  from post_outcome [OF Post(2)] Post(3) show ?case by (auto simp: post_effect_def split: if_splits)
next
  case (Work s i w res w' db')
  from Work(2) have "length (take i (sv_workers s) @ drop (Suc i) (sv_workers s)) = length (sv_workers s) - 1" by simp
  with Work(2,4) show ?case
    by (auto simp: end_worker_def list_all_iff dest: in_set_takeD in_set_dropD)
qed

lemma test_served: "served json_payload [] ''s3'' 1 test_deps (test_server 1)"
  by (rule Start [where db = empty_db and bound = "Inr ()"]) (simp add: build_receiver_def receiver_server_def test_server_def)

theorem workers_bounded_witness:
  "\<exists>s. served json_payload [] ''s3'' 1 test_deps s \<and> sv_workers s \<noteq> [] \<and> sv_slots s = 0"
proof -
  obtain rep s where p: "do_post json_payload [] ''s3'' ''t'' test_request (test_server 1) = Inr (rep, s)"
    "length (sv_workers s) = 1"
    using test_post(1) by (auto split: sum.splits)
  have s: "served json_payload [] ''s3'' 1 test_deps s" using Post [OF test_served p(1)] .
  from workers_bounded [OF s] p(2) have "sv_slots s = 0" by simp
  with s p(2) show ?thesis by (intro exI [of _ s]) auto
qed

end
