(* ===== verification/IntakeClaims.thy ===== *)
theory IntakeClaims
  imports Intake IntakeFacts SecurityClaims
begin

text \<open>
  Properties of the two front doors: what a manifest is that passes validation, that nothing
  else is ever run, and that a dispatched payload becomes such a manifest.
\<close>

section \<open>What validation accepts\<close>

lemma emit_if_False [simp]: "emit_if False r m fs = Inr fs"
  by (simp add: emit_if_def)

lemma dep_fold_known:
  "\<forall>d \<in> set ds. in_set d known = Inr True \<Longrightarrow>
     foldR (\<lambda>bad dep. bindR (in_set dep known) (\<lambda>k. Inr (bad \<or> \<not> k))) False ds = Inr False"
  by (induction ds) auto

lemma scan_complete_tasks:
  "\<forall>t \<in> set ts. task_complete t \<and> deps_known known t \<Longrightarrow> foldR (scan_task known) (False, False) ts = Inr (False, False)"
proof (induction ts)
  case (Cons t ts)
  then obtain ds dl where "all_truthy t [''task_id'', ''title'', ''acceptance''] = Inr True"
    "get_or t ''depends_on'' (VList []) = Inr ds" "iter ds = Inr dl" "\<forall>d \<in> set dl. in_set d known = Inr True"
    by (auto simp: task_complete_def deps_known_def)
  then have "scan_task known (False, False) t = Inr (False, False)"
    by (simp add: scan_task_def dep_fold_known)
  with Cons show ?case by simp
qed simp

lemma passed_validates:
  assumes "intake_passed doc p"
  shows "validate_intake doc = Inr []"
proof -
  from assms obtain md schema a s n g known where
    1: "get_or doc ''metadata'' (VDict []) = Inr md" "get md ''schema_version'' = Inr schema" "in_set schema SUPPORTED_SCHEMAS = Inr True"
    and 2: "get_or doc ''intake_control'' (VDict []) = Inr (ip_control p)"
      "all_truthy (ip_control p) [''source_iplan'', ''source_iplan_version'', ''source_iplan_checksum''] = Inr True"
    and 3: "get (ip_control p) ''approved'' = Inr a" "truthy a" "get (ip_control p) ''exec_ready_score'' = Inr s"
      "py_int (or_else s (VInt 0)) = Inr n" "EXEC_READY_MIN \<le> n"
    and 4: "get_or doc ''isolation_scope'' (VDict []) = Inr (ip_scope p)"
      "all_truthy (ip_scope p) [''client_id'', ''project_id'', ''allowed_roots''] = Inr True"
    and 5: "get_or doc ''task_graph'' (VList []) = Inr g" "truthy g" "iter g = Inr (ip_tasks p)"
    and 6: "set_of_field ''task_id'' (ip_tasks p) = Inr known" "\<forall>t \<in> set (ip_tasks p). task_complete t \<and> deps_known known t"
    unfolding intake_passed_def by blast
  have low: "\<not> n < EXEC_READY_MIN" using 3(5) by simp
  show ?thesis
    unfolding validate_intake_def 1 2 3(1,3,4) 4 5(1,3) 6(1) bindR_simps scan_complete_tasks [OF 6(2)]
    by (simp add: 3(2) 5(2) low del: get_Inr_iff)
qed

lemma accepts_iff: "(\<exists>fs. validate_intake doc = Inr fs \<and> status_of fs \<noteq> ''fail'') \<longleftrightarrow> (\<exists>p. intake_passed doc p)"
proof
  assume "\<exists>fs. validate_intake doc = Inr fs \<and> status_of fs \<noteq> ''fail''"
  then show "\<exists>p. intake_passed doc p" by (metis validate_intake_passes)
next
  assume "\<exists>p. intake_passed doc p"
  then have "validate_intake doc = Inr []" using passed_validates by blast
  then show "\<exists>fs. validate_intake doc = Inr fs \<and> status_of fs \<noteq> ''fail''" by (simp add: status_of_def)
qed

text \<open>
  C33. Nothing else runs: on a manifest that is not so, whatever it is, \<open>run\<close> raises and the
  world is as it was: no clock, executor, control flag or id source was called.
\<close>

theorem unfit_manifest_never_runs:
  assumes "\<nexists>p. intake_passed manifest p"
  shows "\<exists>e. run H agent env mr bb gate manifest w = (Inl e, w)"
proof (cases "validate_intake manifest")
  case (Inl e)
  then show ?thesis by (simp add: run_def bindI_app)
next
  case (Inr fs)
  with assms have "status_of fs = ''fail''" using accepts_iff by blast
  with Inr show ?thesis by (simp add: run_def bindI_app)
qed

definition unapproved_manifest :: val where
  "unapproved_manifest = VDict [(''metadata'', VDict [(''schema_version'', VStr ''1.0'')]),
     (''intake_control'', VDict [(''source_iplan'', VStr ''I1''), (''source_iplan_version'', VStr ''1''),
        (''source_iplan_checksum'', VStr ''c''), (''exec_ready_score'', VInt 89), (''approved'', VBool True)]),
     (''isolation_scope'', VDict ex_scope), (''task_graph'', VList [ex_task ''T1'' []])]"

lemma unapproved_fails: "map_sum id status_of (validate_intake unapproved_manifest) = Inr ''fail''"
  by code_simp

theorem unfit_manifest_never_runs_witness:
  "\<exists>e. run ex_digest ''claude'' (ex_env ''running'' (\<lambda>_. ex_good)) 1 0 VNone unapproved_manifest () = (Inl e, ())"
proof (rule unfit_manifest_never_runs)
  show "\<nexists>p. intake_passed unapproved_manifest p"
  proof
    assume "\<exists>p. intake_passed unapproved_manifest p"
    then have "validate_intake unapproved_manifest = Inr []" using passed_validates by blast
    with unapproved_fails show False by (simp add: status_of_def)
  qed
qed

section \<open>Dispatched payloads\<close>

text \<open>A todo that names itself, by a value that can be an element of a set, and its task.\<close>

definition good_todo :: "val \<Rightarrow> bool" where
  "good_todo t = (\<exists>kvs. t = VDict kvs \<and> truthy (dget kvs ''todo_id'') \<and> hashable (dget kvs ''todo_id'')
     \<and> truthy (dget kvs ''description''))"

definition named_task :: "val \<Rightarrow> bool" where
  "named_task n = (\<exists>i. get n ''task_id'' = Inr i \<and> hashable i)"

lemma payload_task_dict: "payload_task t = Inr n \<Longrightarrow> \<exists>kvs. t = VDict kvs"
  by (auto simp: payload_task_def bindR_Inr_iff get_Inr_iff)

lemma payload_task_good:
  assumes "payload_task t = Inr n"
  shows "deps_known known n" and "good_todo t \<longleftrightarrow> task_complete n \<and> named_task n"
proof -
  obtain kvs where t: "t = VDict kvs" using payload_task_dict [OF assms] by blast
  with assms obtain criteria where n: "n = VDict [(''task_id'', dget kvs ''todo_id''), (''title'', dget kvs ''description''),
       (''depends_on'', VList []), (''acceptance'', VDict [(''criteria'', criteria)])]"
    by (auto simp: payload_task_def bindR_Inr_iff)
  show "deps_known known n" by (simp add: n deps_known_def dget_or_def)
  show "good_todo t \<longleftrightarrow> task_complete n \<and> named_task n"
    by (auto simp: n t good_todo_def task_complete_def named_task_def dget_def [of "_ # _"])
qed

lemma payload_graph_good:
  "mapR payload_task todos = Inr graph \<Longrightarrow>
     list_all good_todo todos \<longleftrightarrow> list_all (\<lambda>n. task_complete n \<and> named_task n) graph"
  by (induction todos arbitrary: graph) (auto simp: bindR_Inr_iff payload_task_good(2))

lemma named_ids: "(\<exists>known. set_of_field ''task_id'' graph = Inr known) \<longleftrightarrow> list_all named_task graph"
  by (induction graph) (auto simp: set_of_field_def named_task_def bindR_Inr_iff split: if_splits)

lemma payload_graph_accepted:
  assumes graph: "mapR payload_task todos = Inr graph"
  shows "list_all good_todo todos \<longleftrightarrow>
    (\<exists>known. set_of_field ''task_id'' graph = Inr known \<and> (\<forall>t \<in> set graph. task_complete t \<and> deps_known known t))"
proof -
  have "\<forall>n \<in> set graph. deps_known known n" for known
    using mapR_mem [OF graph] payload_task_good(1) by blast
  then have "(\<exists>known. set_of_field ''task_id'' graph = Inr known \<and> (\<forall>t \<in> set graph. task_complete t \<and> deps_known known t))
      \<longleftrightarrow> list_all named_task graph \<and> (\<forall>t \<in> set graph. task_complete t)"
    using named_ids [of graph] by blast
  also have "\<dots> \<longleftrightarrow> list_all (\<lambda>n. task_complete n \<and> named_task n) graph" by (auto simp: list_all_iff)
  also have "\<dots> \<longleftrightarrow> list_all good_todo todos" using payload_graph_good [OF graph] by simp
  finally show ?thesis by simp
qed

lemma validate_payload_ids:
  assumes "validate_payload environ payload = Inr []"
  shows "\<forall>k \<in> set REQUIRED_IDS. truthy (dget payload k)"
    and "\<exists>todos. get_else (or_else (dget payload ''work_order'') (VDict [])) ''todos'' (VList []) = Inr todos \<and> truthy todos"
  using assms by (auto simp: validate_payload_def bindR_Inr_iff emit_if_Nil check_repository_def Let_def split: if_splits val.splits)

text \<open>The todos of a payload without findings that can be mapped to tasks.\<close>

lemma payload_todos:
  assumes "validate_payload environ payload = Inr []"
    and "get_else (or_else (dget payload ''work_order'') (VDict [])) ''todos'' (VList []) = Inr v"
    and "iter v = Inr todos" "mapR payload_task todos = Inr graph"
  shows "\<exists>wo. dget payload ''work_order'' = VDict wo \<and> dget wo ''todos'' = VList todos \<and> todos \<noteq> []"
proof -
  have v: "truthy v" using validate_payload_ids(2) [OF assms(1)] assms(2) by auto
  from assms(2) obtain wo where k: "or_else (dget payload ''work_order'') (VDict []) = VDict wo"
    "v = or_else (dget wo ''todos'') (VList [])" by (auto simp: get_else_def bindR_Inr_iff get_Inr_iff)
  have wo: "v = dget wo ''todos''" using v k(2) by (auto simp: or_else_def split: if_splits)
  then have "wo \<noteq> []" using v by (auto simp: dget_def)
  with k(1) have d: "dget payload ''work_order'' = VDict wo" by (auto simp: or_else_def split: if_splits)
  have "\<exists>xs. v = VList xs"
  proof (cases "todos")
    case Nil
    with v assms(3) show ?thesis by (auto simp: iter_def split: val.splits)
  next
    case (Cons t ts)
    with assms(4) obtain n where "payload_task t = Inr n" by (auto simp: bindR_Inr_iff)
    with payload_task_dict obtain kvs where "t = VDict kvs" by blast
    with Cons assms(3) show ?thesis by (auto simp: iter_def split: val.splits)
  qed
  with v assms(3) wo d show ?thesis by auto
qed

text \<open>
  C31. When a dispatched payload becomes an accepted manifest. The door does not look at the plan,
  its version and the fields of the todos: of a payload without findings whose manifest can be
  built, the manifest passes validation exactly when plan and version are named and every
  todo has an id, one that can be an element of a set, and a description. The checksum is
  not empty, as at either front door.
\<close>

theorem payload_accepted_iff:
  assumes "validate_payload environ payload = Inr []" and "build_manifest payload checksum = Inr m" "checksum \<noteq> []"
  shows "\<exists>wo todos. dget payload ''work_order'' = VDict wo \<and> dget wo ''todos'' = VList todos
     \<and> (validate_intake m = Inr [] \<longleftrightarrow> truthy (dget payload ''iplan_id'') \<and> truthy (dget payload ''plan_version_id'')
          \<and> list_all good_todo todos)"
proof -
  have ids: "truthy (dget payload ''org_id'')" "truthy (dget payload ''project_id'')"
    using validate_payload_ids(1) [OF assms(1)] by (simp_all add: REQUIRED_IDS_def)
  from assms(2) obtain v todos repository forbidden graph woid where
    td: "get_else (or_else (dget payload ''work_order'') (VDict [])) ''todos'' (VList []) = Inr v" "iter v = Inr todos"
    and graph: "mapR payload_task todos = Inr graph"
    and m: "m = VDict [
        (''metadata'', intake_metadata),
        (''intake_control'', VDict [
           (''source_iplan'', dget payload ''iplan_id''),
           (''source_iplan_version'', dget payload ''plan_version_id''),
           (''source_iplan_checksum'', VStr checksum),
           (''approved'', VBool True),
           (''exec_ready_score'', VInt 90)]),
        (''isolation_scope'', VDict [
           (''client_id'', dget payload ''org_id''),
           (''project_id'', dget payload ''project_id''),
           (''allowed_roots'', VList [repository]),
           (''forbidden_paths'', forbidden)]),
        (''task_graph'', VList graph),
        (''remote_execution'', VDict (map (\<lambda>k. (k, dget payload k)) REMOTE_IDS
           @ [(''work_order_id'', woid)]))]"
    unfolding build_manifest_def Let_def bindR_Inr_iff by auto
  obtain wo where wo: "dget payload ''work_order'' = VDict wo" "dget wo ''todos'' = VList todos" "todos \<noteq> []"
    using payload_todos [OF assms(1) td graph] by blast
  have gne: "graph \<noteq> []" using wo(3) mapR_length [OF graph] by auto
  let ?c = "[(''source_iplan'', dget payload ''iplan_id''), (''source_iplan_version'', dget payload ''plan_version_id''),
           (''source_iplan_checksum'', VStr checksum), (''approved'', VBool True), (''exec_ready_score'', VInt 90)]"
  let ?s = "[(''client_id'', dget payload ''org_id''), (''project_id'', dget payload ''project_id''),
           (''allowed_roots'', VList [repository]), (''forbidden_paths'', forbidden)]"
  have passed: "(\<exists>p. intake_passed m p) \<longleftrightarrow> truthy (dget payload ''iplan_id'') \<and> truthy (dget payload ''plan_version_id'')
      \<and> (\<exists>known. set_of_field ''task_id'' graph = Inr known \<and> (\<forall>t \<in> set graph. task_complete t \<and> deps_known known t))"
    (is "?L = ?R")
  proof
    assume ?R
    have "intake_passed m \<lparr>ip_control = VDict ?c, ip_scope = VDict ?s, ip_tasks = graph\<rparr>"
      unfolding intake_passed_def m all_truthy_VDict intake_parts.simps
    proof (intro conjI)
      show "\<exists>ids. set_of_field ''task_id'' graph = Inr ids \<and> (\<forall>t\<in>set graph. task_complete t \<and> deps_known ids t)"
        using \<open>?R\<close> by blast
    qed (use \<open>?R\<close> ids gne assms(3) in \<open>simp_all add: dget_or_def dget_def [of "_ # _"] intake_metadata_def in_set_def
        SUPPORTED_SCHEMAS_def EXEC_READY_MIN_def or_else_def\<close>)
    then show ?L by blast
  next
    assume ?L
    then obtain p where p: "intake_passed m p" by blast
    then have parts: "ip_control p = VDict ?c" "ip_tasks p = graph"
      unfolding intake_passed_def m by (auto simp: dget_or_def)
    have "all_truthy (VDict ?c) [''source_iplan'', ''source_iplan_version'', ''source_iplan_checksum''] = Inr True"
      and "\<exists>known. set_of_field ''task_id'' graph = Inr known \<and> (\<forall>t \<in> set graph. task_complete t \<and> deps_known known t)"
      using p unfolding intake_passed_def parts by blast+
    then show ?R unfolding all_truthy_VDict by (simp add: dget_def [of "_ # _"])
  qed
  have "validate_intake m = Inr [] \<longleftrightarrow> (\<exists>p. intake_passed m p)"
    using validate_intake_passes [of m "[]"] passed_validates [of m] by (auto simp: status_of_def)
  with passed payload_graph_accepted [OF graph] wo(1,2) show ?thesis by auto
qed

text \<open>The example: a payload that is accepted, and the same one without its plan.\<close>

definition planless_payload :: "(string \<times> val) list" where
  "planless_payload = AList.delete ''iplan_id'' good_payload"

lemma payload_manifests:
  "map_sum id (\<lambda>_. ()) (build_manifest good_payload ''sha256:0'') = Inr ()"
  "map_sum id (\<lambda>_. ()) (build_manifest planless_payload ''sha256:0'') = Inr ()"
  "map_sum id length (validate_payload [] planless_payload) = Inr 0"
  by code_simp+

theorem payload_accepted_iff_witness:
  "\<exists>m m'. build_manifest good_payload ''sha256:0'' = Inr m \<and> validate_intake m = Inr []
     \<and> build_manifest planless_payload ''sha256:0'' = Inr m' \<and> validate_intake m' \<noteq> Inr []"
proof -
  obtain m where m: "build_manifest good_payload ''sha256:0'' = Inr m"
    using payload_manifests(1) by (cases "build_manifest good_payload ''sha256:0''") auto
  obtain m' where m': "build_manifest planless_payload ''sha256:0'' = Inr m'"
    using payload_manifests(2) by (cases "build_manifest planless_payload ''sha256:0''") auto
  have v: "validate_payload [] planless_payload = Inr []"
    using payload_manifests(3) by (cases "validate_payload [] planless_payload") auto
  have "validate_intake m = Inr []"
    using payload_accepted_iff [OF good_payload_valid m]
    by (auto simp: good_payload_def dget_def [of "_ # _"] good_todo_def)
  moreover have "\<not> truthy (dget planless_payload ''iplan_id'')"
    by (simp add: planless_payload_def dget_def AList.delete_conv')
  then have "validate_intake m' \<noteq> Inr []" using payload_accepted_iff [OF v m'] by auto
  ultimately show ?thesis using m m' by blast
qed

end
