(* ===== verification/OutcomeClaims.thy ===== *)
theory OutcomeClaims
  imports RunClaims Chain Handover IntakeClaims
begin

text \<open>
  Properties that span components: the receipt of a run against the run, and a chain of
  IPLANs against the runs of its members.
\<close>

section \<open>The receipt of a run\<close>

definition receipt_field :: "val \<Rightarrow> string \<Rightarrow> string \<Rightarrow> val" where
  "receipt_field receipt part k = (case receipt of VDict kvs \<Rightarrow>
     (case dget kvs part of VDict p \<Rightarrow> dget p k | _ \<Rightarrow> VNone) | _ \<Rightarrow> VNone)"

lemma run_receipt_status:
  "receipt_field (run_receipt l g created) ''result'' ''status'' =
     VStr (receipt_status (g_status g = ''passed'') (r_allowed (reconciled l)) (\<exists>e \<in> set (task_ledger l). is_open e))"
  by (simp add: receipt_field_def run_receipt_def dget_def)

lemma run_source:
  assumes "run H agent env mr bb gate manifest w = (Inr r, w')"
  shows "truthy (source_iplan (ledger_control (rr_ledger r))) \<and> ledger_id (ledger_control (rr_ledger r)) \<noteq> []"
proof -
  obtain fs where v: "validate_intake manifest = Inr fs" "status_of fs \<noteq> ''fail''"
    by (rule run_Inr [OF assms])
  then obtain p where p: "intake_passed manifest p" by (metis validate_intake_passes)
  obtain l0 where l0: "init_ledger manifest = Inr l0" by (rule run_Inr [OF assms])
  then obtain control where c: "item manifest ''intake_control'' = Inr control"
    "item control ''source_iplan'' = Inr (source_iplan (ledger_control l0))"
    "ledger_id (ledger_control l0) = ''LEDGER-'' @ py_str (source_iplan (ledger_control l0))"
    by (auto simp: init_ledger_def bindR_Inr_iff simp del: item_Inr_iff)
  then have "get_or manifest ''intake_control'' (VDict []) = Inr control" by (auto simp: item_Inr_iff dget_or_def)
  with p have "all_truthy control [''source_iplan'', ''source_iplan_version'', ''source_iplan_checksum''] = Inr True"
    by (simp add: intake_passed_def)
  with c(2) have t: "truthy (source_iplan (ledger_control l0))"
    by (auto simp: item_Inr_iff dget_def split: if_splits)
  let ?J = "\<lambda>l. ledger_control l = ledger_control l0"
  have touch: "touches H t l l' \<Longrightarrow> ?J l \<Longrightarrow> ?J l'" for t l l' by (simp add: touches_def same_control_def)
  obtain l st where r: "rr_ledger r = reconcile (set_run_state st l)" and l: "?J l"
  proof (rule run_rule [where J = "\<lambda>_. ?J", OF assms])
    show "?J l" if "init_ledger manifest = Inr l" for l using that l0 by simp
    show "?J l'" if "?J l" "task_ran H agent t result n l l'" for t l l' result n
      by (rule touch [OF task_ran_touches [OF that(2)] that(1)])
    show "?J l'" if "?J l" "block_tail H t ''dependency not satisfied'' ''pending'' stamp
             (add_blocker bid t ''dependency not satisfied'' l) = Inr l'" for t l l' stamp bid
      by (rule touch [OF block_touches [OF that(2)] that(1)])
  qed blast
  have "ledger_id (ledger_control (reconcile (set_run_state st l))) = ledger_id (ledger_control l)"
    "source_iplan (ledger_control (reconcile (set_run_state st l))) = source_iplan (ledger_control l)"
    by (simp_all add: reconcile_def set_run_state_def Let_def)
  with t c(3) r l show ?thesis by simp
qed

lemma completed_not_open: "all_completed l \<Longrightarrow> \<not> (\<exists>e \<in> set (task_ledger l). is_open e)"
  by (auto simp: all_completed_def is_open_def)

text \<open>
  From a run to its receipt: for every finished run the receipt is built, passes the
  handover validator, and says \<open>completed\<close> exactly when the gate passed and every task of the
  graph completed; otherwise it says \<open>aborted\<close>.
\<close>

theorem run_handover:
  assumes "run H agent env mr bb gate manifest w = (Inr r, w')"
  shows "\<exists>receipt. receipt_at (ledger_val (rr_ledger r)) (rr_gate r) VNone = Inr receipt
     \<and> validate_handover (receipt created) = Inr []
     \<and> receipt_field (receipt created) ''result'' ''status'' =
         VStr (if g_status (rr_gate r) = ''passed'' \<and> all_completed (rr_ledger r) then ''completed'' else ''aborted'')"
proof -
  obtain l st where s: "rr_ledger r = reconcile (set_run_state st l)" "entries_inv l"
    by (rule run_reconcile_shape [OF assms])
  have "r_allowed (reconciled (rr_ledger r)) \<longleftrightarrow> all_completed (rr_ledger r)"
    using s entries_allowed [of "set_run_state st l"] by (simp add: reconcile_allowed all_completed_def entries_inv_def)
  then have "receipt_status (g_status (rr_gate r) = ''passed'') (r_allowed (reconciled (rr_ledger r)))
      (\<exists>e \<in> set (task_ledger (rr_ledger r)). is_open e)
    = (if g_status (rr_gate r) = ''passed'' \<and> all_completed (rr_ledger r) then ''completed'' else ''aborted'')"
    using completed_not_open [of "rr_ledger r"] by (auto simp: receipt_status_def)
  moreover have "validate_handover (run_receipt (rr_ledger r) (rr_gate r) created) = Inr []"
    by (rule run_receipt_validates) (use run_source [OF assms] in blast)+
  ultimately show ?thesis by (simp add: receipt_at_val run_receipt_status)
qed

theorem run_handover_witness:
  "\<exists>receipt. receipt_at (ledger_val (rr_ledger ex_result)) (rr_gate ex_result) VNone = Inr receipt
     \<and> receipt_field (receipt ''t'') ''result'' ''status'' = VStr ''completed''"
proof -
  have "g_status (rr_gate ex_result) = ''passed'' \<and> all_completed (rr_ledger ex_result)"
    by (simp add: ex_result_def ex_final_def ex_done_entry_def ex_entry_def all_completed_def)
  with run_handover [OF ex_run, of "''t''"] show ?thesis by auto
qed

section \<open>Chains\<close>

lemma run_chain_Inr:
  assumes "run_chain H agent env executor_for gate chain iplans w = (Inr c, w')"
  obtains ns nodes order s w1 where "chain_nodes chain = Inr ns" "chain_by_id ns = Inr nodes" "chain_order ns = Inr order"
    "chain_loop H agent env executor_for gate nodes iplans order \<lparr>cs_reconciled = [], cs_ledgers = []\<rparr> w = (Inr s, w1)"
    "build_chain_ledger chain (cs_reconciled s) = Inr (cr_ledger c)" "cr_sub_ledgers c = cs_ledgers s"
  using assms by (auto simp: run_chain_def bindI_Inr_iff bindR_Inr_iff)

text \<open>What every sub-ledger of a chain is: the ledger of a finished run of its IPLAN.\<close>

definition ran_ledger :: "digest \<Rightarrow> string \<Rightarrow> 'w env \<Rightarrow> (string \<Rightarrow> 'w executor) \<Rightarrow> val \<Rightarrow> (string \<times> val) list \<Rightarrow> string \<Rightarrow> ledger \<Rightarrow> bool" where
  "ran_ledger H agent env executor_for gate iplans i l =
     (\<exists>manifest r u u'. map_of iplans i = Some manifest
        \<and> run H agent (sub_env env (executor_for i)) 0 0 gate manifest u = (Inr r, u') \<and> l = rr_ledger r)"

lemma chain_loop_ran:
  assumes "chain_loop H agent env executor_for gate nodes iplans order s w = (Inr s', w')"
    and "\<And>i l. map_of (cs_ledgers s) i = Some l \<Longrightarrow> ran_ledger H agent env executor_for gate iplans i l"
  shows "map_of (cs_ledgers s') i = Some l \<Longrightarrow> ran_ledger H agent env executor_for gate iplans i l"
  using assms
proof (induction order arbitrary: s w)
  case Nil
  then show ?case by (simp add: chain_loop.simps)
next
  case (Cons j rest)
  from Cons.prems(2) show ?case
  proof (cases rule: chain_loop_cases)
    case (stopped flag)
    with Cons.prems(1,3) show ?thesis by simp
  next
    case (held node w1)
    from Cons.IH [OF Cons.prems(1) held(3)] Cons.prems(3) show ?thesis by simp
  next
    case (ran node manifest result w1 w2)
    have "map_of iplans j = Some manifest" using ran(3) by (simp add: lookup_node_def split: option.splits)
    with ran(4) have "ran_ledger H agent env executor_for gate iplans j (rr_ledger result)"
      unfolding ran_ledger_def by blast
    then show ?thesis
      by (intro Cons.IH [OF Cons.prems(1) ran(5)]) (use Cons.prems(3) in \<open>auto split: if_splits\<close>)
  qed
qed

lemma chain_start: "chain_inv nodes \<lparr>cs_reconciled = [], cs_ledgers = []\<rparr>"
  by (simp add: chain_inv_def is_reconciled_def)

text \<open>
  C21. Upstream first: in a finished chain every IPLAN that was run has, for each of its
  dependencies, a run whose tasks all completed; so after an IPLAN that is not reconciled, no
  IPLAN that depends on it is run.
\<close>

theorem chain_upstream_completed:
  assumes "run_chain H agent env executor_for gate chain iplans w = (Inr c, w')"
    and "chain_nodes chain = Inr ns" "chain_by_id ns = Inr nodes"
    and "map_of (cr_sub_ledgers c) i = Some l" "d \<in> set (chain_deps_of nodes i)"
  shows "\<exists>l'. map_of (cr_sub_ledgers c) d = Some l' \<and> all_completed l' \<and> lc_status (ledger_control l') = ''completed''"
proof -
  obtain order s w1 where o: "chain_order ns = Inr order"
    and loop: "chain_loop H agent env executor_for gate nodes iplans order \<lparr>cs_reconciled = [], cs_ledgers = []\<rparr> w = (Inr s, w1)"
    and c: "cr_sub_ledgers c = cs_ledgers s"
    by (rule run_chain_Inr [OF assms(1)]) (use assms(2,3) in auto)
  have "chain_inv nodes s"
    using chain_loop_inv [OF loop chain_start chain_order_distinct [OF o]] by simp
  then have "is_reconciled (cs_reconciled s) d \<and> (is_reconciled (cs_reconciled s) d \<longleftrightarrow>
      (case map_of (cs_ledgers s) d of None \<Rightarrow> False | Some l \<Rightarrow> r_allowed (reconciled l)))"
    using assms(4,5) unfolding chain_inv_def c by blast
  then obtain l' where l': "map_of (cs_ledgers s) d = Some l'" "r_allowed (reconciled l')"
    by (auto split: option.splits)
  have "ran_ledger H agent env executor_for gate iplans d l'"
    by (rule chain_loop_ran [OF loop _ l'(1)]) simp
  then obtain manifest r u u' where r: "run H agent (sub_env env (executor_for d)) 0 0 gate manifest u = (Inr r, u')"
    "l' = rr_ledger r" unfolding ran_ledger_def by blast
  obtain l0 st where s: "rr_ledger r = reconcile (set_run_state st l0)" "entries_inv l0"
    "lc_status (ledger_control l0) = ''in_progress''"
    by (rule run_reconcile_shape [OF r(1)])
  with l' r(2) have "all_completed l'"
    using entries_allowed [of "set_run_state st l0"] by (simp add: reconcile_allowed all_completed_def entries_inv_def)
  moreover have "lc_status (ledger_control l') = ''completed''"
    using l'(2) r(2) s by (simp add: reconcile_allowed reconcile_status set_run_state_def)
  ultimately show ?thesis using l'(1) c by simp
qed

definition two_chain :: val where
  "two_chain = VDict [(''iplan_chain'', VList [
     VDict [(''iplan_id'', VStr ''B''), (''depends_on'', VList [VStr ''A''])], VDict [(''iplan_id'', VStr ''A'')]])]"

definition two_nodes :: "(string \<times> val) list" where
  "two_nodes = [(''B'', VDict [(''iplan_id'', VStr ''B''), (''depends_on'', VList [VStr ''A''])]),
     (''A'', VDict [(''iplan_id'', VStr ''A'')])]"

definition good_executor :: "string \<Rightarrow> unit executor" where
  "good_executor = (\<lambda>_. \<lparr>x_execute = ex_execute (\<lambda>_. ex_good), x_compensate = (\<lambda>_. retI ())\<rparr>)"

lemma two_chain_facts:
  "chain_nodes two_chain = Inr (map snd two_nodes)" "chain_by_id (map snd two_nodes) = Inr two_nodes"
  "chain_order (map snd two_nodes) = Inr [''A'', ''B'']"
  "map_sum id (\<lambda>_. ()) (build_chain_ledger two_chain [(''A'', True), (''B'', True)]) = Inr ()"
  by code_simp+

lemma two_chain_deps:
  "deps_reconciled m (VDict [(''iplan_id'', VStr ''A'')]) = Inr True"
  "deps_reconciled m (VDict [(''iplan_id'', VStr ''B''), (''depends_on'', VList [VStr ''A''])]) = Inr (is_reconciled m ''A'')"
  by (simp_all add: deps_reconciled_def dget_or_def)

lemma sub_env_ex: "sub_env (ex_env ''running'' (\<lambda>_. ex_good)) (good_executor i) = ex_env ''running'' (\<lambda>_. ex_good)"
  by (simp add: sub_env_def ex_env_def good_executor_def)

lemma ex_result_allowed: "r_allowed (reconciled (rr_ledger ex_result))"
  by (simp add: ex_result_def reconcile_def ex_final_def ex_done_entry_def ex_entry_def is_open_def ex_ledger_def set_run_state_def Let_def)

lemma two_chain_run:
  "\<exists>c. run_chain ex_digest ''claude'' (ex_env ''running'' (\<lambda>_. ex_good)) good_executor VNone two_chain
       [(''A'', ex_manifest), (''B'', ex_manifest)] () = (Inr c, ())
     \<and> cr_sub_ledgers c = [(''A'', rr_ledger ex_result), (''B'', rr_ledger ex_result)]"
proof -
  obtain b where b: "build_chain_ledger two_chain [(''A'', True), (''B'', True)] = Inr b"
    using two_chain_facts(4) by (cases "build_chain_ledger two_chain [(''A'', True), (''B'', True)]") auto
  show ?thesis
    by (simp add: run_chain_def two_chain_facts(1-3) [unfolded two_nodes_def, simplified] bindI_app chain_loop.simps two_nodes_def lookup_node_def
        stops_def two_chain_deps sub_env_ex ex_run ex_result_allowed is_reconciled_def b)
qed

theorem chain_upstream_completed_witness:
  "\<exists>c l. run_chain ex_digest ''claude'' (ex_env ''running'' (\<lambda>_. ex_good)) good_executor VNone two_chain
       [(''A'', ex_manifest), (''B'', ex_manifest)] () = (Inr c, ())
     \<and> map_of (cr_sub_ledgers c) ''A'' = Some l \<and> all_completed l"
proof -
  obtain c where c: "run_chain ex_digest ''claude'' (ex_env ''running'' (\<lambda>_. ex_good)) good_executor VNone two_chain
       [(''A'', ex_manifest), (''B'', ex_manifest)] () = (Inr c, ())"
    "cr_sub_ledgers c = [(''A'', rr_ledger ex_result), (''B'', rr_ledger ex_result)]"
    using two_chain_run by blast
  have "map_of (cr_sub_ledgers c) ''B'' = Some (rr_ledger ex_result)" "''A'' \<in> set (chain_deps_of two_nodes ''B'')"
    by (simp_all add: c(2) chain_deps_of_def two_nodes_def dget_or_def)
  from chain_upstream_completed [OF c(1) two_chain_facts(1,2) this] c(1) show ?thesis by blast
qed

end
