(* ===== verification/RunTotal.thy ===== *)
theory RunTotal
  imports RunClaims IntakeClaims
begin

text \<open>
  A run returns. With callables that return and a manifest that validation accepts, whose
  ids are strings and whose criteria and scope have the shape of the templates, \<open>run\<close> ends
  with a ledger and a gate result: no exception of the loop, the order or the gate is reachable.

  \<open>ends Q m\<close> is total correctness: from every world \<open>m\<close> returns a value with \<open>Q\<close>.
\<close>

section \<open>Effects that return\<close>

definition ends :: "('a \<Rightarrow> bool) \<Rightarrow> ('w, 'a) io \<Rightarrow> bool" where
  "ends Q m = (\<forall>w. \<exists>a w'. m w = (Inr a, w') \<and> Q a)"

lemma ends_ret: "Q a \<Longrightarrow> ends Q (retI a)"
  by (simp add: ends_def)

lemma ends_Pair [simp]: "ends Q (Pair (Inr a)) = Q a"
  by (simp add: ends_def)

lemma ends_lift: "\<exists>a. r = Inr a \<and> Q a \<Longrightarrow> ends Q (liftI r)"
  by (auto simp: ends_def)

lemma ends_bind:
  assumes "ends P m" and "\<And>a. P a \<Longrightarrow> ends Q (f a)"
  shows "ends Q (bindI m f)"
  unfolding ends_def
proof
  fix w
  obtain a w' where "m w = (Inr a, w')" "P a" using assms(1) unfolding ends_def by blast
  moreover from assms(2) [OF this(2)] obtain b w'' where "f a w' = (Inr b, w'')" "Q b" unfolding ends_def by blast
  ultimately show "\<exists>b w''. bindI m f w = (Inr b, w'') \<and> Q b" by (simp add: bindI_app)
qed

lemma ends_any: "ends (\<lambda>_. True) m \<Longrightarrow> (\<And>a. ends Q (f a)) \<Longrightarrow> ends Q (bindI m f)"
  by (rule ends_bind)

lemma ends_fold:
  "P s \<Longrightarrow> (\<And>s x. P s \<Longrightarrow> ends P (f s x)) \<Longrightarrow> ends P (foldI f s xs)"
  by (induction xs arbitrary: s) (auto intro: ends_ret ends_bind)

definition env_returns :: "'w env \<Rightarrow> bool" where
  "env_returns env = (ends (\<lambda>_. True) (clock env) \<and> (\<forall>p. ends (\<lambda>_. True) (ids env p))
     \<and> (\<forall>d. ends (\<lambda>_. True) (sleep env d)) \<and> ends (\<lambda>_. True) (control env)
     \<and> (\<forall>t s i. item t ''task_id'' = Inr i \<longrightarrow> ends (\<lambda>_. True) (execute env t s)) \<and> (\<forall>ps. ends (\<lambda>_. True) (compensate env ps)))"

lemma env_returnsD:
  assumes "env_returns env"
  shows "ends (\<lambda>_. True) (clock env)" "ends (\<lambda>_. True) (ids env p)" "ends (\<lambda>_. True) (sleep env d)"
    "ends (\<lambda>_. True) (control env)" "item t ''task_id'' = Inr i \<Longrightarrow> ends (\<lambda>_. True) (execute env t s)"
    "ends (\<lambda>_. True) (compensate env ps)"
  using assms unfolding env_returns_def by blast+

section \<open>Ledgers on which the loop cannot fail\<close>

text \<open>The tasks are there, the log verifies and is typed, the scope is the given one.\<close>

definition ready :: "digest \<Rightarrow> string set \<Rightarrow> (string \<times> val) list \<Rightarrow> ledger \<Rightarrow> bool" where
  "ready H T sc l = (VStr ` T \<subseteq> te_task_id ` set (task_ledger l) \<and> isolation_scope l = sc
     \<and> verify_chain H (execution_log l) = Inr True
     \<and> list_all (scoped sc) (execution_log l) \<and> path_sigs l \<and> list_all is_dict (execution_evidence l))"

lemma ready_cong:
  assumes "task_ledger l' = task_ledger l" "isolation_scope l' = isolation_scope l"
    "execution_log l' = execution_log l" "execution_evidence l' = execution_evidence l"
  shows "ready H T sc l' = ready H T sc l"
  using assms by (simp add: ready_def path_sigs_def)

lemma ready_fields [simp]:
  "ready H T sc (add_blocker bid t why l) = ready H T sc l"
  "ready H T sc (add_history l t a b stamp) = ready H T sc l"
  "ready H T sc (add_lease lid t agent acquired l) = ready H T sc l"
  "ready H T sc (add_txn tx t l) = ready H T sc l"
  "ready H T sc (set_txn i f l) = ready H T sc l"
  "ready H T sc (set_lease i g l) = ready H T sc l"
  by (rule ready_cong; simp add: add_blocker_def add_history_def add_lease_def add_txn_def set_txn_def set_lease_def)+

lemma ready_find:
  assumes "ready H T sc l" "t \<in> T"
  shows "\<exists>e. find_task l t = Inr e"
proof -
  from assms obtain e where "e \<in> set (task_ledger l)" "is_entry t e" by (auto simp: ready_def is_entry_iff)
  then have "find (is_entry t) (task_ledger l) \<noteq> None" by (auto simp: find_None_iff)
  then show ?thesis by (auto simp: find_task_def)
qed

lemma update_first_ids:
  assumes "e \<in> set ts" "is_entry t e" and f: "\<And>e. te_task_id (f e) = te_task_id e"
  shows "\<exists>ts'. update_first (is_entry t) f ts = Some ts' \<and> te_task_id ` set ts' = te_task_id ` set ts"
  using assms(1,2) by (induction ts) (auto simp: f)

lemma ready_update:
  assumes "ready H T sc l" "t \<in> T" and f: "\<And>e. te_task_id (f e) = te_task_id e"
  shows "\<exists>l'. update_task t f l = Inr l' \<and> ready H T sc l'"
proof -
  from assms obtain e where "e \<in> set (task_ledger l)" "is_entry t e" by (auto simp: ready_def is_entry_iff)
  from update_first_ids [OF this f] obtain ts where ts: "update_first (is_entry t) f (task_ledger l) = Some ts"
    "te_task_id ` set ts = te_task_id ` set (task_ledger l)" by blast
  with assms(1) have "ready H T sc (l\<lparr>task_ledger := ts\<rparr>)" by (simp add: ready_def path_sigs_def)
  with ts show ?thesis by (simp add: update_task_def)
qed

lemma ready_status: "ready H T sc l \<Longrightarrow> t \<in> T \<Longrightarrow> \<exists>l'. set_status l t st = Inr l' \<and> ready H T sc l'"
  unfolding set_status_def by (rule ready_update) simp_all

lemma ready_log:
  assumes "ready H T sc l"
  shows "\<exists>l'. log_event H (mk_event (isolation_scope l) et t stamp ps) l = Inr l' \<and> ready H T sc l'"
proof -
  let ?ev = "mk_event (isolation_scope l) et t stamp ps"
  have ok: "verify_chain H (execution_log l) = Inr True" using assms by (simp add: ready_def)
  obtain e where a: "append_log H (execution_log l) ?ev = Inr (execution_log l @ [e])"
    using append_log_total [OF ok mk_event_dom] by blast
  then have "chain_event H (execution_log l) ?ev = Inr e" by (auto simp: append_log_Inr_iff)
  from chain_event_fields [OF this] obtain kvs where kvs: "e = VDict kvs"
    "\<forall>k. k \<notin> {''sequence'', ''previous_event_hash'', ''event_hash''} \<longrightarrow> map_of kvs k = map_of ?ev k" by blast
  then have d: "k \<notin> {''sequence'', ''previous_event_hash'', ''event_hash''} \<Longrightarrow> dget kvs k = dget ?ev k" for k
    by (simp add: dget_def)
  have "scoped sc e" using assms d [of "''client_id''"] d [of "''project_id''"]
    by (auto simp: scoped_def kvs(1) ready_def)
  moreover have "snd (snd (ev_sig e)) = strs ps" using d [of "''touched_paths''"] by (simp add: ev_sig_def kvs(1))
  ultimately have "ready H T sc (l\<lparr>execution_log := execution_log l @ [e]\<rparr>)"
    using assms verify_chain_append_log [OF ok a] by (auto simp: ready_def path_sigs_def)
  with a show ?thesis by (simp add: log_event_def)
qed

section \<open>The steps of the loop return\<close>

lemma ready_block:
  assumes "ready H T sc l" "t \<in> T"
  shows "\<exists>l'. block_tail H t why from_st stamp l = Inr l' \<and> ready H T sc l'"
proof -
  obtain l1 where l1: "update_task t (block_entry why) l = Inr l1" "ready H T sc l1"
    using ready_update [OF assms, of "block_entry why"] by (auto simp: block_entry_def)
  obtain l2 where l2: "set_status l1 t ''blocked'' = Inr l2" "ready H T sc l2"
    using ready_status [OF l1(2) assms(2)] by blast
  have sc: "isolation_scope (add_history l2 t from_st ''blocked'' stamp) = isolation_scope l2" by (simp add: add_history_def)
  obtain l3 where "log_event H (mk_event (isolation_scope l2) ''task_blocked'' t stamp [])
      (add_history l2 t from_st ''blocked'' stamp) = Inr l3" "ready H T sc l3"
    using ready_log [of H T sc "add_history l2 t from_st ''blocked'' stamp" "''task_blocked''" t stamp "[]"] l2(2)
    unfolding sc by auto
  with l1(1) l2(1) show ?thesis by (simp add: block_tail_def)
qed

lemma ends_escalate:
  assumes "env_returns env" "ready H T sc l" "t \<in> T"
  shows "ends (ready H T sc) (escalate H env t why stamp l)"
  unfolding escalate_tail
  by (intro ends_any env_returnsD(2) [OF assms(1)] ends_lift ready_block) (simp_all add: assms)

lemma ends_block_unmet:
  assumes "env_returns env" "ready H T sc l" "item node ''task_id'' = Inr tid" "py_str tid \<in> T"
  shows "ends (ready H T sc) (block_unmet_deps H env node l)"
  unfolding block_unmet_deps_def assms(3) bindI_lift Let_def block_tail_def [symmetric]
  by (intro ends_any env_returnsD(1,2) [OF assms(1)] ends_lift ready_block) (simp_all add: assms)

lemma ends_open:
  assumes "env_returns env" "ready H T sc l" "t \<in> T"
  shows "ends (ready H T sc) (open_task H agent env t acquired l)"
proof -
  have "\<exists>l'. bindR (set_status (add_txn tx t (add_lease lid t agent acquired l)) t ''in_progress'') (\<lambda>l.
       log_event H (mk_event (isolation_scope l) ''task_started'' t started [])
         (add_history l t ''pending'' ''in_progress'' started)) = Inr l' \<and> ready H T sc l'" for tx lid started
  proof -
    obtain l1 where l1: "set_status (add_txn tx t (add_lease lid t agent acquired l)) t ''in_progress'' = Inr l1" "ready H T sc l1"
      using ready_status [of H T sc "add_txn tx t (add_lease lid t agent acquired l)" t "''in_progress''"] assms by auto
    have s: "isolation_scope (add_history l1 t ''pending'' ''in_progress'' started) = isolation_scope l1" by (simp add: add_history_def)
    show ?thesis
      using ready_log [of H T sc "add_history l1 t ''pending'' ''in_progress'' started" "''task_started''" t started "[]"] l1
      unfolding s by auto
  qed
  then show ?thesis unfolding open_task_def
    by (intro ends_any env_returnsD(1,2) [OF assms(1)] ends_lift)
qed

lemma ends_files:
  assumes "env_returns env" "ready H T sc l"
  shows "ends (ready H T sc) (foldI (record_file H env t) l ps)"
  using assms(2)
proof (rule ends_fold)
  show "ends (ready H T sc) (record_file H env t l p)" if "ready H T sc l" for l p
    unfolding record_file_def by (intro ends_any env_returnsD(1) [OF assms(1)] ends_lift ready_log that)
qed

lemma ends_evidence:
  assumes "env_returns env" "ready H T sc l" "t \<in> T"
  shows "ends (ready H T sc) (record_evidence env t result l)"
proof (cases "evidence result")
  case None
  with assms(2) show ?thesis by (simp add: record_evidence_def ends_ret)
next
  case (Some ev)
  have "ready H T sc (l\<lparr>execution_evidence := execution_evidence l @ [evidence_entry eid t ev]\<rparr>)" for eid
    using assms(2) by (simp add: ready_def path_sigs_def evidence_entry_def)
  from ready_update [OF this assms(3)] show ?thesis
    unfolding record_evidence_def Some option.case
    by (intro ends_any env_returnsD(2) [OF assms(1)] ends_lift) simp
qed

lemma ends_complete:
  assumes "env_returns env" "ready H T sc l" "t \<in> T"
  shows "ends (ready H T sc) (complete_task H env t xi result l)"
  unfolding complete_task_def
proof (intro ends_bind [OF ends_files [OF assms(1,2)]] ends_bind [OF ends_evidence [OF assms(1) _ assms(3)]]
    ends_any [OF env_returnsD(1) [OF assms(1)]] ends_lift)
  fix l2 stamp
  assume l2: "ready H T sc l2"
  obtain l3 where l3: "set_status l2 t ''completed'' = Inr l3" "ready H T sc l3"
    using ready_status [OF l2 assms(3)] by blast
  have s: "isolation_scope (add_history l3 t ''in_progress'' ''completed'' stamp) = isolation_scope l3" by (simp add: add_history_def)
  obtain l4 where "log_event H (mk_event (isolation_scope l3) ''task_completed'' t stamp [])
      (add_history l3 t ''in_progress'' ''completed'' stamp) = Inr l4" "ready H T sc l4"
    using ready_log [of H T sc "add_history l3 t ''in_progress'' ''completed'' stamp" "''task_completed''" t stamp "[]"] l3(2)
    unfolding s by auto
  with l3(1) show "\<exists>l'. bindR (set_status l2 t ''completed'') (\<lambda>l. bindR (log_event H (mk_event (isolation_scope l) ''task_completed'' t stamp [])
       (add_history l t ''in_progress'' ''completed'' stamp)) (\<lambda>l. Inr (set_txn xi (\<lambda>x. x\<lparr>x_status := ''committed''\<rparr>) l))) = Inr l'
     \<and> ready H T sc l'" by simp
qed

lemma ends_fail:
  assumes "env_returns env" "ready H T sc l" "t \<in> T"
  shows "ends (ready H T sc) (fail_task H env t xi result l)"
  unfolding fail_task_def
proof (rule ends_bind)
  show "ends (ready H T sc) (if touched_paths result = [] then retI l else
        bindI (compensate env (touched_paths result)) (\<lambda>_.
        bindI (clock env) (\<lambda>stamp.
        bindI (liftI (log_event H (mk_event (isolation_scope l) ''compensation'' t stamp
                 (touched_paths result)) l)) (\<lambda>l.
        retI (set_txn xi (\<lambda>x. x\<lparr>x_status := ''compensated''\<rparr>) l)))))"
  proof (cases "touched_paths result = []")
    case True
    with assms(2) show ?thesis by (simp add: ends_ret)
  next
    case False
    have "ends (ready H T sc) (bindI (liftI (log_event H (mk_event (isolation_scope l) ''compensation'' t stamp
                 (touched_paths result)) l)) (\<lambda>l. retI (set_txn xi (\<lambda>x. x\<lparr>x_status := ''compensated''\<rparr>) l)))" for stamp
      by (rule ends_bind [OF ends_lift [OF ready_log [OF assms(2)]]]) (simp add: ends_ret)
    with False show ?thesis by (simp only: if_False)
      (rule ends_any [OF env_returnsD(6) [OF assms(1)]], rule ends_any [OF env_returnsD(1) [OF assms(1)]], blast)
  qed
  show "ends (ready H T sc) (bindI (clock env) (\<lambda>stamp. escalate H env t (failure_reason result) stamp l'))"
    if "ready H T sc l'" for l'
    by (intro ends_any env_returnsD(1) [OF assms(1)] ends_escalate assms that)
qed

lemma ends_retry:
  assumes "env_returns env" "item node ''task_id'' = Inr tid"
  shows "ends (\<lambda>_. True) (retry_loop env node sc mr bb n)"
proof (induction "nat (mr - n)" arbitrary: n rule: less_induct)
  case less
  show ?case
  proof (subst retry_loop.simps, rule ends_any [OF env_returnsD(5) [OF assms]])
    fix result
    have "n + 1 \<le> mr \<Longrightarrow> ends (\<lambda>_. True) (retry_loop env node sc mr bb (n + 1))" by (rule less.hyps) simp
    then show "ends (\<lambda>_. True) (if outcome result = ''success'' then retI (result, n + 1)
       else if retriable result \<and> n + 1 \<le> mr
       then bindI (sleep env (backoff (n + 1) bb)) (\<lambda>_. retry_loop env node sc mr bb (n + 1))
       else retI (result, n + 1))"
      by (auto intro: ends_ret ends_any [OF env_returnsD(3) [OF assms(1)]])
  qed
qed

lemma ends_run_task:
  assumes "env_returns env" "ready H T sc l" "item node ''task_id'' = Inr tid" "py_str tid \<in> T"
  shows "ends (ready H T sc) (run_task H agent env mr bb node l)"
proof -
  note e = env_returnsD [OF assms(1)]
  have close: "ends (ready H T sc) (bindI (clock env) (\<lambda>released. retI (set_lease li (\<lambda>x. x\<lparr>released_at := Some released\<rparr>) l')))"
    if "ready H T sc l'" for l' li
    by (rule ends_any [OF e(1)]) (simp add: ends_ret that)
  have body: "ends (ready H T sc) (bindI (if outcome result = ''success'' then complete_task H env (py_str tid) xi result l'
            else fail_task H env (py_str tid) xi result l') (\<lambda>l.
     bindI (clock env) (\<lambda>released. retI (set_lease li (\<lambda>x. x\<lparr>released_at := Some released\<rparr>) l))))"
    if l': "ready H T sc l'" for l' li xi result
  proof (rule ends_bind)
    show "ends (ready H T sc) (if outcome result = ''success'' then complete_task H env (py_str tid) xi result l'
            else fail_task H env (py_str tid) xi result l')"
      using ends_complete [OF assms(1) l' assms(4)] ends_fail [OF assms(1) l' assms(4)] by simp
    show "ends (ready H T sc) (bindI (clock env) (\<lambda>released. retI (set_lease li (\<lambda>x. x\<lparr>released_at := Some released\<rparr>) l)))"
      if "ready H T sc l" for l by (rule close [OF that])
  qed
  show ?thesis
  proof (cases "already_committed l (py_str tid @ ''-execute'')")
    case True
    with assms(2,3) show ?thesis by (simp add: run_task_def ends_ret)
  next
    case False
    show ?thesis
      unfolding run_task_def assms(3) bindI_lift Let_def if_not_P [OF False]
    proof (rule ends_any [OF e(1)])
      fix acquired
      show "ends (ready H T sc) (if \<not> can_acquire (agent_leases l) (py_str tid) acquired
          then escalate H env (py_str tid) ''lease conflict'' acquired l
          else bindI (open_task H agent env (py_str tid) acquired l) (\<lambda>la.
            bindI (execute_with_retry env node (isolation_scope la) mr bb) (\<lambda>(result, n).
            bindI (if outcome result = ''success''
                   then complete_task H env (py_str tid) (length (saga_journal l)) result (set_txn (length (saga_journal l)) (\<lambda>x. x\<lparr>attempts := Some n\<rparr>) la)
                   else fail_task H env (py_str tid) (length (saga_journal l)) result (set_txn (length (saga_journal l)) (\<lambda>x. x\<lparr>attempts := Some n\<rparr>) la))
              (\<lambda>lb. bindI (clock env) (\<lambda>released. retI (set_lease (length (agent_leases l)) (\<lambda>x. x\<lparr>released_at := Some released\<rparr>) lb))))))"
      proof (cases "can_acquire (agent_leases l) (py_str tid) acquired")
        case True
        have "ends (ready H T sc) (case r of (result, n) \<Rightarrow>
            bindI (if outcome result = ''success''
                   then complete_task H env (py_str tid) (length (saga_journal l)) result (set_txn (length (saga_journal l)) (\<lambda>x. x\<lparr>attempts := Some n\<rparr>) la)
                   else fail_task H env (py_str tid) (length (saga_journal l)) result (set_txn (length (saga_journal l)) (\<lambda>x. x\<lparr>attempts := Some n\<rparr>) la))
              (\<lambda>lb. bindI (clock env) (\<lambda>released. retI (set_lease (length (agent_leases l)) (\<lambda>x. x\<lparr>released_at := Some released\<rparr>) lb))))"
          if "ready H T sc la" for la r
          by (cases r) (simp only: prod.case, rule body, simp add: that)
        then show ?thesis using True
          by (simp only: not_True_eq_False if_False)
            (rule ends_bind [OF ends_open [OF assms(1,2,4)]], rule ends_any, simp add: execute_with_retry_def ends_retry [OF assms(1,3)], blast)
      next
        case False
        then show ?thesis using ends_escalate [OF assms(1,2,4)] by simp
      qed
    qed
  qed
qed

text \<open>The loop ends at the end of the order or at a flag that \<open>control\<close> returned.\<close>

definition loop_end :: "(string \<Rightarrow> bool) \<Rightarrow> digest \<Rightarrow> string set \<Rightarrow> (string \<times> val) list \<Rightarrow> string \<times> ledger \<Rightarrow> bool" where
  "loop_end F H T sc r = (ready H T sc (snd r) \<and> (fst r = ''completed'' \<or> F (fst r) \<and> stops (fst r)))"

lemma ends_drive_loop:
  assumes "env_returns env" and flag: "ends F (control env)"
    and nodes: "\<And>t. t \<in> T \<Longrightarrow> \<exists>node deps tid. lookup_node by_id t = Inr node \<and> node_deps node = Inr deps
        \<and> item node ''task_id'' = Inr tid \<and> py_str tid \<in> T"
    and "ready H T sc l" "set order \<subseteq> T"
  shows "ends (loop_end F H T sc) (drive_loop H agent env mr bb by_id order c l)"
  using assms(4,5)
proof (induction order arbitrary: c l)
  case Nil
  then show ?case by (simp add: loop_end_def)
next
  case (Cons t rest)
  have t: "t \<in> T" "set rest \<subseteq> T" using Cons.prems(2) by simp_all
  obtain e where e: "find_task l t = Inr e" using ready_find [OF Cons.prems(1) t(1)] by blast
  obtain node deps tid where n: "lookup_node by_id t = Inr node" "node_deps node = Inr deps"
    "item node ''task_id'' = Inr tid" "py_str tid \<in> T" using nodes [OF t(1)] by blast
  have ran: "ends (loop_end F H T sc) (bindI (liftI (find_task l' t)) (\<lambda>e.
          drive_loop H agent env mr bb by_id rest (if te_status e = ''completed'' then insert t c else c) l'))"
    if l': "ready H T sc l'" for l' c
  proof -
    obtain e' where "find_task l' t = Inr e'" using ready_find [OF l' t(1)] by blast
    with Cons.IH [OF l' t(2)] show ?thesis by simp
  qed
  have step: "ends (loop_end F H T sc) (if set deps \<subseteq> c
     then bindI (run_task H agent env mr bb node l) (\<lambda>l.
          bindI (liftI (find_task l t)) (\<lambda>e.
          drive_loop H agent env mr bb by_id rest
            (if te_status e = ''completed'' then insert t c else c) l))
     else bindI (block_unmet_deps H env node l) (\<lambda>l.
          drive_loop H agent env mr bb by_id rest c l))"
    using ends_bind [OF ends_run_task [OF assms(1) Cons.prems(1) n(3,4)] ran]
      ends_bind [OF ends_block_unmet [OF assms(1) Cons.prems(1) n(3,4)] Cons.IH [OF _ t(2)]] by simp
  have "ends (loop_end F H T sc) (if stops flag then retI (flag, l) else
     bindI (liftI (lookup_node by_id t)) (\<lambda>node.
     bindI (liftI (node_deps node)) (\<lambda>deps.
     if set deps \<subseteq> c
     then bindI (run_task H agent env mr bb node l) (\<lambda>l.
          bindI (liftI (find_task l t)) (\<lambda>e.
          drive_loop H agent env mr bb by_id rest
            (if te_status e = ''completed'' then insert t c else c) l))
     else bindI (block_unmet_deps H env node l) (\<lambda>l.
          drive_loop H agent env mr bb by_id rest c l))))" if "F flag" for flag
  proof (cases "stops flag")
    case True
    with that Cons.prems(1) show ?thesis by (simp add: loop_end_def ends_ret)
  next
    case False
    with step show ?thesis by (simp only: if_False n bindI_lift)
  qed
  then show ?case
    using Cons.IH [OF Cons.prems(1) t(2)] by (simp add: e ends_bind [OF flag])
qed

section \<open>The gate returns\<close>

abbreviation returns :: "'a res \<Rightarrow> bool" where
  "returns r \<equiv> \<exists>x. r = Inr x"

lemma returns_bind: "returns m \<Longrightarrow> (\<And>x. m = Inr x \<Longrightarrow> returns (f x)) \<Longrightarrow> returns (bindR m f)"
  by auto

lemma returns_emit: "catalogued r \<Longrightarrow> returns (emit_if c r m fs)"
  by (simp add: emit_if_catalogued)

lemma returns_fold: "(\<And>s x. x \<in> set xs \<Longrightarrow> returns (f s x)) \<Longrightarrow> returns (foldR f s xs)"
proof (induction xs arbitrary: s)
  case (Cons x xs)
  obtain s' where "f s x = Inr s'" using Cons.prems [of x s] by auto
  with Cons.IH [of s'] Cons.prems show ?case by simp
qed simp

lemma returns_any: "(\<And>x. x \<in> set xs \<Longrightarrow> returns (p x)) \<Longrightarrow> returns (anyR p xs)"
proof (induction xs)
  case (Cons x xs)
  obtain b where "p x = Inr b" using Cons.prems [of x] by auto
  with Cons show ?case by (cases b) (auto intro: exI [of _ True])
qed (auto intro: exI [of _ False])

lemma get_dict: "is_dict v \<Longrightarrow> returns (get v k)"
  by (cases v) (simp_all add: is_dict_def)

lemma check_task_returns:
  assumes "list_all is_dict evs"
  shows "returns (check_task (VList evs) fs (task_val e))"
proof -
  have "returns (bindR (get ev ''task_id'') (\<lambda>t. Inr (py_eq t v)))" if "ev \<in> set evs" for ev v
    using assms get_dict [of ev "''task_id''"] that by (auto simp: list_all_iff simp del: get_Inr_iff)
  then have a: "returns (anyR (\<lambda>ev. bindR (get ev ''task_id'') (\<lambda>t. Inr (py_eq t v))) evs)" for v
    by (rule returns_any)
  have "returns (check_completed (VList evs) (task_val e) fs)"
    unfolding check_completed_def get_task_val bindR_simps iter_VList
    by (intro returns_bind returns_emit) (auto simp: a or_else_def returns_emit simp del: get_Inr_iff)
  then show ?thesis
    unfolding check_task_def get_task_val bindR_simps
    by (intro returns_bind) (auto simp: returns_emit)
qed

lemma update_all: "\<forall>v \<in> snd ` set al. P v \<Longrightarrow> P x \<Longrightarrow> \<forall>v \<in> snd ` set (AList.update k x al). P v"
  by (induction al) auto

lemma group_add_dicts:
  assumes "\<forall>ls \<in> snd ` set groups. list_all is_dict ls" "is_dict x"
  shows "\<forall>ls \<in> snd ` set (group_add k x groups). list_all is_dict ls"
proof -
  have "list_all is_dict ((case map_of groups k of None \<Rightarrow> [] | Some xs \<Rightarrow> xs) @ [x])"
    using assms by (auto split: option.splits dest!: map_of_SomeD)
  then show ?thesis using assms(1) unfolding group_add_def by (intro update_all)
qed

lemma group_leases_returns:
  "\<forall>ls \<in> snd ` set groups. list_all is_dict ls \<Longrightarrow>
     \<exists>gs. foldR (\<lambda>groups lease. bindR (get lease ''released_at'') (\<lambda>r.
       if is_none r then bindR (get lease fld) (\<lambda>k. Inr (group_add (py_str k) lease groups))
       else Inr groups)) groups (map lease_val ls) = Inr gs \<and> (\<forall>ls \<in> snd ` set gs. list_all is_dict ls)"
proof (induction ls arbitrary: groups)
  case (Cons l ls)
  have d: "is_dict (lease_val l)" by (simp add: lease_val_def is_dict_def)
  obtain k where k: "get (lease_val l) fld = Inr k" using get_dict [OF d] by blast
  show ?case
  proof (cases "released_at l")
    case None
    with Cons.IH [OF group_add_dicts [OF Cons.prems d]] k show ?thesis by (simp add: get_lease_val del: get_Inr_iff)
  next
    case (Some r)
    with Cons show ?thesis by (simp add: get_lease_val del: get_Inr_iff)
  qed
qed simp

lemma overlap_returns: "is_dict a \<Longrightarrow> is_dict b \<Longrightarrow> returns (leases_overlap a b)"
  unfolding leases_overlap_def by (intro returns_bind get_dict) (auto intro!: returns_bind get_dict)

lemma any_pair_returns: "list_all is_dict ls \<Longrightarrow> returns (any_pair_overlap ls)"
proof (induction ls)
  case (Cons a ls)
  then have "returns (anyR (leases_overlap a) ls)" by (intro returns_any overlap_returns) (auto simp: list_all_iff)
  with Cons show ?case by auto
qed (auto intro: exI [of _ False])

lemma check_leases_returns: "returns (check_leases (ledger_val l) fs)"
proof -
  obtain gs where gs: "group_unreleased ''task_id'' (map lease_val (agent_leases l)) = Inr gs"
    "\<forall>ls \<in> snd ` set gs. list_all is_dict ls"
    using group_leases_returns [of "[]" "''task_id''" "agent_leases l"] by (auto simp: group_unreleased_def)
  show ?thesis
    unfolding check_leases_def get_ledger_val bindR_simps iter_VList gs(1)
  proof (rule returns_fold)
    fix fs x assume "x \<in> set gs"
    then have "returns (any_pair_overlap (snd x))" using gs(2) any_pair_returns by blast
    then show "returns (case x of (task_id, leases) \<Rightarrow> bindR (any_pair_overlap leases) (\<lambda>overlap.
       emit_if overlap ''LEDGER.LEASE_OVERLAP'' (''task '' @ task_id @ '' has overlapping unreleased leases'') fs))"
      by (auto simp: returns_emit split: prod.splits)
  qed
qed

lemma gate_returns:
  assumes "ready H T sc l" "typed_scope sc client project roots"
  shows "returns (validate_ledger H (ledger_val l))"
proof -
  have l: "isolation_scope l = sc" "verify_chain H (execution_log l) = Inr True" "list_all is_dict (execution_evidence l)"
    using assms(1) by (simp_all add: ready_def)
  have "log_inv H l" "path_sigs l" using assms(1) by (simp_all add: ready_def log_inv_def list_all_iff)
  note typed = typed_events [OF this, unfolded l, OF assms(2)]
  have some: "map_of sc ''allowed_roots'' \<noteq> None" "map_of sc ''client_id'' \<noteq> None" "map_of sc ''project_id'' \<noteq> None"
    using assms(2) by (auto simp: typed_scope_def dget_def strs_def split: option.splits)
  have scope: "returns (check_scope (ledger_val l) (VDict sc) fs)" for fs
    using check_scope_typed [of l client project roots] assms(2) some typed l by auto
  have rec: "returns (check_reconciliation (ledger_val l) fs)" for fs
    unfolding check_reconciliation_def get_ledger_val get_reconciliation_val bindR_simps
    by (intro returns_bind returns_emit) (auto simp: or_else_def)
  have land: "returns (check_landing (ledger_val l) (control_val (ledger_control l)) fs)" for fs
    unfolding check_landing_def get_ledger_val get_control_val bindR_simps
    by (intro returns_bind returns_emit) (auto simp: get_vcs_val split: option.splits simp del: get_Inr_iff)
  have tasks: "returns (foldR (check_task (VList (execution_evidence l))) fs (map task_val (task_ledger l)))" for fs
    by (rule returns_fold) (use check_task_returns [OF l(3)] in auto)
  have blk: "returns (foldR check_blocker fs (map blocker_val (blockers l)))" for fs
    by (rule returns_fold) (auto simp: check_blocker_def get_blocker_val returns_emit simp del: get_Inr_iff)
  show ?thesis
    unfolding validate_ledger_def get_ledger_val get_control_val bindR_simps l all_truthy_VDict iter_VList
    by (intro returns_bind returns_emit tasks blk check_leases_returns rec land)
      (simp_all add: scope)
qed

section \<open>The run returns\<close>

text \<open>
  Beyond what validation checks: the ids of the tasks are strings, their acceptance is a
  document, and the scope has two string ids and a list of roots.
\<close>

definition shaped :: "intake_parts \<Rightarrow> (string \<times> val) list \<Rightarrow> bool" where
  "shaped p sc = (ip_scope p = VDict sc \<and> (\<exists>client project roots. typed_scope sc client project roots)
     \<and> (\<forall>t \<in> set (ip_tasks p). (\<exists>i. get t ''task_id'' = Inr (VStr i)) \<and> (\<exists>a. get t ''acceptance'' = Inr (VDict a))))"

definition graph_ids :: "val list \<Rightarrow> string set" where
  "graph_ids ts = {i. \<exists>t \<in> set ts. item t ''task_id'' = Inr (VStr i)}"

lemma present_item:
  assumes "get_or v k d = Inr x" "x \<noteq> d"
  shows "item v k = Inr x"
  using assms by (auto simp: get_or_Inr_iff item_Inr_iff dget_or_def split: option.splits)

lemma truthy_item:
  assumes "get v k = Inr x" "truthy x"
  shows "item v k = Inr x"
  using assms by (auto simp: get_Inr_iff item_Inr_iff dget_def split: option.splits)

lemma nodes_return:
  "\<forall>t \<in> set ts. \<exists>i. item t ''task_id'' = Inr (VStr i) \<Longrightarrow>
     \<exists>m'. foldR (\<lambda>m t. bindR (item t ''task_id'') (\<lambda>tid. Inr (AList.update (py_str tid) t m))) m ts = Inr m'
       \<and> dom (map_of m') = dom (map_of m) \<union> graph_ids ts
       \<and> (\<forall>i n. map_of m' i = Some n \<longrightarrow> map_of m i = Some n \<or> n \<in> set ts \<and> item n ''task_id'' = Inr (VStr i))"
proof (induction ts arbitrary: m)
  case (Cons t ts)
  then obtain i where i: "item t ''task_id'' = Inr (VStr i)" by auto
  have "\<forall>t \<in> set ts. \<exists>i. item t ''task_id'' = Inr (VStr i)" using Cons.prems by simp
  from Cons.IH [OF this, of "AList.update i t m"] obtain m' where m':
    "foldR (\<lambda>m t. bindR (item t ''task_id'') (\<lambda>tid. Inr (AList.update (py_str tid) t m))) (AList.update i t m) ts = Inr m'"
    "dom (map_of m') = dom (map_of (AList.update i t m)) \<union> graph_ids ts"
    "\<forall>j n. map_of m' j = Some n \<longrightarrow> map_of (AList.update i t m) j = Some n \<or> n \<in> set ts \<and> item n ''task_id'' = Inr (VStr j)"
    by blast
  have g: "graph_ids (t # ts) = insert i (graph_ids ts)" using i by (auto simp: graph_ids_def)
  have "dom (map_of (AList.update i t m)) = insert i (dom (map_of m))" by auto
  with m'(2) g have "dom (map_of m') = dom (map_of m) \<union> graph_ids (t # ts)" by auto
  moreover have "map_of m' j = Some n \<Longrightarrow> map_of m j = Some n \<or> n \<in> set (t # ts) \<and> item n ''task_id'' = Inr (VStr j)" for j n
    using m'(3) i by (auto split: if_splits)
  ultimately show ?case using m'(1) i by (intro exI [of _ m']) simp
qed (simp add: graph_ids_def)

lemma deps_return:
  "\<forall>t \<in> set ts. (\<exists>i. item t ''task_id'' = Inr (VStr i)) \<and>
       (\<exists>ds dl. get_or t ''depends_on'' (VList []) = Inr ds \<and> iter ds = Inr dl \<and> (\<forall>d \<in> set dl. hashable d)) \<Longrightarrow>
     \<exists>m'. foldR (\<lambda>m t. bindR (item t ''task_id'') (\<lambda>tid.
        bindR (get_or t ''depends_on'' (VList [])) (\<lambda>ds. bindR (iter ds) (\<lambda>ds.
        bindR (mk_set ds) (\<lambda>ds. Inr (AList.update (py_str tid) ds m)))))) m ts = Inr m'
       \<and> fst ` set m' = fst ` set m \<union> graph_ids ts"
proof (induction ts arbitrary: m)
  case (Cons t ts)
  then obtain i ds dl where i: "item t ''task_id'' = Inr (VStr i)" "get_or t ''depends_on'' (VList []) = Inr ds"
    "iter ds = Inr dl" "mk_set dl = Inr dl" by (auto simp: mk_set_def)
  have "graph_ids (t # ts) = insert i (graph_ids ts)" using i by (auto simp: graph_ids_def)
  moreover have "fst ` set (AList.update i dl m) = insert i (fst ` set m)" by (simp add: dom_update)
  ultimately show ?case using Cons.IH [of "AList.update i dl m"] Cons.prems i by (auto simp del: item_Inr_iff get_or_Inr_iff)
qed (simp add: graph_ids_def)

lemma topo_returns:
  assumes "graph_deps ts = Inr m" "fst ` set m = T"
  shows "\<exists>order. topo_order ts = Inr order \<and> set order = T"
proof -
  obtain order where o: "order_loop str_lt (deps_fun m) (map fst m) [] = Inr order" using order_loop_str_total by blast
  then have "topo_order ts = Inr order" using assms(1) by (simp add: topo_order_def)
  then show ?thesis using order_loop_perm [OF o] assms(2) by auto
qed

lemma mapR_source: "mapR f xs = Inr ys \<Longrightarrow> x \<in> set xs \<Longrightarrow> \<exists>y \<in> set ys. f x = Inr y"
  by (induction xs arbitrary: ys) (auto simp: bindR_Inr_iff)

lemma init_returns:
  assumes p: "intake_passed manifest p" and s: "shaped p sc"
  shows "\<exists>l. init_ledger manifest = Inr l \<and> ready H (graph_ids (ip_tasks p)) sc l"
proof -
  obtain g where g: "get_or manifest ''task_graph'' (VList []) = Inr g" "truthy g" "iter g = Inr (ip_tasks p)"
    using p unfolding intake_passed_def by blast
  have ctl: "get_or manifest ''intake_control'' (VDict []) = Inr (ip_control p)"
    "all_truthy (ip_control p) [''source_iplan'', ''source_iplan_version'', ''source_iplan_checksum''] = Inr True"
    and scp: "get_or manifest ''isolation_scope'' (VDict []) = Inr (VDict sc)"
      "all_truthy (VDict sc) [''client_id'', ''project_id'', ''allowed_roots''] = Inr True"
    using p s unfolding intake_passed_def shaped_def by auto
  obtain a where "get (ip_control p) ''approved'' = Inr a" using p unfolding intake_passed_def by blast
  then obtain cs where cs: "ip_control p = VDict cs" by (auto simp: get_Inr_iff)
  have tr: "truthy (dget cs ''source_iplan'')" "truthy (dget cs ''source_iplan_version'')" "truthy (dget cs ''source_iplan_checksum'')"
    using ctl(2) unfolding cs all_truthy_VDict by simp_all
  have item_c: "item (ip_control p) k = Inr (dget cs k)" if "truthy (dget cs k)" for k
    using that by (intro truthy_item) (simp_all add: cs)
  have ne: "ip_control p \<noteq> VDict []" "VDict sc \<noteq> VDict []" "g \<noteq> VList []"
    using tr(1) scp(2) g(2) cs by (auto simp: dget_def)
  have init: "returns (init_task t) \<and> (\<forall>e i. init_task t = Inr e \<longrightarrow> get t ''task_id'' = Inr (VStr i) \<longrightarrow> te_task_id e = VStr i)"
    if t: "t \<in> set (ip_tasks p)" for t
  proof -
    obtain i ac where i: "get t ''task_id'' = Inr (VStr i)" "get t ''acceptance'' = Inr (VDict ac)"
      using s t unfolding shaped_def by blast
    have "task_complete t" using p t unfolding intake_passed_def by blast
    then have "i \<noteq> []" using i(1) by (auto simp: task_complete_def split: if_splits)
    then have "item t ''task_id'' = Inr (VStr i)" using truthy_item [OF i(1)] by simp
    moreover obtain title where "get t ''title'' = Inr title" using i(1) by (auto simp: get_Inr_iff)
    ultimately show ?thesis using i by (simp add: init_task_def or_else_def del: get_Inr_iff item_Inr_iff)
  qed
  then obtain es where es: "mapR init_task (ip_tasks p) = Inr es"
  proof -
    have "mapR init_task (ip_tasks p) = Inr (map (\<lambda>t. projr (init_task t)) (ip_tasks p))"
      by (rule mapR_Inr) (use init in force)
    then show thesis by (rule that)
  qed
  have ids: "VStr ` graph_ids (ip_tasks p) \<subseteq> te_task_id ` set es"
  proof
    fix v assume "v \<in> VStr ` graph_ids (ip_tasks p)"
    then obtain i t where t: "v = VStr i" "t \<in> set (ip_tasks p)" "item t ''task_id'' = Inr (VStr i)" by (auto simp: graph_ids_def)
    then have "get t ''task_id'' = Inr (VStr i)" by (auto simp: item_Inr_iff dget_def)
    moreover obtain e where "e \<in> set es" "init_task t = Inr e"
      using mapR_source [OF es t(2)] by blast
    ultimately show "v \<in> te_task_id ` set es" using init [OF t(2)] t(1) by (auto intro!: image_eqI [of _ te_task_id e])
  qed
  show ?thesis
    unfolding init_ledger_def present_item [OF ctl(1) ne(1)] present_item [OF g(1) ne(3)] present_item [OF scp(1) ne(2)]
      item_c [OF tr(1)] item_c [OF tr(2)] item_c [OF tr(3)] g(3) es bindR_simps
    using ids by (simp add: ready_def as_dict_def path_sigs_def verify_chain_def)
qed

lemma drive_returns:
  assumes "env_returns env" "ends F (control env)" and g: "bindR (item manifest ''task_graph'') iter = Inr ts"
    and t: "\<forall>t \<in> set ts. (\<exists>i. item t ''task_id'' = Inr (VStr i)) \<and>
       (\<exists>ds dl. get_or t ''depends_on'' (VList []) = Inr ds \<and> iter ds = Inr dl \<and> (\<forall>d \<in> set dl. hashable d))"
    and "ready H (graph_ids ts) sc l" "typed_scope sc client project roots"
  shows "ends (\<lambda>r. run_state (ledger_control (rr_ledger r)) = ''completed''
       \<or> F (run_state (ledger_control (rr_ledger r))) \<and> stops (run_state (ledger_control (rr_ledger r))))
     (drive H agent env mr bb VNone manifest c l)"
proof -
  obtain by_id where b: "nodes_by_id ts = Inr by_id" "dom (map_of by_id) = graph_ids ts"
    "\<And>i n. map_of by_id i = Some n \<Longrightarrow> n \<in> set ts \<and> item n ''task_id'' = Inr (VStr i)"
    using nodes_return [of ts "[]"] t unfolding nodes_by_id_def by auto
  obtain m where m: "graph_deps ts = Inr m" "fst ` set m = graph_ids ts"
    using deps_return [OF t, of "[]"] unfolding graph_deps_def by auto
  obtain order where o: "topo_order ts = Inr order" "set order = graph_ids ts" using topo_returns [OF m] by blast
  have nodes: "\<exists>node deps tid. lookup_node by_id i = Inr node \<and> node_deps node = Inr deps
        \<and> item node ''task_id'' = Inr tid \<and> py_str tid \<in> graph_ids ts" if i: "i \<in> graph_ids ts" for i
  proof -
    obtain n where n: "map_of by_id i = Some n" using i b(2) by auto
    then have "n \<in> set ts" "item n ''task_id'' = Inr (VStr i)" using b(3) by simp_all
    moreover from this(1) t obtain ds dl where "get_or n ''depends_on'' (VList []) = Inr ds" "iter ds = Inr dl" by blast
    ultimately show ?thesis using i n by (simp add: lookup_node_def node_deps_def del: get_or_Inr_iff item_Inr_iff)
  qed
  have loop: "ends (loop_end F H (graph_ids ts) sc) (drive_loop H agent env mr bb by_id order c l)"
    using ends_drive_loop [OF assms(1,2) nodes assms(5)] o(2) by simp
  have gate: "ends (\<lambda>r. run_state (ledger_control (rr_ledger r)) = st)
      (liftI (bindR (run_gate H (ledger_val (reconcile (set_run_state st l'))) (or_else VNone default_gate)) (\<lambda>g.
       Inr \<lparr>rr_ledger = reconcile (set_run_state st l'), rr_gate = g\<rparr>)))" if l': "ready H (graph_ids ts) sc l'" for st l'
  proof -
    have "ready H (graph_ids ts) sc (reconcile (set_run_state st l'))"
      using l' ready_cong [of "reconcile (set_run_state st l')" l'] by simp
    from gate_returns [OF this assms(6)] obtain fs where "validate_ledger H (ledger_val (reconcile (set_run_state st l'))) = Inr fs" by blast
    from run_default_gate [OF this] show ?thesis by (intro ends_lift) (simp add: or_else_def)
  qed
  show ?thesis
    unfolding drive_def g b(1) o(1) bindI_lift Let_def
  proof (rule ends_bind [OF loop])
    fix r assume r: "loop_end F H (graph_ids ts) sc r"
    obtain st l' where "r = (st, l')" by (cases r)
    with r gate [of l' st] show "ends (\<lambda>r. run_state (ledger_control (rr_ledger r)) = ''completed''
       \<or> F (run_state (ledger_control (rr_ledger r))) \<and> stops (run_state (ledger_control (rr_ledger r))))
      (case r of (final_state, l) \<Rightarrow> liftI (bindR (run_gate H (ledger_val (reconcile (set_run_state final_state l))) (or_else VNone default_gate))
        (\<lambda>g. Inr \<lparr>rr_ledger = reconcile (set_run_state final_state l), rr_gate = g\<rparr>)))"
      unfolding ends_def loop_end_def by fastforce
  qed
qed

lemma shaped_run_returns:
  assumes "env_returns env" "ends F (control env)" "intake_passed manifest p" "shaped p sc"
  shows "\<exists>r w'. run H agent env mr bb VNone manifest w = (Inr r, w')
     \<and> (run_state (ledger_control (rr_ledger r)) = ''completed''
        \<or> F (run_state (ledger_control (rr_ledger r))) \<and> stops (run_state (ledger_control (rr_ledger r))))"
proof -
  obtain l where l: "init_ledger manifest = Inr l" "ready H (graph_ids (ip_tasks p)) sc l"
    using init_returns [OF assms(3,4)] by blast
  obtain client project roots where sc: "typed_scope sc client project roots" using assms(4) unfolding shaped_def by blast
  obtain g where g: "get_or manifest ''task_graph'' (VList []) = Inr g" "truthy g" "iter g = Inr (ip_tasks p)"
    using assms(3) unfolding intake_passed_def by blast
  from g(2) have "g \<noteq> VList []" by auto
  from present_item [OF g(1) this] g(3) have graph: "bindR (item manifest ''task_graph'') iter = Inr (ip_tasks p)" by simp
  obtain known where known: "\<forall>t \<in> set (ip_tasks p). task_complete t \<and> deps_known known t"
    using assms(3) unfolding intake_passed_def by blast
  have "(\<exists>i. item t ''task_id'' = Inr (VStr i)) \<and>
       (\<exists>ds dl. get_or t ''depends_on'' (VList []) = Inr ds \<and> iter ds = Inr dl \<and> (\<forall>d \<in> set dl. hashable d))"
    if t: "t \<in> set (ip_tasks p)" for t
  proof -
    obtain i where i: "get t ''task_id'' = Inr (VStr i)" using assms(4) t unfolding shaped_def by blast
    with known t have "i \<noteq> []" by (auto simp: task_complete_def split: if_splits)
    then have "item t ''task_id'' = Inr (VStr i)" using truthy_item [OF i] by simp
    moreover obtain ds dl where "get_or t ''depends_on'' (VList []) = Inr ds" "iter ds = Inr dl" "\<forall>d \<in> set dl. in_set d known = Inr True"
      using known t unfolding deps_known_def by blast
    moreover from this(3) have "\<forall>d \<in> set dl. hashable d" by (auto simp: in_set_def split: if_splits)
    ultimately show ?thesis by blast
  qed
  with drive_returns [OF assms(1,2) graph _ l(2) sc, of agent mr bb "{}"]
  have d: "ends (\<lambda>r. run_state (ledger_control (rr_ledger r)) = ''completed''
       \<or> F (run_state (ledger_control (rr_ledger r))) \<and> stops (run_state (ledger_control (rr_ledger r))))
     (drive H agent env mr bb VNone manifest {} l)" by blast
  have "validate_intake manifest = Inr []" using passed_validates [OF assms(3)] .
  with l(1) d show ?thesis by (simp add: run_def bindI_app status_of_def ends_def)
qed

text \<open>
  C11. A run returns. When the callables it is given return - the executor on
  every task with an id - and the manifest passes
  validation and has the shape above, \<open>run\<close> with the default gate returns a result from every
  world, whatever the executor answers, and its run state is \<open>completed\<close> or the flag at
  which \<open>control\<close> stopped it.
\<close>

theorem run_returns:
  assumes "env_returns env" "ends F (control env)" "intake_passed manifest p" "shaped p sc"
  shows "\<exists>r w'. run H agent env mr bb VNone manifest w = (Inr r, w')
     \<and> (run_state (ledger_control (rr_ledger r)) = ''completed''
        \<or> F (run_state (ledger_control (rr_ledger r))) \<and> stops (run_state (ledger_control (rr_ledger r))))"
  by (rule shaped_run_returns [OF assms])

definition failing_env :: "unit env" where
  "failing_env = (ex_env ''running'' (\<lambda>_. ex_bad))\<lparr>execute := (\<lambda>_ _. retI ex_bad)\<rparr>"

lemma failing_env_returns: "env_returns failing_env" "ends (\<lambda>f. f = ''running'') (control failing_env)"
  by (simp_all add: env_returns_def failing_env_def ex_env_def ends_def)

lemma ex_manifest_shaped:
  assumes "intake_passed ex_manifest p"
  shows "shaped p ex_scope"
proof -
  have "get_or ex_manifest ''isolation_scope'' (VDict []) = Inr (ip_scope p)"
    and "\<exists>g. get_or ex_manifest ''task_graph'' (VList []) = Inr g \<and> truthy g \<and> iter g = Inr (ip_tasks p)"
    using assms unfolding intake_passed_def by blast+
  then have "ip_scope p = VDict ex_scope" "ip_tasks p = [ex_task ''T1'' [], ex_task ''T2'' [''T1'']]"
    by (auto simp: ex_manifest_def dget_or_def)
  moreover have "typed_scope ex_scope ''a'' ''p'' [''src/'']"
    by (simp add: typed_scope_def ex_scope_def dget_def strs_def)
  ultimately show ?thesis by (auto simp: shaped_def ex_task_def dget_def)
qed

theorem run_returns_witness:
  "\<exists>r w'. run ex_digest ''claude'' failing_env 1 0 VNone ex_manifest () = (Inr r, w')
     \<and> run_state (ledger_control (rr_ledger r)) = ''completed''"
proof -
  have "status_of [] \<noteq> ''fail''" by (simp add: status_of_def)
  then obtain p where p: "intake_passed ex_manifest p" by (rule validate_intake_passes [OF ex_validate])
  have "\<not> stops ''running''" by (simp add: stops_def)
  with run_returns [OF failing_env_returns p ex_manifest_shaped [OF p], of ex_digest "''claude''" 1 0 "()"]
  show ?thesis by auto
qed

end
