(* ===== verification/Hermes.thy ===== *)
theory Hermes
  imports Loop
begin

text \<open>
  The run loop of the Hermes engine (\<open>platforms/hermes/.../orchestrator/loop.py\<close>). The engines
  import nothing of each other, so Hermes has a loop of its own; the functions that reach the
  module constant \<open>_AGENT_ID\<close> are written out here over the shared operations on the ledger.
  \<open>EngineParity\<close> compares them with \<open>Loop\<close>.
\<close>

definition CLAUDE_AGENT_ID :: string where
  "CLAUDE_AGENT_ID = ''claude''"

definition HERMES_AGENT_ID :: string where
  "HERMES_AGENT_ID = ''hermes''"

definition hermes_open_task ::
  "digest \<Rightarrow> 'w env \<Rightarrow> string \<Rightarrow> string \<Rightarrow> ledger \<Rightarrow> ('w, ledger) io" where
  "hermes_open_task H env task_id acquired l =
     bindI (ids env ''L'') (\<lambda>lid.
     let l = add_lease lid task_id HERMES_AGENT_ID acquired l in
     bindI (ids env ''TX'') (\<lambda>tx.
     let l = add_txn tx task_id l in
     bindI (clock env) (\<lambda>started_at.
     bindI (liftI (set_status l task_id ''in_progress'')) (\<lambda>l.
     let l = add_history l task_id ''pending'' ''in_progress'' started_at in
     liftI (log_event H (mk_event (isolation_scope l) ''task_started'' task_id started_at []) l)))))"

definition hermes_run_task ::
  "digest \<Rightarrow> 'w env \<Rightarrow> int \<Rightarrow> rat \<Rightarrow> val \<Rightarrow> ledger \<Rightarrow> ('w, ledger) io" where
  "hermes_run_task H env max_retries backoff_base task_node l =
     bindI (liftI (item task_node ''task_id'')) (\<lambda>tid. let task_id = py_str tid in
     if already_committed l (task_id @ ''-execute'') then retI l else
     bindI (clock env) (\<lambda>acquired_at.
     if \<not> can_acquire (agent_leases l) task_id acquired_at
     then escalate H env task_id ''lease conflict'' acquired_at l else
     let lease = length (agent_leases l); txn = length (saga_journal l) in
     bindI (hermes_open_task H env task_id acquired_at l) (\<lambda>l.
     bindI (execute_with_retry env task_node (isolation_scope l) max_retries backoff_base) (\<lambda>(result, n).
     let l = set_txn txn (\<lambda>x. x\<lparr>attempts := Some n\<rparr>) l in
     bindI (if outcome result = ''success'' then complete_task H env task_id txn result l
            else fail_task H env task_id txn result l) (\<lambda>l.
     bindI (clock env) (\<lambda>released_at.
     retI (set_lease lease (\<lambda>x. x\<lparr>released_at := Some released_at\<rparr>) l)))))))"

fun hermes_drive_loop ::
  "digest \<Rightarrow> 'w env \<Rightarrow> int \<Rightarrow> rat \<Rightarrow> (string \<times> val) list \<Rightarrow> string list \<Rightarrow> string set \<Rightarrow> ledger
     \<Rightarrow> ('w, string \<times> ledger) io" where
  "hermes_drive_loop H env mr bb by_id [] completed l = retI (''completed'', l)"
| "hermes_drive_loop H env mr bb by_id (task_id # order) completed l =
     bindI (liftI (find_task l task_id)) (\<lambda>entry.
     if te_status entry = ''completed''
     then hermes_drive_loop H env mr bb by_id order (insert task_id completed) l else
     bindI (control env) (\<lambda>state.
     if stops state then retI (state, l) else
     bindI (liftI (lookup_node by_id task_id)) (\<lambda>node.
     bindI (liftI (node_deps node)) (\<lambda>deps.
     if \<forall>d \<in> set deps. d \<in> completed
     then bindI (hermes_run_task H env mr bb node l) (\<lambda>l.
          bindI (liftI (find_task l task_id)) (\<lambda>entry.
          hermes_drive_loop H env mr bb by_id order
            (if te_status entry = ''completed'' then insert task_id completed else completed) l))
     else bindI (block_unmet_deps H env node l) (\<lambda>l.
          hermes_drive_loop H env mr bb by_id order completed l)))))"

definition hermes_drive ::
  "digest \<Rightarrow> 'w env \<Rightarrow> int \<Rightarrow> rat \<Rightarrow> val \<Rightarrow> val \<Rightarrow> string set \<Rightarrow> ledger \<Rightarrow> ('w, run_result) io" where
  "hermes_drive H env mr bb gate manifest completed l =
     bindI (liftI (bindR (item manifest ''task_graph'') iter)) (\<lambda>graph.
     bindI (liftI (nodes_by_id graph)) (\<lambda>by_id.
     bindI (liftI (topo_order graph)) (\<lambda>order.
     bindI (hermes_drive_loop H env mr bb by_id order completed l) (\<lambda>(state, l).
     let l = reconcile (set_run_state state l) in
     bindI (liftI (run_gate H (ledger_val l) (or_else gate default_gate))) (\<lambda>g.
     retI \<lparr>rr_ledger = l, rr_gate = g\<rparr>)))))"

definition hermes_run ::
  "digest \<Rightarrow> 'w env \<Rightarrow> int \<Rightarrow> rat \<Rightarrow> val \<Rightarrow> val \<Rightarrow> ('w, run_result) io" where
  "hermes_run H env mr bb gate manifest =
     bindI (liftI (validate_intake manifest)) (\<lambda>findings.
     if status_of findings = ''fail''
     then raiseI (ValueError ''intake manifest failed validation'') else
     bindI (liftI (init_ledger manifest)) (\<lambda>l.
     hermes_drive H env mr bb gate manifest {} l))"

definition hermes_resume ::
  "digest \<Rightarrow> 'w env \<Rightarrow> int \<Rightarrow> rat \<Rightarrow> val \<Rightarrow> val \<Rightarrow> ledger \<Rightarrow> ('w, run_result) io" where
  "hermes_resume H env mr bb gate manifest l =
     hermes_drive H env mr bb gate manifest (completed_ids l) (set_run_state ''running'' l)"

end
