(* ===== verification/LedgerView.thy ===== *)
theory LedgerView
  imports Loop
begin

text \<open>
  Views of a ledger. A view changes fields the loop never reads (the agent of a lease, the
  control block, the reconciliation); every operation of the loop commutes with it. The laws a
  view has to satisfy are about the single writes; the locale proves the loop from them.
\<close>

section \<open>Mapping the result of an effect\<close>

definition map_io :: "('a \<Rightarrow> 'b) \<Rightarrow> ('w, 'a) io \<Rightarrow> ('w, 'b) io" where
  "map_io f m = bindI m (\<lambda>x. retI (f x))"

named_theorems push "rules that push a map of the result through binds"

lemma map_io_ret [push]: "map_io f (retI x) = retI (f x)"
  by (simp add: map_io_def bindI_def retI_def)

lemma map_io_lift [push]: "map_io f (liftI r) = liftI (bindR r (\<lambda>x. Inr (f x)))"
  by (auto simp: map_io_def bindI_def bindR_def retI_def liftI_def fun_eq_iff split: sum.splits)

lemma map_io_bind [push]: "map_io f (bindI m g) = bindI m (\<lambda>x. map_io f (g x))"
  by (auto simp: map_io_def bindI_def fun_eq_iff split: prod.splits sum.splits)

lemma bind_map_io [push]: "bindI (map_io f m) h = bindI m (\<lambda>x. h (f x))"
  by (auto simp: map_io_def bindI_def retI_def fun_eq_iff split: prod.splits sum.splits)

lemma bindI_assoc [push]: "bindI (bindI m f) g = bindI m (\<lambda>x. bindI (f x) g)"
  by (auto simp: bindI_def fun_eq_iff split: prod.splits sum.splits)

lemma map_io_if [push]: "map_io f (if b then m else m') = (if b then map_io f m else map_io f m')"
  by simp

lemma bind_map_io_if [push]:
  "bindI (if b then map_io f m else map_io f m') h = bindI (if b then m else m') (\<lambda>x. h (f x))"
  by (simp add: bind_map_io)

lemma lift_bind [push]: "bindI (liftI (bindR r (\<lambda>x. Inr (f x)))) h = bindI (liftI r) (\<lambda>x. h (f x))"
  by (auto simp: bindI_def bindR_def fun_eq_iff split: sum.splits)

lemma bindR_assoc2 [push]: "bindR (bindR m f) g = bindR m (\<lambda>x. bindR (f x) g)"
  by (rule bindR_assoc)

lemma liftI_bindR: "liftI (bindR r f) = bindI (liftI r) (\<lambda>x. liftI (f x))"
  by (cases r) (simp_all add: bindI_def liftI_def fun_eq_iff)

lemma liftI_Inr: "liftI (Inr x) = retI x"
  by (simp add: liftI_def retI_def fun_eq_iff)

lemma bind_liftI: "bindI (liftI (Inr x)) f = f x" "bindI (liftI (Inl e)) f = raiseI e"
  by (simp_all add: bindI_def liftI_def raiseI_def fun_eq_iff)

lemma map_io_raise: "map_io f (raiseI e) = raiseI e"
  by (simp add: map_io_def bindI_def raiseI_def fun_eq_iff)

lemma foldI_map_io:
  assumes "\<And>s x. f (r s) x = map_io r (f s x)"
  shows "foldI f (r s) xs = map_io r (foldI f s xs)"
  by (induction xs arbitrary: s) (simp_all add: assms push)

section \<open>The interface\<close>

locale ledger_view =
  fixes view :: "ledger \<Rightarrow> ledger" and agent agent' :: string
  assumes reads: "task_ledger (view l) = task_ledger l" "saga_journal (view l) = saga_journal l"
      "execution_log (view l) = execution_log l" "isolation_scope (view l) = isolation_scope l"
      "execution_evidence (view l) = execution_evidence l"
      "length (agent_leases (view l)) = length (agent_leases l)"
    and acquire: "can_acquire (agent_leases (view l)) t now = can_acquire (agent_leases l) t now"
    and writes: "(view l)\<lparr>task_ledger := ts\<rparr> = view (l\<lparr>task_ledger := ts\<rparr>)"
      "(view l)\<lparr>execution_log := es\<rparr> = view (l\<lparr>execution_log := es\<rparr>)"
      "(view l)\<lparr>execution_evidence := vs\<rparr> = view (l\<lparr>execution_evidence := vs\<rparr>)"
      "(view l)\<lparr>saga_journal := xs\<rparr> = view (l\<lparr>saga_journal := xs\<rparr>)"
      "add_history (view l) t a b stamp = view (add_history l t a b stamp)"
      "add_blocker bid t why (view l) = view (add_blocker bid t why l)"
    and lease: "add_lease lid t agent now (view l) = view (add_lease lid t agent' now l)"
    and release: "set_lease i (\<lambda>x. x\<lparr>released_at := r\<rparr>) (view l) = view (set_lease i (\<lambda>x. x\<lparr>released_at := r\<rparr>) l)"
begin

lemma find [push]: "find_task (view l) t = find_task l t"
  by (simp add: find_task_def reads)

lemma committed [push]: "already_committed (view l) k = already_committed l k"
  by (simp add: already_committed_def reads)

lemma txns [push]: "add_txn tx t (view l) = view (add_txn tx t l)" "set_txn i f (view l) = view (set_txn i f l)"
  by (simp_all add: add_txn_def set_txn_def reads writes)

lemma update [push]: "update_task t f (view l) = bindR (update_task t f l) (\<lambda>l. Inr (view l))"
  by (simp add: update_task_def reads writes split: option.splits)

lemma status [push]: "set_status (view l) t s = bindR (set_status l t s) (\<lambda>l. Inr (view l))"
  by (simp add: set_status_def update)

lemma log [push]: "log_event H e (view l) = bindR (log_event H e l) (\<lambda>l. Inr (view l))"
  by (cases "append_log H (execution_log l) e") (simp_all add: log_event_def reads writes)

lemmas laws = reads acquire writes release

lemma escalate_view [push]: "escalate H env t why stamp (view l) = map_io view (escalate H env t why stamp l)"
  by (simp add: escalate_def push laws)

lemma block_view [push]: "block_unmet_deps H env node (view l) = map_io view (block_unmet_deps H env node l)"
  by (simp add: block_unmet_deps_def Let_def push laws)

lemma open_view: "open_task H agent env t acquired (view l) = map_io view (open_task H agent' env t acquired l)"
  by (simp add: open_task_def push laws lease)

lemma record_view [push]: "record_file H env t (view l) p = map_io view (record_file H env t l p)"
  by (simp add: record_file_def push laws)

lemma files_view [push]: "foldI (record_file H env t) (view l) ps = map_io view (foldI (record_file H env t) l ps)"
  by (rule foldI_map_io) (rule record_view)

lemma evidence_view [push]: "record_evidence env t result (view l) = map_io view (record_evidence env t result l)"
  by (cases "evidence result") (simp_all add: record_evidence_def push laws)

lemma complete_view [push]:
  "complete_task H env t xi result (view l) = map_io view (complete_task H env t xi result l)"
  by (simp add: complete_task_def push laws)

lemma fail_view [push]: "fail_task H env t xi result (view l) = map_io view (fail_task H env t xi result l)"
  by (simp add: fail_task_def push laws)

lemma task_view:
  "run_task H agent env mr bb node (view l) = map_io view (run_task H agent' env mr bb node l)"
proof -
  have *: "map_io view (case p of (result, n) \<Rightarrow> f result n) = (case p of (result, n) \<Rightarrow> map_io view (f result n))"
    for p and f :: "exec_result \<Rightarrow> int \<Rightarrow> ('c, ledger) io" by (cases p) simp
  show ?thesis
    by (simp add: run_task_def Let_def push laws open_view * cong: if_cong split del: if_split)
qed

lemma loop_view:
  "drive_loop H agent env mr bb by_id order c (view l)
     = map_io (map_prod id view) (drive_loop H agent' env mr bb by_id order c l)"
  by (induction order arbitrary: c l) (simp_all add: push laws task_view cong: if_cong split del: if_split)

end

end
