(* ===== verification/EngineParity.thy ===== *)
theory EngineParity
  imports RunClaims Hermes LedgerView
begin

text \<open>
  The two engines agree. Their loops differ in the agent id they write into leases; a run with
  one id is, effect for effect, the run with the other, relabelled.

  Every operation commutes with the relabelling; the lemmas push it through the binds.
\<close>

section \<open>Relabelling\<close>

definition relabel :: "string \<Rightarrow> ledger \<Rightarrow> ledger" where
  "relabel a l = l\<lparr>agent_leases := map (\<lambda>x. x\<lparr>agent_id := a\<rparr>) (agent_leases l)\<rparr>"

lemma relabel_reads [simp]:
  "task_ledger (relabel a l) = task_ledger l" "saga_journal (relabel a l) = saga_journal l"
  "execution_log (relabel a l) = execution_log l" "blockers (relabel a l) = blockers l"
  "isolation_scope (relabel a l) = isolation_scope l" "ledger_control (relabel a l) = ledger_control l"
  "execution_evidence (relabel a l) = execution_evidence l" "reconciled (relabel a l) = reconciled l"
  "vcs (relabel a l) = vcs l" "length (agent_leases (relabel a l)) = length (agent_leases l)"
  by (simp_all add: relabel_def)

interpretation relabelled: ledger_view "relabel a" a b for a b
proof
  show "set_lease i (\<lambda>x. x\<lparr>released_at := r\<rparr>) (relabel a l) = relabel a (set_lease i (\<lambda>x. x\<lparr>released_at := r\<rparr>) l)" for i r l
  proof (cases "i < length (agent_leases l)")
    case True
    then show ?thesis by (cases "agent_leases l ! i") (simp add: relabel_def set_lease_def map_update)
  qed (simp add: relabel_def set_lease_def list_update_beyond)
qed (auto simp: relabel_def add_history_def add_blocker_def add_lease_def can_acquire_def lease_state_def)

section \<open>The gate\<close>

lemma relabel_reconcile: "reconcile (set_run_state st (relabel a l)) = relabel a (reconcile (set_run_state st l))"
  by (simp add: reconcile_def set_run_state_def relabel_def Let_def)

text \<open>
  The validator reads four fields of a lease, and the agent id is none of them: relabelled
  leases are grouped and compared as before.
\<close>

definition sign_lease :: "string \<Rightarrow> val \<Rightarrow> val" where
  "sign_lease a v = (case v of VDict kvs \<Rightarrow> VDict (AList.update ''agent_id'' (VStr a) kvs) | _ \<Rightarrow> v)"

lemma sign_lease_val: "lease_val (x\<lparr>agent_id := a\<rparr>) = sign_lease a (lease_val x)"
  by (simp add: lease_val_def sign_lease_def)

lemma get_sign_lease: "k \<noteq> ''agent_id'' \<Longrightarrow> get (sign_lease a v) k = get v k"
  by (cases v) (simp_all add: sign_lease_def dget_def update_conv')

lemma overlap_sign_lease: "leases_overlap (sign_lease a x) (sign_lease a y) = leases_overlap x y"
  by (simp add: leases_overlap_def get_sign_lease cong: if_cong)

lemma anyR_map: "anyR p (map f xs) = anyR (\<lambda>x. p (f x)) xs"
  by (induction xs) (simp_all cong: if_cong)

lemma pair_overlap_sign_lease: "any_pair_overlap (map (sign_lease a) ls) = any_pair_overlap ls"
  by (induction ls) (simp_all add: anyR_map overlap_sign_lease cong: if_cong)

definition sign_group :: "string \<Rightarrow> string \<times> val list \<Rightarrow> string \<times> val list" where
  "sign_group a g = (fst g, map (sign_lease a) (snd g))"

lemma map_of_sign_group: "map_of (map (sign_group a) gs) k = map_option (map (sign_lease a)) (map_of gs k)"
  by (induction gs) (auto simp: sign_group_def)

lemma update_sign_group:
  "AList.update k (map (sign_lease a) xs) (map (sign_group a) gs) = map (sign_group a) (AList.update k xs gs)"
  by (induction gs) (auto simp: sign_group_def)

lemma group_add_sign_lease:
  "group_add k (sign_lease a x) (map (sign_group a) gs) = map (sign_group a) (group_add k x gs)"
  unfolding group_add_def update_sign_group [symmetric] map_of_sign_group
  by (cases "map_of gs k") simp_all

lemma bindR_if: "bindR (if b then m else m') f = (if b then bindR m f else bindR m' f)"
  by simp

lemma group_sign_lease:
  assumes "k \<noteq> ''agent_id''"
  shows "group_unreleased k (map (sign_lease a) ls) = bindR (group_unreleased k ls) (\<lambda>gs. Inr (map (sign_group a) gs))"
proof -
  define step where "step = (\<lambda>groups lease. bindR (get lease ''released_at'') (\<lambda>r. if is_none r
     then bindR (get lease k) (\<lambda>key. Inr (group_add (py_str key) lease groups)) else Inr groups))"
  have 1: "step (map (sign_group a) gs) (sign_lease a x) = bindR (step gs x) (\<lambda>gs. Inr (map (sign_group a) gs))" for gs x
    using assms by (simp add: step_def get_sign_lease group_add_sign_lease bindR_assoc bindR_if cong: if_cong)
  have "foldR step (map (sign_group a) gs) (map (sign_lease a) ls) = bindR (foldR step gs ls) (\<lambda>gs. Inr (map (sign_group a) gs))" for gs
    by (induction ls arbitrary: gs) (simp_all add: 1 bindR_assoc)
  from this [of "[]"] show ?thesis by (simp add: group_unreleased_def step_def)
qed

lemma foldR_map: "foldR f s (map g xs) = foldR (\<lambda>s x. f s (g x)) s xs"
  by (induction xs arbitrary: s) simp_all

lemma relabel_leases: "check_leases (ledger_val (relabel a l)) fs = check_leases (ledger_val l) fs"
proof -
  have m: "map lease_val (agent_leases (relabel a l)) = map (sign_lease a) (map lease_val (agent_leases l))"
    by (simp add: relabel_def sign_lease_val)
  show ?thesis
    unfolding check_leases_def get_ledger_val m
    by (simp add: group_sign_lease foldR_map sign_group_def pair_overlap_sign_lease split_def bindR_assoc del: map_map)
qed

lemma relabel_validate: "validate_ledger H (ledger_val (relabel a l)) = validate_ledger H (ledger_val l)"
proof -
  have "check_reconciliation (ledger_val (relabel a l)) = check_reconciliation (ledger_val l)"
    "check_scope (ledger_val (relabel a l)) = check_scope (ledger_val l)"
    "check_landing (ledger_val (relabel a l)) = check_landing (ledger_val l)"
    by (simp_all add: fun_eq_iff check_reconciliation_def check_scope_def check_landing_def get_ledger_val cong: if_cong)
  then show ?thesis
    unfolding validate_ledger_def get_ledger_val relabel_reads by (simp only: relabel_leases)
qed

lemma relabel_gate: "run_gate H (ledger_val (relabel a l)) g = run_gate H (ledger_val l) g"
  by (simp add: run_gate_def relabel_validate)

lemma relabel_same: "agent_leases l = [] \<Longrightarrow> relabel a l = l"
  by (simp add: relabel_def)

definition relabel_result :: "string \<Rightarrow> run_result \<Rightarrow> run_result" where
  "relabel_result a r = r\<lparr>rr_ledger := relabel a (rr_ledger r)\<rparr>"

lemma relabel_drive:
  "drive H a env mr bb gate manifest c (relabel a l) = map_io (relabel_result a) (drive H b env mr bb gate manifest c l)"
  by (simp add: drive_def push relabelled.loop_view [where b = b] relabel_reconcile relabel_gate Let_def split_def
      relabel_result_def)

section \<open>The two engines\<close>

lemma hermes_open: "hermes_open_task H env t acquired l = open_task H HERMES_AGENT_ID env t acquired l"
  by (simp add: hermes_open_task_def open_task_def Let_def liftI_bindR)

lemma hermes_task: "hermes_run_task H env mr bb node l = run_task H HERMES_AGENT_ID env mr bb node l"
  by (simp add: hermes_run_task_def run_task_def hermes_open Let_def cong: if_cong)

lemma hermes_loop:
  "hermes_drive_loop H env mr bb by_id order = drive_loop H HERMES_AGENT_ID env mr bb by_id order"
proof (induction order)
  case (Cons t order)
  show ?case
    by (rule ext)+ (simp add: Cons.IH hermes_task subset_iff Ball_def cong: if_cong)
qed (simp add: fun_eq_iff)

lemma hermes_drive_eq: "hermes_drive H env mr bb gate manifest c l = drive H HERMES_AGENT_ID env mr bb gate manifest c l"
  by (simp add: hermes_drive_def drive_def hermes_loop Let_def liftI_bindR liftI_Inr)

text \<open>
  C5. The engines agree. On every manifest, world and set of callables, and whatever happens -
  a finished run, a pause, an exception - a Hermes run makes exactly the effects of a Claude
  run and has its result, with \<open>hermes\<close> as the agent of every lease in place of \<open>claude\<close>. A run
  handed over on its ledger and resumed by the other engine goes on likewise.
\<close>

theorem engines_agree:
  "hermes_run H env mr bb gate manifest
     = map_io (relabel_result HERMES_AGENT_ID) (run H CLAUDE_AGENT_ID env mr bb gate manifest)
   \<and> hermes_resume H env mr bb gate manifest (relabel HERMES_AGENT_ID l)
     = map_io (relabel_result HERMES_AGENT_ID) (resume H CLAUDE_AGENT_ID env mr bb gate manifest l)"
proof
  have *: "hermes_drive H env mr bb gate manifest c (relabel HERMES_AGENT_ID l)
     = map_io (relabel_result HERMES_AGENT_ID) (drive H CLAUDE_AGENT_ID env mr bb gate manifest c l)" for c l
    unfolding hermes_drive_eq by (rule relabel_drive)
  have "hermes_drive H env mr bb gate manifest {} l
     = map_io (relabel_result HERMES_AGENT_ID) (drive H CLAUDE_AGENT_ID env mr bb gate manifest {} l)"
    if "init_ledger manifest = Inr l" for l
    using * [of "{}" l] relabel_same [OF init_ledger_fields(1) [OF that]] by simp
  then have "bindI (liftI (init_ledger manifest)) (hermes_drive H env mr bb gate manifest {})
     = bindI (liftI (init_ledger manifest)) (\<lambda>l. map_io (relabel_result HERMES_AGENT_ID) (drive H CLAUDE_AGENT_ID env mr bb gate manifest {} l))"
    by (cases "init_ledger manifest") (simp_all add: bind_liftI)
  then show "hermes_run H env mr bb gate manifest
     = map_io (relabel_result HERMES_AGENT_ID) (run H CLAUDE_AGENT_ID env mr bb gate manifest)"
    by (simp add: hermes_run_def run_def map_io_bind map_io_raise if_distrib [of "map_io f" for f] cong: if_cong)
  show "hermes_resume H env mr bb gate manifest (relabel HERMES_AGENT_ID l)
     = map_io (relabel_result HERMES_AGENT_ID) (resume H CLAUDE_AGENT_ID env mr bb gate manifest l)"
  proof -
    have "set_run_state ''running'' (relabel HERMES_AGENT_ID l) = relabel HERMES_AGENT_ID (set_run_state ''running'' l)"
      by (simp add: set_run_state_def relabel_def)
    then show ?thesis by (simp add: hermes_resume_def resume_def completed_ids_def *)
  qed
qed

end
