(* ===== verification/ResumeClaims.thy ===== *)
theory ResumeClaims
  imports RunClaims LedgerView
begin

text \<open>
  Properties of \<open>resume\<close>: what a second drive leaves alone, and that a pause followed by a
  resume is the run that was never paused.
\<close>

section \<open>The loop from any ledger\<close>

text \<open>
  The steps the loop makes when nothing is known of the ledger it starts from: a task ran, or
  was blocked by a lease held by another, or by a dependency that did not complete.
\<close>

definition blocks_task :: "digest \<Rightarrow> string \<Rightarrow> ledger \<Rightarrow> ledger \<Rightarrow> bool" where
  "blocks_task H t l l' \<longleftrightarrow> (\<exists>why st stamp bid. block_tail H t why st stamp (add_blocker bid t why l) = Inr l')"

lemma any_loop_rule:
  assumes "drive_loop H agent env mr bb by_id order c l w = (Inr (st, l'), w')"
    and k: "keyed by_id" and "J l" and "set order \<subseteq> S"
    and ran: "\<And>t l l' result n. J l \<Longrightarrow> t \<in> S \<Longrightarrow> \<not> is_done l t \<Longrightarrow> task_ran H agent t result n l l' \<Longrightarrow> J l'"
    and blocked: "\<And>t l l'. J l \<Longrightarrow> t \<in> S \<Longrightarrow> \<not> is_done l t \<Longrightarrow> blocks_task H t l l' \<Longrightarrow> J l'"
  shows "J l'"
  using assms(1,3,4)
proof (induction order arbitrary: c l w)
  case (Cons t rest)
  from Cons.prems(3) have tS: "t \<in> S" and restS: "set rest \<subseteq> S" by simp_all
  from Cons.prems(1) show ?case
  proof (cases rule: drive_loop_cases)
    case (skipped e)
    from skipped(3) Cons.prems(2) restS show ?thesis by (rule Cons.IH)
  next
    case (stopped e)
    with Cons.prems(2) show ?thesis by simp
  next
    case (ran e state w1 node deps l1 w2 e1)
    then have nd: "\<not> is_done l t" by (simp add: is_done_set)
    from k ran(5) obtain v where v: "item node ''task_id'' = Inr v" "py_str v = t" unfolding keyed_def by blast
    have bl: "J l1" if "block_tail H t why st stamp (add_blocker bid t why l) = Inr l1" for why st stamp bid
      using blocked [OF Cons.prems(2) tS nd, of l1] that unfolding blocks_task_def by blast
    have "J l1"
      by (rule run_task_cases [OF ran(8) v(1) v(2) [symmetric]])
        (use Cons.prems(2) bl assms(5) [OF Cons.prems(2) tS nd] in blast)+
    then show ?thesis using restS by (rule Cons.IH [OF ran(10)])
  next
    case (unmet e state w1 node deps l1 w2)
    then have nd: "\<not> is_done l t" by (simp add: is_done_set)
    obtain bid stamp where "block_tail H t ''dependency not satisfied'' ''pending'' stamp
        (add_blocker bid t ''dependency not satisfied'' l) = Inr l1"
      by (rule keyed_block_unmet [OF k unmet(5,8)])
    then have "J l1" using blocked [OF Cons.prems(2) tS nd, of l1] unfolding blocks_task_def by blast
    then show ?thesis using restS by (rule Cons.IH [OF unmet(9)])
  qed
qed simp

section \<open>Completed tasks are left alone\<close>

definition keeps_done :: "string set \<Rightarrow> ledger \<Rightarrow> ledger \<Rightarrow> bool" where
  "keeps_done D l l' \<longleftrightarrow> (\<forall>t \<in> D. find_task l' t = find_task l t)
     \<and> prefix (execution_log l) (execution_log l')
     \<and> (\<exists>es. map ev_sig (execution_log l') = map ev_sig (execution_log l) @ es \<and> (\<forall>(et, t, ps) \<in> set es. t \<notin> D))
     \<and> (\<exists>xs. saga_journal l' = saga_journal l @ xs \<and> (\<forall>x \<in> set xs. x_task_id x \<notin> D))
     \<and> (\<exists>ls. agent_leases l' = agent_leases l @ ls \<and> (\<forall>x \<in> set ls. l_task_id x \<notin> D))"

lemma keeps_done_refl [simp]: "keeps_done D l l"
  by (simp add: keeps_done_def)

lemma keeps_done_trans:
  assumes "keeps_done D a b" and "keeps_done D b c"
  shows "keeps_done D a c"
proof -
  from assms obtain es es' xs xs' ls ls' where
    "map ev_sig (execution_log b) = map ev_sig (execution_log a) @ es" "\<forall>(et, t, ps) \<in> set es. t \<notin> D"
    "map ev_sig (execution_log c) = map ev_sig (execution_log b) @ es'" "\<forall>(et, t, ps) \<in> set es'. t \<notin> D"
    "saga_journal b = saga_journal a @ xs" "\<forall>x \<in> set xs. x_task_id x \<notin> D"
    "saga_journal c = saga_journal b @ xs'" "\<forall>x \<in> set xs'. x_task_id x \<notin> D"
    "agent_leases b = agent_leases a @ ls" "\<forall>x \<in> set ls. l_task_id x \<notin> D"
    "agent_leases c = agent_leases b @ ls'" "\<forall>x \<in> set ls'. l_task_id x \<notin> D"
    unfolding keeps_done_def by blast
  moreover have "prefix (execution_log a) (execution_log c)"
    using assms prefix_order.trans unfolding keeps_done_def by blast
  moreover have "\<forall>t \<in> D. find_task c t = find_task a t"
    using assms unfolding keeps_done_def by simp
  ultimately show ?thesis unfolding keeps_done_def by (simp add: ball_Un)
qed

lemma touches_prefix: "touches H t l l' \<Longrightarrow> prefix (execution_log l) (execution_log l')"
  by (auto simp: touches_def extends_def)

lemma ran_sigs_subject: "(et, u, ps) \<in> set (ran_sigs t result) \<Longrightarrow> u = t"
  by (auto simp: ran_sigs_def success_sigs_def failure_sigs_def file_sigs_def split: if_splits)

lemma keeps_done_ran:
  assumes "task_ran H agent t result n l l'" and "t \<notin> D"
  shows "keeps_done D l l'"
proof -
  from assms(1) have m: "touches H t l l'"
    and es: "map ev_sig (execution_log l') = map ev_sig (execution_log l) @ ran_sigs t result"
    by (simp_all add: task_ran_def moves_def)
  from assms(1) obtain x y where "agent_leases l' = agent_leases l @ [x]" "l_task_id x = t"
    "saga_journal l' = saga_journal l @ [y]" "x_task_id y = t"
    unfolding task_ran_def ran_txn_def by blast
  moreover have "\<forall>u \<in> D. find_task l' u = find_task l u"
    using touches_find_other [OF m] assms(2) by metis
  moreover have "\<forall>(et, u, ps) \<in> set (ran_sigs t result). u \<notin> D"
    using ran_sigs_subject assms(2) by blast
  ultimately show ?thesis using es touches_prefix [OF m] assms(2) unfolding keeps_done_def by simp
qed

lemma keeps_done_blocked:
  assumes "blocks_task H t l l'" and "t \<notin> D"
  shows "keeps_done D l l'"
proof -
  from assms(1) obtain why st stamp bid where b: "block_tail H t why st stamp (add_blocker bid t why l) = Inr l'"
    unfolding blocks_task_def by blast
  note m = block_tail_moves [OF b]
  have "\<forall>u \<in> D. find_task l' u = find_task l u"
    using touches_find_other [OF moves_touches [OF m]] assms(2) by metis
  then show ?thesis
    using m touches_prefix [OF moves_touches [OF m]] block_tail_effect(3,4) [OF b] assms(2)
    unfolding keeps_done_def moves_def by simp
qed

text \<open>
  C16. Resume. Whatever ledger a resume starts from - paused, aborted, edited by an operator -
  the entry of every completed task stays as it is, no event, transaction or lease is written
  for it, and what the ledger held of log, transactions and leases stays in place, in order.
\<close>

theorem resume_keeps_completed:
  assumes "resume H agent env mr bb gate manifest l w = (Inr r, w')"
  shows "keeps_done {t. is_done l t} l (rr_ledger r)"
proof -
  let ?D = "{t. is_done l t}"
  from assms obtain graph by_id order st l1 w1 where
    g: "nodes_by_id graph = Inr by_id" and
    loop: "drive_loop H agent env mr bb by_id order (completed_ids l) (set_run_state ''running'' l) w = (Inr (st, l1), w1)"
    and r: "rr_ledger r = reconcile (set_run_state st l1)"
    unfolding resume_def by (rule drive_Inr)
  have frame: "keeps_done D a (reconcile (set_run_state s b)) = keeps_done D a b"
    "keeps_done D (set_run_state s a) b = keeps_done D a b" for D a b s
    by (simp_all add: keeps_done_def find_task_def)
  have "keeps_done ?D l l1"
  proof (rule any_loop_rule [where J = "keeps_done ?D l" and S = UNIV, OF loop nodes_by_id_keyed [OF g]])
    show "keeps_done ?D l (set_run_state ''running'' l)"
      by (simp add: keeps_done_def find_task_def)
    show "set order \<subseteq> UNIV" by simp
    have nd: "t \<notin> ?D" if "keeps_done ?D l a" "\<not> is_done a t" for a t
      using that is_done_cong [of a t l] by (auto simp: keeps_done_def)
    show "keeps_done ?D l b" if "keeps_done ?D l a" "\<not> is_done a t" "task_ran H agent t result n a b" for t a b result n
      by (rule keeps_done_trans [OF that(1) keeps_done_ran [OF that(3) nd [OF that(1,2)]]])
    show "keeps_done ?D l b" if "keeps_done ?D l a" "\<not> is_done a t" "blocks_task H t a b" for t a b
      by (rule keeps_done_trans [OF that(1) keeps_done_blocked [OF that(3) nd [OF that(1,2)]]])
  qed
  then show ?thesis by (simp add: r frame)
qed

section \<open>Pausing is invisible\<close>

lemma retry_control: "retry_loop (env\<lparr>control := k\<rparr>) node sc mr bb n = retry_loop env node sc mr bb n"
proof (induction env node sc mr bb n rule: retry_loop.induct)
  case (1 env node sc mr bb n)
  have "(if outcome r = ''success'' then retI (r, n + 1)
       else if retriable r \<and> n + 1 \<le> mr then bindI (sleep env (backoff (n + 1) bb)) (\<lambda>_.
              retry_loop (env\<lparr>control := k\<rparr>) node sc mr bb (n + 1)) else retI (r, n + 1))
    = (if outcome r = ''success'' then retI (r, n + 1)
       else if retriable r \<and> n + 1 \<le> mr then bindI (sleep env (backoff (n + 1) bb)) (\<lambda>_.
              retry_loop env node sc mr bb (n + 1)) else retI (r, n + 1))" for r
    using "1.IH" by simp
  then show ?case
    unfolding retry_loop.simps [of "env\<lparr>control := k\<rparr>" node sc mr bb n] retry_loop.simps [of env node sc mr bb n]
    by (simp cong: if_cong)
qed

lemma record_file_control: "record_file H (env\<lparr>control := k\<rparr>) = record_file H env"
  by (simp add: record_file_def fun_eq_iff)

lemma run_task_control: "run_task H agent (env\<lparr>control := k\<rparr>) mr bb node l = run_task H agent env mr bb node l"
  by (simp add: run_task_def execute_with_retry_def retry_control open_task_def complete_task_def fail_task_def
      escalate_def record_evidence_def record_file_control Let_def cong: option.case_cong if_cong)

lemma block_control: "block_unmet_deps H (env\<lparr>control := k\<rparr>) node l = block_unmet_deps H env node l"
  by (simp add: block_unmet_deps_def)

definition reads_flag :: "'w env \<Rightarrow> bool" where
  "reads_flag env \<longleftrightarrow> (\<forall>w. \<exists>s. control env w = (Inr s, w))"

definition unpaused :: "'w env \<Rightarrow> 'w env" where
  "unpaused env = env\<lparr>control := retI ''running''\<rparr>"

lemma run_loop_frame:
  assumes "drive_loop H agent env mr bb by_id order c l w = (Inr (st, l'), w')" and "keyed by_id" and "t \<notin> set order"
  shows "find_task l' t = find_task l t"
proof (rule any_loop_rule [where J = "\<lambda>l'. find_task l' t = find_task l t" and S = "set order", OF assms(1,2)])
  have other: "find_task b t = find_task l t" if "find_task a t = find_task l t" "u \<in> set order" "touches H u a b" for u a b
  proof -
    have "t \<noteq> u" using that(2) assms(3) by blast
    then show ?thesis using touches_find_other [OF that(3)] that(1) by simp
  qed
  show "find_task b t = find_task l t"
    if "find_task a t = find_task l t" "u \<in> set order" "task_ran H agent u result n a b" for u a b result n
    by (rule other [OF that(1,2) task_ran_touches [OF that(3)]])
  show "find_task b t = find_task l t"
    if "find_task a t = find_task l t" "u \<in> set order" "blocks_task H u a b" for u a b
  proof -
    from that(3) have "touches H u a b" unfolding blocks_task_def by (elim exE) (rule block_touches)
    then show ?thesis by (rule other [OF that(1,2)])
  qed
qed simp_all

lemma unpaused_step:
  assumes e: "find_task l t = Inr e" and nc: "te_status e \<noteq> ''completed''"
  shows "drive_loop H agent (unpaused env) mr bb by_id (t # rest) c l w =
      bindI (liftI (lookup_node by_id t)) (\<lambda>node.
      bindI (liftI (node_deps node)) (\<lambda>deps.
      if set deps \<subseteq> c
      then bindI (run_task H agent env mr bb node l) (\<lambda>l.
           bindI (liftI (find_task l t)) (\<lambda>e.
           drive_loop H agent (unpaused env) mr bb by_id rest
             (if te_status e = ''completed'' then insert t c else c) l))
      else bindI (block_unmet_deps H env node l) (\<lambda>l.
           drive_loop H agent (unpaused env) mr bb by_id rest c l))) w"
  by (simp add: e nc unpaused_def stops_def run_task_control block_control cong: if_cong)

text \<open>
  The loop stopped by its control flag, and the loop without the flag: going on from the ledger
  and world where the first stopped is the same as having started without it.
\<close>

lemma loop_split:
  assumes "drive_loop H agent env mr bb by_id order c l w = (Inr (st, l1), w1)" and "fresh order c l" and k: "keyed by_id"
    and q: "reads_flag env"
    and nb: "\<And>t e. t \<in> set order \<Longrightarrow> find_task l1 t = Inr e \<Longrightarrow> te_status e \<noteq> ''blocked''"
  shows "drive_loop H agent (unpaused env) mr bb by_id order c l w
       = drive_loop H agent (unpaused env) mr bb by_id order {t. is_done l1 t} l1 w1
     \<and> (stops st \<longrightarrow> (\<exists>t. is_pending l1 t))"
  using assms(1,2,5)
proof (induction order arbitrary: c l w)
  case Nil
  then show ?case by (auto simp: stops_def)
next
  case (Cons t rest)
  obtain e where e: "find_task l t = Inr e" using Cons.prems(1) by (auto simp: bindI_Inr_iff)
  with Cons.prems(2) have p: "te_status e = ''pending''" by (simp add: fresh_def)
  then have nd: "\<not> is_done l t" by (simp add: is_done_set [OF e])
  have dist: "t \<notin> set rest" using Cons.prems(2) by (simp add: fresh_def)
  from Cons.prems(1) show ?case
  proof (cases rule: drive_loop_cases)
    case (skipped e')
    with e p show ?thesis by simp
  next
    case (stopped e')
    then have "w1 = w" using q unfolding reads_flag_def by (metis prod.inject)
    moreover have "is_pending l t" using e p by (simp add: is_pending_def)
    ultimately show ?thesis using stopped(5) Cons.prems(2) by (auto simp: fresh_def)
  next
    case (ran e' state w' node deps l2 w2 e2)
    then have w': "w' = w" using q unfolding reads_flag_def by (metis prod.inject)
    obtain result n where ran1: "task_ran H agent t result n l l2"
      by (rule fresh_run_task [OF Cons.prems(2) k ran(5,8)])
    have e1: "find_task l1 t = Inr e2" using run_loop_frame [OF ran(10) k dist] ran(9) by simp
    from ran1 obtain e0 where "ran_entry result e0 e2" using ran(9) unfolding task_ran_def by auto
    from ran_entry_status [OF this] have s: "succeeded result" "te_status e2 = ''completed''"
      using Cons.prems(3) [OF _ e1] by (auto split: if_splits)
    then have c: "(if te_status e2 = ''completed'' then insert t c else c) = (if succeeded result then insert t c else c)" by simp
    note IH = Cons.IH [OF ran(10) [unfolded c] fresh_ran [OF Cons.prems(2) ran1 nd] Cons.prems(3) [OF list.set_intros(2)]]
    have "is_done l1 t" using e1 s by (simp add: is_done_set)
    then have "insert t {t. is_done l1 t} = {t. is_done l1 t}" by blast
    then have "drive_loop H agent (unpaused env) mr bb by_id (t # rest) {t. is_done l1 t} l1 w1
        = drive_loop H agent (unpaused env) mr bb by_id rest {t. is_done l1 t} l1 w1"
      using e1 s by simp
    moreover have "drive_loop H agent (unpaused env) mr bb by_id (t # rest) c l w
        = drive_loop H agent (unpaused env) mr bb by_id rest (if succeeded result then insert t c else c) l2 w2"
      unfolding unpaused_step [OF ran(1,2)] using s ran
      by (simp add: bindI_app [of "run_task H agent env mr bb node l"] w')
    ultimately show ?thesis using IH by simp
  next
    case (unmet e' state w' node deps l2 w2)
    obtain bid stamp where bt: "block_tail H t ''dependency not satisfied'' ''pending'' stamp
        (add_blocker bid t ''dependency not satisfied'' l) = Inr l2"
      by (rule keyed_block_unmet [OF k unmet(5,8)])
    from block_tail_effect(2) [OF bt] obtain e2 where "find_task l2 t = Inr e2" "te_status e2 = ''blocked''"
      by (auto simp: blocked_entry_def)
    then show ?thesis using Cons.prems(3) [of t e2] run_loop_frame [OF unmet(9) k dist] by simp
  qed
qed

section \<open>From the loop to the run\<close>

text \<open>The ids \<open>resume\<close> collects are the tasks that are completed.\<close>

lemma completed_step:
  assumes inv: "completed_ids l = {u. is_done l u}" and m: "touches H t l l'"
    and e: "find_task l t = Inr e" "find_task l' t = Inr e'" and p: "te_status e = ''pending''"
  shows "completed_ids l' = {u. is_done l' u}"
proof -
  obtain us vs where ts: "task_ledger l = us @ e # vs" "task_ledger l' = us @ e' # vs"
    by (rule touches_members [OF m e])
  have id: "py_str (te_task_id e') = t" using find_task_Inr [OF e(2)] by auto
  have rest: "completed_ids l = (\<lambda>x. py_str (te_task_id x)) ` {x \<in> set us \<union> set vs. te_status x = ''completed''}"
    using p unfolding completed_ids_def ts(1) by auto
  have "completed_ids l' = completed_ids l \<union> (if te_status e' = ''completed'' then {t} else {})"
    using id unfolding rest unfolding completed_ids_def ts(2) by auto
  moreover have "is_done l' u = (if u = t then te_status e' = ''completed'' else is_done l u)" for u
    using is_done_cong [OF touches_find_other [OF m, of u]] by (auto simp: is_done_set [OF e(2)])
  moreover have "\<not> is_done l t" using p by (simp add: is_done_set [OF e(1)])
  ultimately show ?thesis using inv by auto
qed

lemma run_completed_ids:
  assumes "run H agent env mr bb gate manifest w = (Inr r, w')"
  shows "completed_ids (rr_ledger r) = {u. is_done (rr_ledger r) u}"
proof -
  obtain l st where r: "rr_ledger r = reconcile (set_run_state st l)" and l: "completed_ids l = {u. is_done l u}"
  proof (rule run_rule [where J = "\<lambda>_ l. completed_ids l = {u. is_done l u}", OF assms])
    show "completed_ids l = {u. is_done l u}" if i: "init_ledger manifest = Inr l" for l
    proof -
      have "\<not> is_done l u" for u
        using init_ledger_tasks [OF i] find_task_Inr by (fastforce simp: is_done_def split: sum.splits)
      moreover have "completed_ids l = {}" using init_ledger_tasks [OF i] by (auto simp: completed_ids_def)
      ultimately show ?thesis by simp
    qed
    show "completed_ids l' = {u. is_done l' u}"
      if "completed_ids l = {u. is_done l u}" "is_pending l t" "task_ran H agent t result n l l'" for t l l' result n
    proof -
      from that(3) obtain e e' where "find_task l t = Inr e" "find_task l' t = Inr e'" unfolding task_ran_def by blast
      then show ?thesis
        using completed_step [OF that(1) task_ran_touches [OF that(3)]] that(2) by (simp add: is_pending_def)
    qed
    show "completed_ids l' = {u. is_done l' u}"
      if "completed_ids l = {u. is_done l u}" "is_pending l t"
        "block_tail H t ''dependency not satisfied'' ''pending'' stamp (add_blocker bid t ''dependency not satisfied'' l) = Inr l'"
      for t l l' stamp bid
    proof -
      from block_tail_effect(2) [OF that(3)] obtain e e' where "find_task l t = Inr e" "find_task l' t = Inr e'"
        by auto
      then show ?thesis
        using completed_step [OF that(1) block_touches [OF that(3)]] that(2) by (simp add: is_pending_def)
    qed
  qed blast
  have "completed_ids (rr_ledger r) = completed_ids l" by (simp add: completed_ids_def r)
  moreover have "is_done (rr_ledger r) u = is_done l u" for u by (rule is_done_cong) (simp add: r find_task_def)
  ultimately show ?thesis using l by simp
qed

text \<open>What a stop leaves in the control block and the reconciliation is overwritten by the next drive.\<close>

definition restamp :: "reconciliation \<Rightarrow> string \<Rightarrow> ledger \<Rightarrow> ledger" where
  "restamp x s l = l\<lparr>reconciled := x, ledger_control := (ledger_control l)\<lparr>run_state := s\<rparr>\<rparr>"

interpretation stamped: ledger_view "restamp x s" a a for x s a
  by unfold_locales (simp_all add: restamp_def add_history_def add_blocker_def add_lease_def set_lease_def)

lemma reconcile_restamp: "reconcile (set_run_state st (restamp x s l)) = reconcile (set_run_state st l)"
  by (simp add: reconcile_def set_run_state_def restamp_def Let_def)

lemma drive_restamp: "drive H a env mr bb gate manifest c (restamp x s l) = drive H a env mr bb gate manifest c l"
  by (simp add: drive_def push stamped.loop_view reconcile_restamp Let_def split_def)

lemma drive_loop_cong:
  assumes "graph_of manifest = Inr graph" "nodes_by_id graph = Inr by_id" "topo_order graph = Inr order"
    and "drive_loop H a env mr bb by_id order c l w = drive_loop H a env mr bb by_id order c' l' w'"
  shows "drive H a env mr bb gate manifest c l w = drive H a env mr bb gate manifest c' l' w'"
  using assms unfolding drive_def graph_of_def [symmetric] by (simp add: bindI_app [of "drive_loop H a env mr bb by_id order _ _"])

lemma run_unfold:
  assumes "validate_intake manifest = Inr fs" "status_of fs \<noteq> ''fail''" "init_ledger manifest = Inr l"
  shows "run H a env mr bb gate manifest w = drive H a env mr bb gate manifest {} l w"
  using assms by (simp add: run_def bind_liftI)

text \<open>
  C6. Pausing is invisible. Let a run be stopped by its control flag with no task blocked, and
  let reading the flag change nothing. Resuming it, from the ledger and the world it stopped in,
  is the run that was never stopped: the same effects, the same exceptions, the same ledger and
  the same verdict, from the first event to the last.
\<close>

theorem pause_invisible:
  assumes run: "run H a env mr bb gate manifest w = (Inr r, w1)"
    and flag: "reads_flag env"
    and stopped: "stops (run_state (ledger_control (rr_ledger r)))"
    and nb: "\<forall>e \<in> set (task_ledger (rr_ledger r)). te_status e \<noteq> ''blocked''"
  shows "resume H a (unpaused env) mr bb gate manifest (rr_ledger r) w1
       = run H a (unpaused env) mr bb gate manifest w"
proof -
  obtain fs l0 where v: "validate_intake manifest = Inr fs" "status_of fs \<noteq> ''fail''" "init_ledger manifest = Inr l0"
    and d: "drive H a env mr bb gate manifest {} l0 w = (Inr r, w1)" by (rule run_Inr [OF run])
  obtain graph by_id order st l1 w2 where
    g: "graph_of manifest = Inr graph" "nodes_by_id graph = Inr by_id" "topo_order graph = Inr order"
    and loop: "drive_loop H a env mr bb by_id order {} l0 w = (Inr (st, l1), w2)"
    and r: "rr_ledger r = reconcile (set_run_state st l1)" by (rule drive_Inr [OF d])
  have w2: "w2 = w1"
    using d g loop unfolding drive_def graph_of_def [symmetric]
    by (auto simp: bindI_app Let_def liftI_def bindR_def split: sum.splits)
  have stop: "stops st" using stopped by (simp add: r)
  have tasks: "task_ledger (rr_ledger r) = task_ledger l1" by (simp add: r)
  have nb1: "te_status e \<noteq> ''blocked''" if "t \<in> set order" "find_task l1 t = Inr e" for t e
    using nb find_task_Inr [OF that(2)] by (simp add: tasks)
  have s: "drive_loop H a (unpaused env) mr bb by_id order {} l0 w
       = drive_loop H a (unpaused env) mr bb by_id order {t. is_done l1 t} l1 w2 \<and> (stops st \<longrightarrow> (\<exists>t. is_pending l1 t))"
    by (rule loop_split [OF loop init_fresh [OF v(3) topo_order_distinct [OF g(3)]] nodes_by_id_keyed [OF g(2)] flag])
      (rule nb1)
  from s stop obtain t where "is_pending l1 t" by blast
  then obtain e where e: "e \<in> set (task_ledger l1)" "te_status e = ''pending''"
    using find_task_Inr by (fastforce simp: is_pending_def split: sum.splits)
  then have p: "filter is_open (task_ledger l1) \<noteq> []" by (auto simp: filter_empty_conv is_open_def)
  have b: "blockers l1 = []"
  proof (rule ccontr)
    assume "blockers l1 \<noteq> []"
    then have "hd (blockers l1) \<in> set (blockers (rr_ledger r))" by (simp add: r)
    then show False using run_entries [OF run] nb unfolding entries_inv_def by blast
  qed
  have rr: "set_run_state ''running'' (rr_ledger r) = restamp (reconciled (rr_ledger r)) ''running'' l1"
    using p b by (simp add: r reconcile_def set_run_state_def restamp_def Let_def)
  have cs: "completed_ids (rr_ledger r) = {u. is_done l1 u}"
    unfolding run_completed_ids [OF run] using is_done_cong [of "rr_ledger r" _ l1] by (auto simp: find_task_def tasks)
  have "drive H a (unpaused env) mr bb gate manifest {} l0 w = drive H a (unpaused env) mr bb gate manifest {u. is_done l1 u} l1 w2"
    by (rule drive_loop_cong [OF g]) (use s in blast)
  then show ?thesis
    by (simp add: resume_def rr cs drive_restamp run_unfold [OF v] w2)
qed

section \<open>A run stopped after its first task\<close>

definition nap_env :: "nat env" where
  "nap_env = \<lparr>clock = retI ''t'', ids = retI, sleep = (\<lambda>_. retI ()),
     control = (\<lambda>w. (Inr (if w = 1 then ''paused'' else ''running''), w)),
     execute = (\<lambda>t s w. (Inr ex_good, w + 1)), compensate = (\<lambda>_. retI ()),
     git_has_changes = (\<lambda>_. retI True), git_commit_all = (\<lambda>_ _ _. retI ''sha'')\<rparr>"

lemma nap_fields:
  "clock nap_env = retI ''t''" "ids nap_env = retI" "execute nap_env = (\<lambda>t s w. (Inr ex_good, w + 1))"
  "control nap_env = (\<lambda>w. (Inr (if w = 1 then ''paused'' else ''running''), w))"
  by (simp_all add: nap_env_def)

definition nap_final :: ledger where
  "nap_final = ex_ledger\<lparr>task_ledger := [ex_done_entry ''T1'', ex_entry ''T2''],
     agent_leases := [ex_lease ''T1''], execution_evidence := [ex_evidence ''T1''],
     saga_journal := [ex_txn ''T1''],
     execution_history := [ex_step ''T1'' ''pending'' ''in_progress'', ex_step ''T1'' ''in_progress'' ''completed''],
     execution_log := [ex_event 1 VNone ''task_started'' ''T1'' [],
        ex_event 2 (VStr ''sha256:h'') ''file_edited'' ''T1'' [''src/a''],
        ex_event 3 (VStr ''sha256:h'') ''task_completed'' ''T1'' []]\<rparr>"

lemma nap_drive:
  "drive_loop ex_digest ''claude'' nap_env 0 0
     [(''T1'', ex_task ''T1'' []), (''T2'', ex_task ''T2'' [''T1''])] [''T1'', ''T2''] {} ex_ledger 0
   = (Inr (''paused'', nap_final), 1)"
  by (simp add: loop_eval final_eval nap_final_def nap_fields cong: bindI_stop bindI_stop2 bindR_weak let_weak_cong)

definition nap_result :: run_result where
  "nap_result = \<lparr>rr_ledger = reconcile (set_run_state ''paused'' nap_final),
     rr_gate = \<lparr>g_status = ''passed'', g_rules = map (\<lambda>(i, ids). gate_rule_result {} i ids) default_rules\<rparr>\<rparr>"

lemma nap_findings: "validate_ledger ex_digest (ledger_val (reconcile (set_run_state ''paused'' nap_final))) = Inr []"
  by code_simp

lemma nap_run: "run ex_digest ''claude'' nap_env 0 0 VNone ex_manifest 0 = (Inr nap_result, 1)"
proof -
  have n: "or_else VNone default_gate = default_gate" by (simp add: or_else_def)
  have st: "status_of [] = ''pass''" by (simp add: status_of_def)
  show ?thesis
    using run_default_gate [OF nap_findings]
    by (simp add: run_def ex_validate st ex_init drive_def ex_graph [simplified] ex_nodes ex_order nap_drive
        bindI_app n Let_def nap_result_def del: drive_loop.simps)
qed

lemma nap_stopped:
  "reads_flag nap_env" "stops (run_state (ledger_control (rr_ledger nap_result)))"
  "\<forall>e \<in> set (task_ledger (rr_ledger nap_result)). te_status e \<noteq> ''blocked''"
  by (simp_all add: reads_flag_def nap_fields nap_result_def stops_def nap_final_def ex_done_entry_def ex_entry_def)

theorem pause_invisible_witness:
  "resume ex_digest ''claude'' (unpaused nap_env) 0 0 VNone ex_manifest (rr_ledger nap_result) 1
     = run ex_digest ''claude'' (unpaused nap_env) 0 0 VNone ex_manifest 0"
  by (rule pause_invisible [OF nap_run nap_stopped])

lemma completed_ids_list:
  "completed_ids l = set (map (\<lambda>t. py_str (te_task_id t)) (filter (\<lambda>t. te_status t = ''completed'') (task_ledger l)))"
  by (simp add: completed_ids_def)

lemma nap_resumed:
  "resume ex_digest ''claude'' (unpaused nap_env) 0 0 VNone ex_manifest (rr_ledger nap_result) 1 = (Inr ex_result, 2)"
proof -
  have l: "set_run_state ''running'' (rr_ledger nap_result) = restamp (reconciled (rr_ledger nap_result)) ''running'' nap_final"
    by (simp add: nap_result_def nap_final_def reconcile_def set_run_state_def restamp_def ex_ledger_def Let_def
        is_open_def ex_entry_def ex_done_entry_def)
  have c: "completed_ids (rr_ledger nap_result) = {''T1''}"
    by (simp add: completed_ids_list nap_result_def nap_final_def ex_entry_def ex_done_entry_def)
  have u: "clock (unpaused nap_env) = retI ''t''" "ids (unpaused nap_env) = retI"
    "execute (unpaused nap_env) = (\<lambda>t s w. (Inr ex_good, w + 1))" "control (unpaused nap_env) = retI ''running''"
    by (simp_all add: unpaused_def nap_env_def)
  have d: "drive_loop ex_digest ''claude'' (unpaused nap_env) 0 0
     [(''T1'', ex_task ''T1'' []), (''T2'', ex_task ''T2'' [''T1''])] [''T1'', ''T2''] {''T1''} nap_final 1
     = (Inr (''completed'', ex_final), 2)"
    by (simp add: loop_eval final_eval nap_final_def u cong: bindI_stop bindI_stop2 bindR_weak let_weak_cong)
  have n: "or_else VNone default_gate = default_gate" by (simp add: or_else_def)
  have g: "run_gate ex_digest (ledger_val (reconcile (set_run_state ''completed'' ex_final))) default_gate
      = Inr (rr_gate ex_result)"
    using run_default_gate [OF ex_gate_findings] by (simp add: ex_result_def)
  show ?thesis
    unfolding resume_def l c drive_restamp
    by (simp add: drive_def ex_graph [simplified] ex_nodes ex_order d bindI_app n g Let_def del: drive_loop.simps One_nat_def)
      (simp add: ex_result_def)
qed

theorem resume_keeps_completed_witness:
  "keeps_done {t. is_done (rr_ledger nap_result) t} (rr_ledger nap_result) (rr_ledger ex_result)"
  by (rule resume_keeps_completed [OF nap_resumed])

end
