(* ===== verification/Parser.thy ===== *)
theory Parser
  imports Cli
begin

text \<open>
  The argument parser (\<open>_build_parser\<close> of \<open>cli/commands.py\<close>): the table of commands with their
  positionals and options, the part of Python's \<open>argparse\<close> it relies on (one sub-command, single
  and optional positionals, choices, \<open>--name value\<close>, \<open>--name=value\<close>, unique prefixes of a name,
  flags, required options, \<open>-h\<close>; as of Python 3.11), and the command a namespace stands for.

  Both engines build the same parser but for the program name. A usage error ends the process
  with status 2, \<open>-h\<close> with 0; the texts printed are not modelled, nor is the separator \<open>--\<close>,
  whose treatment differs between versions of Python: a line with it has no result here.
\<close>

section \<open>The table\<close>

record positional =
  p_name :: string
  p_choices :: "string list option"
  p_optional :: bool

record option_spec =
  o_name :: string
  o_flag :: bool
  o_required :: bool
  o_default :: "string option"

definition pos :: "string \<Rightarrow> positional" where
  "pos n = \<lparr>p_name = n, p_choices = None, p_optional = False\<rparr>"

definition choice :: "string \<Rightarrow> string list \<Rightarrow> positional" where
  "choice n cs = \<lparr>p_name = n, p_choices = Some cs, p_optional = False\<rparr>"

definition maybe :: "string \<Rightarrow> positional" where
  "maybe n = \<lparr>p_name = n, p_choices = None, p_optional = True\<rparr>"

definition opt :: "string \<Rightarrow> option_spec" where
  "opt n = \<lparr>o_name = n, o_flag = False, o_required = False, o_default = None\<rparr>"

definition DEFAULT_STORE :: string where
  "DEFAULT_STORE = ''.iops/ledgers''"

definition store_opt :: option_spec where
  "store_opt = (opt ''--store'')\<lparr>o_default := Some DEFAULT_STORE\<rparr>"

definition commands :: "(string \<times> positional list \<times> option_spec list) list" where
  "commands = [
     (''ledger'', [choice ''action'' [''validate''], pos ''path''], []),
     (''gate'', [choice ''action'' [''run''], pos ''ledger'', pos ''gate''], []),
     (''audit'', [choice ''action'' [''report''], pos ''baseline'', pos ''comparison''], []),
     (''monitor'', [choice ''action'' [''validate'', ''slo-check''], pos ''manifest'', maybe ''samples''], []),
     (''intake'', [maybe ''iplan''], [opt ''--payload'']),
     (''emit-events'', [pos ''ledger''],
        [(opt ''--payload'')\<lparr>o_required := True\<rparr>, (opt ''--key-env'')\<lparr>o_default := Some ''IOPS_SIGNING_KEY''\<rparr>,
         opt ''--key-id'']),
     (''handover'', [pos ''ledger'', pos ''gate''], []),
     (''run'', [pos ''iplan''],
        [store_opt, opt ''--actions'', (opt ''--workspace'')\<lparr>o_default := Some ''.''\<rparr>,
         (opt ''--land'')\<lparr>o_flag := True\<rparr>, (opt ''--branch'')\<lparr>o_default := Some ''iops/run''\<rparr>]),
     (''status'', [maybe ''ledger_id''], [store_opt]),
     (''verify'', [pos ''ledger''], [(opt ''--key'')\<lparr>o_required := True\<rparr>]),
     (''sync'', [pos ''ledger_id''],
        [store_opt, opt ''--config'', opt ''--payload'', (opt ''--key-env'')\<lparr>o_default := Some ''IOPS_SIGNING_KEY''\<rparr>,
         opt ''--key-id'', (opt ''--dry-run'')\<lparr>o_flag := True\<rparr>]),
     (''server'', [], [opt ''--config'', store_opt]),
     (''pause'', [pos ''ledger_id''], [store_opt]),
     (''abort'', [pos ''ledger_id''], [store_opt]),
     (''resume'', [pos ''iplan''], [store_opt]),
     (''resolve'', [pos ''ledger_id'', pos ''blocker_id'', choice ''decision'' [''approve'', ''reject'', ''override'']],
        [store_opt, (opt ''--role'')\<lparr>o_default := Some ''operator''\<rparr>]),
     (''run-chain'', [pos ''chain_file''], [])]"

section \<open>Tokens\<close>

datatype token = Arg string | Opt string "string option" | Short string | Unknown | Ambiguous

definition all_digits :: "string \<Rightarrow> bool" where
  "all_digits s = list_all is_digit s"

text \<open>\<open>^-\d+$|^-\d*\.\d+$\<close>.\<close>

definition negative_number :: "string \<Rightarrow> bool" where
  "negative_number s = (case s of
      CHR ''-'' # ds \<Rightarrow> (ds \<noteq> [] \<and> all_digits ds)
        \<or> (case split_on (CHR ''.'') ds of [a, b] \<Rightarrow> all_digits a \<and> b \<noteq> [] \<and> all_digits b | _ \<Rightarrow> False)
    | _ \<Rightarrow> False)"

text \<open>\<open>s.split("=", 1)\<close> where there is one.\<close>

definition split_eq :: "string \<Rightarrow> string \<times> string option" where
  "split_eq s = (case dropWhile (\<lambda>c. c \<noteq> CHR ''='') s of
      [] \<Rightarrow> (s, None) | _ # v \<Rightarrow> (takeWhile (\<lambda>c. c \<noteq> CHR ''='') s, Some v))"

text \<open>\<open>_parse_optional\<close>: what an argument is, given the option strings of the parser.\<close>

definition classify_arg :: "string list \<Rightarrow> string \<Rightarrow> token" where
  "classify_arg names s =
     (if s = [] \<or> hd s \<noteq> CHR ''-'' \<or> s = ''-'' then Arg s
      else if s \<in> set names then Opt s None
      else let (name, v) = split_eq s in
      if v \<noteq> None \<and> name \<in> set names then Opt name v
      else if prefix ''-h'' s then Short (drop 2 s)
      else (case (if prefix ''--'' s then filter (prefix name) names else []) of
         [n] \<Rightarrow> Opt n v
       | [] \<Rightarrow> if negative_number s \<or> CHR '' '' \<in> set s then Arg s else Unknown
       | _ \<Rightarrow> Ambiguous))"

section \<open>Parsing\<close>

datatype 'a parsed = Parsed 'a | Help | Usage

type_synonym namespace = "(string \<times> string) list"

text \<open>Help asked for by \<open>-h\<close>, \<open>--help\<close> or \<open>-h\<close> with letters after it, which are read as further flags.\<close>

fun short_help :: "string \<Rightarrow> 'a parsed" where
  "short_help [] = Help"
| "short_help (c # cs) =
     (if c = CHR ''-'' then Usage
      else if c \<noteq> CHR ''h'' then Help
      else (case cs of d # _ \<Rightarrow> if d = CHR ''='' then Usage else short_help cs | [] \<Rightarrow> Help))"

definition help_result :: "string option \<Rightarrow> 'a parsed" where
  "help_result explicit = (if explicit = None then Help else Usage)"

text \<open>\<open>consume_positionals\<close> on a run of plain arguments: the positionals left, the namespace, the arguments left.\<close>

fun assign :: "positional list \<Rightarrow> string list \<Rightarrow> namespace \<Rightarrow> (positional list \<times> namespace \<times> string list) option" where
  "assign [] args ns = Some ([], ns, args)"
| "assign (p # ps) [] ns = (if p_optional p then assign ps [] ns else Some (p # ps, ns, []))"
| "assign (p # ps) (a # args) ns =
     (if (case p_choices p of None \<Rightarrow> True | Some cs \<Rightarrow> a \<in> set cs) then assign ps args ((p_name p, a) # ns) else None)"

definition is_arg :: "token \<Rightarrow> bool" where
  "is_arg t = (case t of Arg _ \<Rightarrow> True | _ \<Rightarrow> False)"

definition arg_text :: "token \<Rightarrow> string" where
  "arg_text t = (case t of Arg s \<Rightarrow> s | _ \<Rightarrow> [])"

definition finish :: "option_spec list \<Rightarrow> positional list \<Rightarrow> namespace \<Rightarrow> bool \<Rightarrow> namespace parsed" where
  "finish os ps ns extras =
     (if list_all p_optional ps \<and> list_all (\<lambda>oo. o_required oo \<longrightarrow> map_of ns (o_name oo) \<noteq> None) os \<and> \<not> extras
      then Parsed ns else Usage)"

function parse_tokens ::
  "option_spec list \<Rightarrow> token list \<Rightarrow> positional list \<Rightarrow> namespace \<Rightarrow> bool \<Rightarrow> namespace parsed" where
  "parse_tokens os [] ps ns extras = finish os ps ns extras"
| "parse_tokens os (Arg a # ts) ps ns extras =
     (case assign ps (a # map arg_text (takeWhile is_arg ts)) ns of
        None \<Rightarrow> Usage
      | Some (ps', ns', rest) \<Rightarrow> parse_tokens os (dropWhile is_arg ts) ps' ns' (extras \<or> rest \<noteq> []))"
| "parse_tokens os (Opt n v # ts) ps ns extras =
     (case find (\<lambda>oo. o_name oo = n) os of
        None \<Rightarrow> help_result v
      | Some oo \<Rightarrow>
          if o_flag oo then (if v = None then parse_tokens os ts ps ((n, ''True'') # ns) extras else Usage)
          else (case v of
              Some x \<Rightarrow> parse_tokens os ts ps ((n, x) # ns) extras
            | None \<Rightarrow> (case ts of Arg x # ts' \<Rightarrow> parse_tokens os ts' ps ((n, x) # ns) extras | _ \<Rightarrow> Usage)))"
| "parse_tokens os (Short cs # ts) ps ns extras = short_help cs"
| "parse_tokens os (Unknown # ts) ps ns extras = parse_tokens os ts ps ns True"
| "parse_tokens os (Ambiguous # ts) ps ns extras = Usage"
  by pat_completeness auto
termination
  by (relation "measure (\<lambda>(os, ts, ps, ns, extras). length ts)")
    (auto intro: le_less_trans [OF length_dropWhile_le])

definition parse_sub :: "positional list \<Rightarrow> option_spec list \<Rightarrow> string list \<Rightarrow> namespace parsed" where
  "parse_sub ps os argv =
     (let ts = map (classify_arg (''-h'' # ''--help'' # map o_name os)) argv in
      if Ambiguous \<in> set ts then Usage else parse_tokens os ts ps [] False)"

text \<open>
  The outer parser: options before the command (only \<open>-h\<close> is one), then the command. An unknown
  option in front does not stop the parsing; it is reported when everything else went well.
\<close>

fun parse_line :: "string list \<Rightarrow> (string \<times> namespace) parsed" where
  "parse_line [] = Usage"
| "parse_line (a # argv) = (case classify_arg [''-h'', ''--help''] a of
      Arg name \<Rightarrow> (case map_of commands name of
          None \<Rightarrow> Usage
        | Some (ps, os) \<Rightarrow> (case parse_sub ps os argv of
              Parsed ns \<Rightarrow> Parsed (name, ns) | Help \<Rightarrow> Help | Usage \<Rightarrow> Usage))
    | Opt n v \<Rightarrow> help_result v
    | Short cs \<Rightarrow> short_help cs
    | Unknown \<Rightarrow> (case parse_line argv of Help \<Rightarrow> Help | _ \<Rightarrow> Usage)
    | Ambiguous \<Rightarrow> Usage)"

section \<open>The command of a namespace\<close>

datatype invocation = Invoke command | Serve "string option"

definition val_of :: "namespace \<Rightarrow> string \<Rightarrow> string" where
  "val_of ns n = (case map_of ns n of Some v \<Rightarrow> v | None \<Rightarrow> [])"

definition val_or :: "namespace \<Rightarrow> string \<Rightarrow> string \<Rightarrow> string" where
  "val_or ns n d = (case map_of ns n of Some v \<Rightarrow> v | None \<Rightarrow> d)"

definition flag_of :: "namespace \<Rightarrow> string \<Rightarrow> bool" where
  "flag_of ns n = (map_of ns n \<noteq> None)"

definition store_of :: "namespace \<Rightarrow> string" where
  "store_of ns = val_or ns ''--store'' DEFAULT_STORE"

text \<open>The tests of \<open>args.command\<close> in \<open>main\<close>, in their order.\<close>

definition command_of :: "string \<Rightarrow> namespace \<Rightarrow> invocation" where
  "command_of name ns =
     (if name = ''ledger'' then Invoke (Ledger_Validate (val_of ns ''path''))
      else if name = ''gate'' then Invoke (Gate_Run (val_of ns ''ledger'') (val_of ns ''gate''))
      else if name = ''audit'' then Invoke (Audit_Report (val_of ns ''baseline'') (val_of ns ''comparison''))
      else if name = ''monitor'' then
        (if val_of ns ''action'' = ''validate'' then Invoke (Monitor_Validate (val_of ns ''manifest''))
         else Invoke (Monitor_Slo_Check (val_of ns ''manifest'') (map_of ns ''samples'')))
      else if name = ''intake'' then Invoke (Intake_Doc (map_of ns ''iplan'') (map_of ns ''--payload''))
      else if name = ''emit-events'' then Invoke (Emit_Events (val_of ns ''ledger'') (val_of ns ''--payload'')
        (val_or ns ''--key-env'' ''IOPS_SIGNING_KEY'') (map_of ns ''--key-id''))
      else if name = ''handover'' then Invoke (Handover_Receipt (val_of ns ''ledger'') (val_of ns ''gate''))
      else if name = ''run'' then Invoke (Run_Iplan \<lparr>ra_iplan = val_of ns ''iplan'', ra_actions = map_of ns ''--actions'',
        ra_workspace = val_or ns ''--workspace'' ''.'', ra_land = flag_of ns ''--land'',
        ra_branch = val_or ns ''--branch'' ''iops/run''\<rparr>)
      else if name = ''status'' then Invoke (Status (map_of ns ''ledger_id''))
      else if name = ''verify'' then Invoke (Verify (val_of ns ''ledger'') (val_of ns ''--key''))
      else if name = ''sync'' then Invoke (Sync \<lparr>sy_ledger = val_of ns ''ledger_id'', sy_config = map_of ns ''--config'',
        sy_payload = map_of ns ''--payload'', sy_key_env = val_or ns ''--key-env'' ''IOPS_SIGNING_KEY'',
        sy_key_id = map_of ns ''--key-id'', sy_dry_run = flag_of ns ''--dry-run''\<rparr>)
      else if name = ''server'' then Serve (map_of ns ''--config'')
      else if name = ''pause'' then Invoke (Pause (val_of ns ''ledger_id''))
      else if name = ''abort'' then Invoke (Abort (val_of ns ''ledger_id''))
      else if name = ''resume'' then Invoke (Resume (val_of ns ''iplan''))
      else if name = ''resolve'' then Invoke (Resolve (val_of ns ''ledger_id'') (val_of ns ''blocker_id'')
        (val_of ns ''decision'') (val_or ns ''--role'' ''operator''))
      else Invoke (Run_Chain (val_of ns ''chain_file'')))"

definition parse_args :: "string list \<Rightarrow> (string \<times> invocation) parsed option" where
  "parse_args argv = (if ''--'' \<in> set argv then None else Some (case parse_line argv of
      Parsed (name, ns) \<Rightarrow> Parsed (store_of ns, command_of name ns) | Help \<Rightarrow> Help | Usage \<Rightarrow> Usage))"

text \<open>The status of the process before any command runs.\<close>

definition exit_status :: "'a parsed \<Rightarrow> int option" where
  "exit_status p = (case p of Parsed _ \<Rightarrow> None | Help \<Rightarrow> Some 0 | Usage \<Rightarrow> Some 2)"

end
