(* ===== verification/CliClaims.thy ===== *)
theory CliClaims
  imports Parser ResumeClaims
begin

text \<open>
  Properties of the command line: a command written out is read back, what the parser accepts
  is within its choices, and the control flag of a run started from the command line.
\<close>

section \<open>Writing a command\<close>

definition opt_arg :: "string \<Rightarrow> string option \<Rightarrow> string list" where
  "opt_arg n v = (case v of None \<Rightarrow> [] | Some x \<Rightarrow> [n, x])"

definition opt_pos :: "string option \<Rightarrow> string list" where
  "opt_pos v = (case v of None \<Rightarrow> [] | Some x \<Rightarrow> [x])"

definition opt_flag :: "string \<Rightarrow> bool \<Rightarrow> string list" where
  "opt_flag n b = (if b then [n] else [])"

fun render :: "string \<Rightarrow> invocation \<Rightarrow> string list" where
  "render st (Invoke (Ledger_Validate p)) = [''ledger'', ''validate'', p]"
| "render st (Invoke (Gate_Run l g)) = [''gate'', ''run'', l, g]"
| "render st (Invoke (Audit_Report b c)) = [''audit'', ''report'', b, c]"
| "render st (Invoke (Monitor_Validate m)) = [''monitor'', ''validate'', m]"
| "render st (Invoke (Monitor_Slo_Check m s)) = [''monitor'', ''slo-check'', m] @ opt_pos s"
| "render st (Invoke (Intake_Doc i p)) = ''intake'' # opt_pos i @ opt_arg ''--payload'' p"
| "render st (Invoke (Emit_Events l p k i)) =
     [''emit-events'', l, ''--payload'', p, ''--key-env'', k] @ opt_arg ''--key-id'' i"
| "render st (Invoke (Handover_Receipt l g)) = [''handover'', l, g]"
| "render st (Invoke (Run_Iplan a)) =
     [''run'', ra_iplan a, ''--store'', st] @ opt_arg ''--actions'' (ra_actions a)
     @ [''--workspace'', ra_workspace a, ''--branch'', ra_branch a] @ opt_flag ''--land'' (ra_land a)"
| "render st (Invoke (Status i)) = [''status'', ''--store'', st] @ opt_pos i"
| "render st (Invoke (Verify l k)) = [''verify'', l, ''--key'', k]"
| "render st (Invoke (Sync a)) =
     [''sync'', sy_ledger a, ''--store'', st] @ opt_arg ''--config'' (sy_config a) @ opt_arg ''--payload'' (sy_payload a)
     @ [''--key-env'', sy_key_env a] @ opt_arg ''--key-id'' (sy_key_id a) @ opt_flag ''--dry-run'' (sy_dry_run a)"
| "render st (Serve c) = ''server'' # opt_arg ''--config'' c @ [''--store'', st]"
| "render st (Invoke (Pause i)) = [''pause'', i, ''--store'', st]"
| "render st (Invoke (Abort i)) = [''abort'', i, ''--store'', st]"
| "render st (Invoke (Resume p)) = [''resume'', p, ''--store'', st]"
| "render st (Invoke (Resolve l b d r)) = [''resolve'', l, b, d, ''--store'', st, ''--role'', r]"
| "render st (Invoke (Run_Chain p)) = [''run-chain'', p]"

text \<open>The commands with a \<open>--store\<close>; for the others the default is read and not used.\<close>

fun uses_store :: "invocation \<Rightarrow> bool" where
  "uses_store (Serve c) = True"
| "uses_store (Invoke c) = (case c of Run_Iplan _ \<Rightarrow> True | Status _ \<Rightarrow> True | Sync _ \<Rightarrow> True | Pause _ \<Rightarrow> True
     | Abort _ \<Rightarrow> True | Resume _ \<Rightarrow> True | Resolve _ _ _ _ \<Rightarrow> True | _ \<Rightarrow> False)"

definition plain :: "string \<Rightarrow> bool" where
  "plain s \<longleftrightarrow> s = [] \<or> hd s \<noteq> CHR ''-''"

definition DECISIONS :: "string list" where
  "DECISIONS = [''approve'', ''reject'', ''override'']"

fun legal :: "invocation \<Rightarrow> bool" where
  "legal (Invoke (Resolve l b d r)) = (d \<in> set DECISIONS)"
| "legal _ = True"

text \<open>What the user typed: the arguments that are neither a command, an option nor a choice.\<close>

fun texts :: "invocation \<Rightarrow> string list" where
  "texts (Invoke (Ledger_Validate p)) = [p]"
| "texts (Invoke (Gate_Run l g)) = [l, g]"
| "texts (Invoke (Audit_Report b c)) = [b, c]"
| "texts (Invoke (Monitor_Validate m)) = [m]"
| "texts (Invoke (Monitor_Slo_Check m s)) = m # opt_pos s"
| "texts (Invoke (Intake_Doc i p)) = opt_pos i @ opt_pos p"
| "texts (Invoke (Emit_Events l p k i)) = [l, p, k] @ opt_pos i"
| "texts (Invoke (Handover_Receipt l g)) = [l, g]"
| "texts (Invoke (Run_Iplan a)) = [ra_iplan a, ra_workspace a, ra_branch a] @ opt_pos (ra_actions a)"
| "texts (Invoke (Status i)) = opt_pos i"
| "texts (Invoke (Verify l k)) = [l, k]"
| "texts (Invoke (Sync a)) =
     [sy_ledger a, sy_key_env a] @ opt_pos (sy_config a) @ opt_pos (sy_payload a) @ opt_pos (sy_key_id a)"
| "texts (Serve c) = opt_pos c"
| "texts (Invoke (Pause i)) = [i]"
| "texts (Invoke (Abort i)) = [i]"
| "texts (Invoke (Resume p)) = [p]"
| "texts (Invoke (Resolve l b d r)) = [l, b, r]"
| "texts (Invoke (Run_Chain p)) = [p]"

definition writable :: "string \<Rightarrow> invocation \<Rightarrow> bool" where
  "writable st c \<longleftrightarrow> legal c \<and> list_all plain (st # texts c)"

lemma classify_plain: "plain s \<Longrightarrow> classify_arg names s = Arg s"
  by (auto simp: plain_def classify_arg_def)

lemma plain_not_separator: "plain s \<Longrightarrow> ''--'' \<noteq> s"
  by (auto simp: plain_def)

lemmas parse_eval = parse_args_def commands_def parse_sub_def classify_plain plain_not_separator choice_def pos_def maybe_def
  opt_def store_opt_def finish_def is_arg_def arg_text_def command_of_def store_of_def val_of_def val_or_def flag_of_def

lemma classify_option: "s \<in> set names \<Longrightarrow> prefix ''--'' s \<Longrightarrow> classify_arg names s = Opt s None"
  by (auto simp: classify_arg_def prefix_def)

lemma classify_word: "c \<noteq> CHR ''-'' \<Longrightarrow> classify_arg names (c # s) = Arg (c # s)"
  by (simp add: classify_arg_def)

lemmas render_eval = writable_def parse_eval classify_option classify_word opt_arg_def opt_pos_def opt_flag_def
  DECISIONS_def

lemma render_command:
  "writable st (Invoke c) \<Longrightarrow>
     parse_args (render st (Invoke c)) = Some (Parsed (if uses_store (Invoke c) then st else DEFAULT_STORE, Invoke c))"
proof (cases c)
  case (Run_Iplan a)
  then show "writable st (Invoke c) \<Longrightarrow> ?thesis"
    by (cases "ra_actions a"; cases "ra_land a") (simp_all add: render_eval)
next
  case (Sync a)
  then show "writable st (Invoke c) \<Longrightarrow> ?thesis"
    by (cases "sy_config a"; cases "sy_payload a"; cases "sy_key_id a"; cases "sy_dry_run a") (simp_all add: render_eval)
next
  case (Monitor_Slo_Check m s)
  then show "writable st (Invoke c) \<Longrightarrow> ?thesis" by (cases s) (simp_all add: render_eval)
next
  case (Intake_Doc i p)
  then show "writable st (Invoke c) \<Longrightarrow> ?thesis" by (cases i; cases p) (simp_all add: render_eval)
next
  case (Emit_Events l p k i)
  then show "writable st (Invoke c) \<Longrightarrow> ?thesis" by (cases i) (simp_all add: render_eval)
next
  case (Status i)
  then show "writable st (Invoke c) \<Longrightarrow> ?thesis" by (cases i) (simp_all add: render_eval)
next
  case (Resolve l b d r)
  assume w: "writable st (Invoke c)"
  then have "d = ''approve'' \<or> d = ''reject'' \<or> d = ''override''"
    by (simp add: Resolve writable_def DECISIONS_def)
  then show ?thesis using w by (elim disjE) (simp_all add: Resolve render_eval)
qed (simp_all add: render_eval)

lemma render_server:
  "writable st (Serve c) \<Longrightarrow> parse_args (render st (Serve c)) = Some (Parsed (st, Serve c))"
  by (cases c) (simp_all add: render_eval)

text \<open>
  C27. The command line. A command written out with its options - whatever its paths, ids and
  keys are, as long as none starts with a dash - is read back by the parser as that command,
  with the store it names, or the default one where the command takes no store.
\<close>

theorem command_line_roundtrip:
  assumes "writable st c"
  shows "parse_args (render st c) = Some (Parsed (if uses_store c then st else DEFAULT_STORE, c))"
proof (cases c)
  case (Invoke x)
  then show ?thesis using render_command assms by simp
next
  case (Serve x)
  then show ?thesis using render_server assms by simp
qed

theorem command_line_roundtrip_witness:
  "parse_args [''resolve'', ''LEDGER-1'', ''B1'', ''override'', ''--store'', ''runs'', ''--role'', ''operator'']
     = Some (Parsed (''runs'', Invoke (Resolve ''LEDGER-1'' ''B1'' ''override'' ''operator'')))"
  using command_line_roundtrip [of "''runs''" "Invoke (Resolve ''LEDGER-1'' ''B1'' ''override'' ''operator'')"]
  by (simp add: writable_def DECISIONS_def plain_def)

section \<open>The control flag of a run\<close>

lemma unstopped_loop:
  assumes "drive_loop H agent env mr bb by_id order c l w = (Inr (st, l'), w')" and k: "control env = retI ''running''"
  shows "st = ''completed''"
  using assms(1)
proof (induction order arbitrary: c l w)
  case (Cons t rest)
  then show ?case by (auto simp: k bindI_Inr_iff stops_def split: if_splits)
qed simp

lemma reconcile_run_state [simp]: "run_state (ledger_control (reconcile l)) = run_state (ledger_control l)"
  by (simp add: reconcile_def Let_def)

text \<open>
  The run command builds no reader of the control flag: whatever another process writes to it,
  a run that returns has visited its whole order and ends in the run state \<open>completed\<close>.
\<close>

theorem run_ignores_the_flag:
  assumes "engine_run H en manifest x (cli_args en None) w = (Inr r, w')"
  shows "run_state (ledger_control (rr_ledger r)) = ''completed''"
proof -
  have "control (call_env en x (cli_args en None)) = retI ''running''"
    by (simp add: call_env_def cli_args_def opt_else_def)
  with assms show ?thesis
    by (auto simp: engine_run_def run_def drive_def bindI_Inr_iff bindR_Inr_iff Let_def set_run_state_def
        dest: unstopped_loop split: if_splits)
qed

end
