(* ===== verification/SaveClaims.thy ===== *)
theory SaveClaims
  imports LedgerClaims
begin

text \<open>
  A save that is cut off. The lock keeps other writers out; a crash can still stop the process
  before the temporary file is complete, with any content in it, or after the rename.
\<close>

inductive crashed :: "string \<Rightarrow> val \<Rightarrow> file_store \<Rightarrow> file_store \<Rightarrow> bool" for lid document s where
  before: "crashed lid document s s"
| torn: "crashed lid document s (save_step_of lid junk Write_Tmp s)"
| written: "crashed lid document s (run_steps lid document save_steps s)"

text \<open>
  C26. Saving is atomic. Wherever a crash stops a save, the ledger file holds the old document or
  the new one: it loads as before, and the same runs are listed, unless the save was complete.
  No other file changes but the temporary one, and the next save of any document leaves the
  files it would have left without the crash.
\<close>

theorem save_survives_crash:
  assumes "crashed lid document s s'"
  shows "(load H (ledger_file lid) s' = load H (ledger_file lid) s \<and> list_runs s' = list_runs s
        \<or> s' = run_steps lid document save_steps s)
     \<and> (\<forall>f. f \<noteq> ledger_file lid \<and> f \<noteq> ledger_file lid @ ''.tmp'' \<longrightarrow> map_of (documents s') f = map_of (documents s) f)
     \<and> map_of (documents (run_steps lid again save_steps s')) = map_of (documents (run_steps lid again save_steps s))"
  using assms
proof cases
  case (torn junk)
  have "load H (ledger_file lid) s' = load H (ledger_file lid) s"
    by (simp add: torn load_def save_step_of_def update_conv')
  moreover have "list_runs s' = list_runs s"
    by (simp add: torn save_step_of_def list_runs_tmp)
  moreover have "map_of (documents s') f = map_of (documents s) f" if "f \<noteq> ledger_file lid @ ''.tmp''" for f
    using that by (simp add: torn save_step_of_def update_conv')
  moreover have "map_of (documents (run_steps lid again save_steps s')) = map_of (documents (run_steps lid again save_steps s))"
    using calculation(3) by (intro ext) (simp add: saved_documents)
  ultimately show ?thesis by simp
next
  case written
  have "map_of (documents (run_steps lid again save_steps s')) = map_of (documents (run_steps lid again save_steps s))"
    by (intro ext) (simp add: written saved_documents)
  then show ?thesis by (simp add: written saved_documents)
qed simp

theorem save_survives_crash_witness:
  "map_of (documents (run_steps ''L2'' (VInt 1) save_steps
       (save_step_of ''L2'' VNone Write_Tmp \<lparr>documents = [(''L1.yaml'', VNone)], controls = []\<rparr>)))
     = map_of (documents (run_steps ''L2'' (VInt 1) save_steps \<lparr>documents = [(''L1.yaml'', VNone)], controls = []\<rparr>))"
proof -
  have "crashed ''L2'' (VDict []) \<lparr>documents = [(''L1.yaml'', VNone)], controls = []\<rparr>
      (save_step_of ''L2'' VNone Write_Tmp \<lparr>documents = [(''L1.yaml'', VNone)], controls = []\<rparr>)"
    by (rule crashed.torn)
  from save_survives_crash [OF this] show ?thesis by blast
qed

end
