(* ===== verification/EventClaims.thy ===== *)
theory EventClaims
  imports Events Cli HashChain
begin

text \<open>
  The projection of a verified log names every event once: the idempotency keys the relay
  settles by, and the service deduplicates by, are pairwise different.
\<close>

section \<open>The hashes of a verified log\<close>

lemma payloads_numbered:
  "x \<in> set (payloads_from i p es) \<Longrightarrow> \<exists>j \<ge> i. \<exists>rest. x = int_str (int j + 1) @ ''|'' @ rest"
proof (induction es arbitrary: i p)
  case (Cons e es)
  show ?case
  proof (cases "x = payload_of i p e")
    case True
    then show ?thesis by (auto simp: payload_of_def event_payload_def split: prod.splits)
  next
    case False
    with Cons.prems have "x \<in> set (payloads_from (Suc i) (last_hash None [e]) es)" by simp
    from Cons.IH [OF this] show ?thesis by (metis Suc_leD)
  qed
qed simp

lemma numbered_inject:
  assumes "int_str (int i + 1) @ ''|'' @ r = int_str (int j + 1) @ ''|'' @ s"
  shows "i = j"
proof -
  have "int_str (int i + 1) = int_str (int j + 1)"
    using assms bar_not_in_int_str by (auto simp: append_eq_sep_iff)
  then have "int_str (int (Suc i)) = int_str (int (Suc j))" by (simp add: add.commute)
  from int_str_nat_inject [OF this] show ?thesis by simp
qed

lemma payloads_distinct: "distinct (payloads_from i p es)"
proof (induction es arbitrary: i p)
  case (Cons e es)
  obtain r where r: "payload_of i p e = int_str (int i + 1) @ ''|'' @ r"
    by (cases "event_fields e") (auto simp: payload_of_def event_payload_def)
  have "payload_of i p e \<notin> set (payloads_from (Suc i) (last_hash None [e]) es)"
  proof
    assume "payload_of i p e \<in> set (payloads_from (Suc i) (last_hash None [e]) es)"
    from payloads_numbered [OF this] obtain j s where "j \<ge> Suc i" "payload_of i p e = int_str (int j + 1) @ ''|'' @ s"
      by blast
    with r numbered_inject show False by (metis Suc_n_not_le_n)
  qed
  with Cons.IH show ?case by simp
qed simp

definition hash_of :: "digest \<Rightarrow> string \<Rightarrow> string" where
  "hash_of H x = ''sha256:'' @ H (py_encode x)"

definition carries :: "val \<Rightarrow> string \<Rightarrow> bool" where
  "carries e h \<longleftrightarrow> (\<exists>kvs. e = VDict kvs \<and> map_of kvs ''event_hash'' = Some (VStr h))"

lemma verified_hashes:
  "verify_from H i p es = Inr True \<Longrightarrow> list_all2 carries es (map (hash_of H) (payloads_from i p es))"
proof (induction es arbitrary: i p)
  case (Cons e es)
  from Cons.prems obtain h where h: "verify_event H i p e = Inr (Some h)"
    and rest: "verify_from H (Suc i) (Some h) es = Inr True"
    by (auto simp: bindR_Inr_iff split: option.splits)
  from verify_event_Some [OF h] have "carries e (hash_of H (payload_of i p e))" "last_hash None [e] = Some h"
    by (auto simp: carries_def event_digest_payload hash_of_def last_hash_def dget_def)
  with Cons.IH [OF rest] show ?case by simp
qed simp

lemma hashes_distinct:
  assumes "\<And>x y. x \<in> set ps \<Longrightarrow> y \<in> set ps \<Longrightarrow> \<not> collision H x y" and "distinct ps"
  shows "distinct (map (hash_of H) ps)"
  using assms by (auto simp: distinct_map inj_on_def hash_of_def collision_def)

section \<open>The keys of the projection\<close>

definition key_of :: "(string \<times> val) list \<Rightarrow> string \<Rightarrow> string \<Rightarrow> string" where
  "key_of identity h ty = idem_key (py_str (dget identity ''run_id'')) h ty"

lemma event_key_inject:
  assumes "key_of identity h ty = key_of identity h' ty'" and "length h = length h'"
  shows "h = h' \<and> ty = ty'"
  using assms by (simp add: key_of_def idem_key_def)

lemma built_key:
  assumes "build_event C (identity_of payload) ty st stamp refs key kid (VStr h) = Inr e"
  shows "event_key e = Inr (key_of (identity_of payload) h ty)"
proof -
  have "map_of (identity_of payload) ''idempotency_key'' = None"
    by (simp add: identity_of_def IDENTITY_FIELDS_def)
  with assms show ?thesis
    by (auto simp: build_event_def event_body_def ident_def Let_def bindR_Inr_iff event_key_def key_of_def
        map_add_def as_str_def split: prod.splits)
qed

text \<open>What one event of the log adds: events of its hash, of different types.\<close>

lemma project_one_keys:
  assumes "project_one C (identity_of payload) results key kid evs e = Inr evs'" and "carries e h"
  shows "\<exists>tys. evs' = evs @ drop (length evs) evs' \<and> distinct tys
     \<and> map event_key (drop (length evs) evs') = map (\<lambda>ty. Inr (key_of (identity_of payload) h ty)) tys"
proof -
  from assms(2) obtain kvs where e: "e = VDict kvs" "map_of kvs ''event_hash'' = Some (VStr h)"
    unfolding carries_def by blast
  then have hash: "item e ''event_hash'' = Inr (VStr h)" by simp
  from assms(1) obtain kind where kind: "get e ''event_type'' = Inr kind" "hashable kind"
    unfolding project_one_def by (auto simp: bindR_Inr_iff split: if_splits)
  show ?thesis
  proof (cases "case kind of VStr k \<Rightarrow> if k \<in> set SKIP then None else map_of EVENT_MAP k | _ \<Rightarrow> None")
    case None
    with assms(1) kind have "evs' = evs" by (simp add: project_one_def)
    then show ?thesis by (intro exI [of _ "[]"]) simp
  next
    case (Some m)
    obtain ty st where m: "m = (ty, st)" by (cases m)
    let ?rest = "\<lambda>stamp b. if \<not> py_eq kind (VStr ''task_completed'') then Inr (evs @ [b]) else
         bindR (get e ''subject_id'') (\<lambda>subject.
         bindR (vget results subject) (\<lambda>result.
         bindR (build_event C (identity_of payload) (if py_eq result (VStr ''pass'') then ''test.passed'' else ''test.failed'')
                  ''running'' stamp (VList []) key kid (VStr h)) (\<lambda>t.
         Inr (evs @ [b, t]))))"
    have "project_one C (identity_of payload) results key kid evs e =
        bindR (item e ''at'') (\<lambda>stamp.
        bindR (get e ''touched_paths'') (\<lambda>paths.
        bindR (build_event C (identity_of payload) ty st stamp (or_else paths (VList [])) key kid (VStr h)) (?rest stamp)))"
      unfolding project_one_def kind(1) bindR_simps Some m hash
      by (simp only: kind(2) not_True_eq_False if_False option.case prod.case bindR_simps)
    with assms(1) obtain stamp refs b where
      b: "build_event C (identity_of payload) ty st stamp refs key kid (VStr h) = Inr b"
      and rest: "?rest stamp b = Inr evs'"
      by (auto simp only: bindR_Inr_iff)
    note kb = built_key [OF b]
    show ?thesis
    proof (cases "py_eq kind (VStr ''task_completed'')")
      case False
      with rest kb show ?thesis by (intro exI [of _ "[ty]"]) auto
    next
      case True
      then have "kind = VStr ''task_completed''" by (cases kind) auto
      with Some m have ty: "ty = ''task.completed''" by (auto simp: SKIP_def EVENT_MAP_def)
      from rest True obtain ty' t where t: "build_event C (identity_of payload) ty' ''running'' stamp (VList []) key kid (VStr h) = Inr t"
        and ty': "ty' = ''test.passed'' \<or> ty' = ''test.failed''" and evs': "evs' = evs @ [b, t]"
        by (auto simp: bindR_Inr_iff split: if_splits)
      show ?thesis
        using kb built_key [OF t] ty ty' evs' by (intro exI [of _ "[ty, ty']"]) auto
    qed
  qed
qed

text \<open>Events of the given hashes, with keys that are pairwise different.\<close>

definition keyed :: "(string \<times> val) list \<Rightarrow> string set \<Rightarrow> val list \<Rightarrow> bool" where
  "keyed identity hs new \<longleftrightarrow> (\<exists>ks. map event_key new = map Inr ks \<and> distinct ks
     \<and> (\<forall>k \<in> set ks. \<exists>h \<in> hs. \<exists>ty. k = key_of identity h ty))"

lemma keyed_Nil [simp]: "keyed identity hs []"
  by (simp add: keyed_def)

lemma project_one_keyed:
  assumes "project_one C (identity_of payload) results key kid evs e = Inr evs'" and "carries e h"
  obtains new where "evs' = evs @ new" "keyed (identity_of payload) {h} new"
proof -
  from project_one_keys [OF assms] obtain tys where
    app: "evs' = evs @ drop (length evs) evs'" and
    d: "distinct tys" and
    m: "map event_key (drop (length evs) evs') = map (\<lambda>ty. Inr (key_of (identity_of payload) h ty)) tys"
    by (elim exE conjE)
  have "inj_on (key_of (identity_of payload) h) (set tys)"
  proof (rule inj_onI)
    fix ty ty' assume "key_of (identity_of payload) h ty = key_of (identity_of payload) h ty'"
    then show "ty = ty'" by (rule event_key_inject [THEN conjunct2]) (rule refl)
  qed
  with d have "distinct (map (key_of (identity_of payload) h) tys)" by (simp add: distinct_map)
  then have "keyed (identity_of payload) {h} (drop (length evs) evs')"
    unfolding keyed_def m by (intro exI [of _ "map (key_of (identity_of payload) h) tys"]) auto
  with app show thesis by (rule that)
qed

lemma keyed_append:
  assumes a: "keyed identity {h} new1" and b: "keyed identity hs new2"
    and fresh: "h \<notin> hs" and len: "\<forall>h' \<in> hs. length h' = length h"
  shows "keyed identity (insert h hs) (new1 @ new2)"
proof -
  from a obtain ks1 where k1: "map event_key new1 = map Inr ks1" "distinct ks1"
    "\<forall>k \<in> set ks1. \<exists>ty. k = key_of identity h ty" unfolding keyed_def by blast
  from b obtain ks2 where k2: "map event_key new2 = map Inr ks2" "distinct ks2"
    "\<forall>k \<in> set ks2. \<exists>h \<in> hs. \<exists>ty. k = key_of identity h ty" unfolding keyed_def by blast
  have "False" if k: "k \<in> set ks1" "k \<in> set ks2" for k
  proof -
    from k1(3) k(1) obtain ty where 1: "k = key_of identity h ty" by blast
    from k2(3) k(2) obtain h' ty' where 2: "h' \<in> hs" "k = key_of identity h' ty'" by blast
    then have "length h = length h'" using len by simp
    with 1 2(2) have "h = h'" using event_key_inject [of identity h ty h' ty'] by simp
    with fresh 2(1) show False by simp
  qed
  then have "distinct (ks1 @ ks2)" using k1(2) k2(2) by auto
  moreover have "map event_key (new1 @ new2) = map Inr (ks1 @ ks2)" by (simp add: k1(1) k2(1))
  moreover have "\<forall>k \<in> set (ks1 @ ks2). \<exists>h' \<in> insert h hs. \<exists>ty. k = key_of identity h' ty"
    using k1(3) k2(3) by auto
  ultimately show ?thesis unfolding keyed_def by blast
qed

lemma projection_keyed:
  assumes "list_all2 carries es hs" and "foldR (project_one C (identity_of payload) results key kid) evs es = Inr evs'"
    and "distinct hs" and "\<forall>h \<in> set hs. length h = n"
  shows "\<exists>new. evs' = evs @ new \<and> keyed (identity_of payload) (set hs) new"
  using assms
proof (induction arbitrary: evs rule: list_all2_induct)
  case Nil
  then show ?case by simp
next
  case (Cons e es h hs)
  from Cons.prems(1) obtain evs1 where
    1: "project_one C (identity_of payload) results key kid evs e = Inr evs1" and
    2: "foldR (project_one C (identity_of payload) results key kid) evs1 es = Inr evs'"
    unfolding foldR.simps bindR_Inr_iff by blast
  obtain new1 where n1: "evs1 = evs @ new1" "keyed (identity_of payload) {h} new1"
    using 1 Cons.hyps(1) by (rule project_one_keyed)
  have "distinct hs" "\<forall>h \<in> set hs. length h = n" using Cons.prems(2,3) by simp_all
  from Cons.IH [OF 2 this] obtain new2 where n2: "evs' = evs1 @ new2" "keyed (identity_of payload) (set hs) new2"
    by blast
  have "keyed (identity_of payload) (insert h (set hs)) (new1 @ new2)"
    using Cons.prems(2,3) by (intro keyed_append n1(2) n2(2)) simp_all
  then show ?case unfolding n2(1) n1(1) append_assoc list.set by blast
qed

text \<open>
  C17. No two events share a key. The log of a ledger verifies, and no two payloads of its events
  collide under the digest, which gives 64 hexadecimal digits: then the idempotency keys of the
  events projected from it are pairwise different, so that settling one by its key never
  settles another, and the service drops none of them as a duplicate.
\<close>

theorem projected_keys_distinct:
  assumes "verify_chain (sha256 C) elog = Inr True" and hex: "hexdigest_fn (sha256 C)"
    and "\<And>x y. x \<in> set (payloads_from 0 None elog) \<Longrightarrow> y \<in> set (payloads_from 0 None elog) \<Longrightarrow> \<not> collision (sha256 C) x y"
    and log: "get_or document ''execution_log'' (VList []) = Inr (VList elog)"
    and "to_execution_events C document payload key kid = Inr evs"
  shows "\<exists>ks. map event_key evs = map Inr ks \<and> distinct ks"
proof -
  let ?hs = "map (hash_of (sha256 C)) (payloads_from 0 None elog)"
  from assms(5) obtain results where
    f: "foldR (project_one C (identity_of payload) results key kid) [] elog = Inr evs"
    by (auto simp: to_execution_events_def Let_def bindR_Inr_iff log)
  have "list_all2 carries elog ?hs" using verified_hashes assms(1) by (simp add: verify_chain_def)
  moreover have "distinct ?hs" by (rule hashes_distinct [OF assms(3) payloads_distinct])
  moreover have "\<forall>h \<in> set ?hs. length h = 71" using hex by (auto simp: hash_of_def hexdigest_fn_def)
  ultimately have "\<exists>new. evs = [] @ new \<and> keyed (identity_of payload) (set ?hs) new"
    using projection_keyed [OF _ f] by blast
  then show ?thesis unfolding keyed_def by (auto simp del: map_eq_conv)
qed

text \<open>A log of two events under a digest that tells short texts from long ones.\<close>

definition by_size :: digest where
  "by_size b = (if length b < 40 then CHR ''1'' else CHR ''0'') # replicate 63 CHR ''0''"

definition size_crypto :: crypto where
  "size_crypto = \<lparr>jcs = (\<lambda>_. Inr []), sha256 = by_size, hmac_hex = (\<lambda>_ _. []), ed_sign = (\<lambda>_ _. Inr []),
     ed_verify = (\<lambda>_ _ _. Inr True)\<rparr>"

definition two_events :: "val list" where
  "two_events = (
     let h1 = compute_event_hash by_size 1 None ''task_started'' ''T1'' ''t'';
         h2 = compute_event_hash by_size 2 (Some h1) ''task_completed'' ''T1'' ''u'' in
     [VDict [(''sequence'', VInt 1), (''previous_event_hash'', VNone), (''event_type'', VStr ''task_started''),
        (''subject_id'', VStr ''T1''), (''at'', VStr ''t''), (''event_hash'', VStr h1)],
      VDict [(''sequence'', VInt 2), (''previous_event_hash'', VStr h1), (''event_type'', VStr ''task_completed''),
        (''subject_id'', VStr ''T1''), (''at'', VStr ''u''), (''event_hash'', VStr h2)]])"

definition two_event_run :: val where
  "two_event_run = VDict [(''execution_log'', VList two_events)]"

lemma two_events_verify: "verify_chain by_size two_events = Inr True"
  by code_simp

lemma two_events_projected: "\<exists>a b c. to_execution_events size_crypto two_event_run [] [] VNone = Inr [a, b, c]"
proof -
  have "(case to_execution_events size_crypto two_event_run [] [] VNone of Inr evs \<Rightarrow> length evs = 3 | Inl _ \<Rightarrow> False)"
    by code_simp
  then show ?thesis by (auto split: sum.splits simp: length_Suc_conv numeral_3_eq_3)
qed

lemma two_payloads: "\<not> list_ex (\<lambda>x. list_ex (\<lambda>y. x \<noteq> y \<and> by_size (py_encode x) = by_size (py_encode y))
    (payloads_from 0 None two_events)) (payloads_from 0 None two_events)"
  by code_simp

theorem projected_keys_distinct_witness:
  "\<exists>a b c ks. to_execution_events size_crypto two_event_run [] [] VNone = Inr [a, b, c]
     \<and> map event_key [a, b, c] = map Inr ks \<and> distinct ks"
proof -
  obtain a b c where p: "to_execution_events size_crypto two_event_run [] [] VNone = Inr [a, b, c]"
    using two_events_projected by blast
  have "\<exists>ks. map event_key [a, b, c] = map Inr ks \<and> distinct ks"
  proof (rule projected_keys_distinct [OF _ _ _ _ p])
    show "verify_chain (sha256 size_crypto) two_events = Inr True"
      using two_events_verify by (simp add: size_crypto_def)
    show "hexdigest_fn (sha256 size_crypto)"
      by (simp add: hexdigest_fn_def size_crypto_def by_size_def)
    show "\<not> collision (sha256 size_crypto) x y"
      if "x \<in> set (payloads_from 0 None two_events)" "y \<in> set (payloads_from 0 None two_events)" for x y
      using two_payloads that by (auto simp: collision_def size_crypto_def list_ex_iff)
    show "get_or two_event_run ''execution_log'' (VList []) = Inr (VList two_events)"
      by (simp add: two_event_run_def dget_or_def)
  qed
  with p show ?thesis by blast
qed

end
