(* ===== verification/WorldFrame.thy ===== *)
theory WorldFrame
  imports RunProps
begin

text \<open>
  What a run does to the world outside the ledger. A property of the world that every injected
  callable keeps - and the executor only on the isolation scope of the run - is kept by every
  step of the loop, whatever is raised on the way. The callables are the interface
  \<open>world_invariant\<close>; the calculus is that of a postcondition under an invariant.
\<close>

section \<open>Effects under an invariant\<close>

definition ensures :: "('w \<Rightarrow> bool) \<Rightarrow> ('w, 'a) io \<Rightarrow> ('a \<Rightarrow> bool) \<Rightarrow> bool" where
  "ensures I m Q \<longleftrightarrow> (\<forall>w r w'. I w \<longrightarrow> m w = (r, w') \<longrightarrow> I w' \<and> (\<forall>a. r = Inr a \<longrightarrow> Q a))"

abbreviation stays :: "('w \<Rightarrow> bool) \<Rightarrow> ('w, 'a) io \<Rightarrow> bool" where
  "stays I m \<equiv> ensures I m (\<lambda>_. True)"

named_theorems ensures_intros "effects under an invariant of the world"

lemma ensuresI:
  assumes "\<And>w r w'. I w \<Longrightarrow> m w = (r, w') \<Longrightarrow> I w'" and "\<And>w a w'. I w \<Longrightarrow> m w = (Inr a, w') \<Longrightarrow> Q a"
  shows "ensures I m Q"
  unfolding ensures_def using assms by blast

lemma ensures_world: "ensures I m Q \<Longrightarrow> I w \<Longrightarrow> m w = (r, w') \<Longrightarrow> I w'"
  unfolding ensures_def by blast

lemma ensures_result: "ensures I m Q \<Longrightarrow> I w \<Longrightarrow> m w = (Inr a, w') \<Longrightarrow> Q a"
  unfolding ensures_def by blast

lemma ensures_weaken: "ensures I m P \<Longrightarrow> (\<And>a. P a \<Longrightarrow> Q a) \<Longrightarrow> ensures I m Q"
  unfolding ensures_def by blast

lemma ensures_ret [ensures_intros]: "Q a \<Longrightarrow> ensures I (retI a) Q"
  by (simp add: ensures_def)

lemma ensures_raise [ensures_intros]: "ensures I (raiseI e) Q"
  by (simp add: ensures_def)

lemma ensures_lift [ensures_intros]: "(\<And>a. r = Inr a \<Longrightarrow> Q a) \<Longrightarrow> ensures I (liftI r) Q"
  by (simp add: ensures_def)

lemma ensures_bind:
  assumes m: "ensures I m R" and f: "\<And>a. R a \<Longrightarrow> ensures I (f a) Q"
  shows "ensures I (bindI m f) Q"
proof (rule ensuresI)
  fix w r w' assume w: "I w" "bindI m f w = (r, w')"
  obtain x w1 where x: "m w = (x, w1)" by fastforce
  have w1: "I w1" using ensures_world [OF m w(1) x] .
  show "I w'"
  proof (cases x)
    case (Inl e)
    with w(2) x w1 show ?thesis by (simp add: bindI_app)
  next
    case (Inr a)
    have "R a" using ensures_result [OF m w(1)] x Inr by simp
    from ensures_world [OF f [OF this] w1] w(2) x Inr show ?thesis by (simp add: bindI_app)
  qed
next
  fix w b w' assume w: "I w" "bindI m f w = (Inr b, w')"
  then obtain a w1 where x: "m w = (Inr a, w1)" "f a w1 = (Inr b, w')" unfolding bindI_Inr_iff by blast
  have "I w1" "R a" using ensures_world [OF m w(1) x(1)] ensures_result [OF m w(1) x(1)] .
  with f x(2) show "Q b" by (blast intro: ensures_result)
qed

lemma stays_bind [ensures_intros]: "stays I m \<Longrightarrow> (\<And>a. ensures I (f a) Q) \<Longrightarrow> ensures I (bindI m f) Q"
  by (rule ensures_bind)

lemma ensures_if [ensures_intros]:
  "(b \<Longrightarrow> ensures I m Q) \<Longrightarrow> (\<not> b \<Longrightarrow> ensures I m' Q) \<Longrightarrow> ensures I (if b then m else m') Q"
  by simp

lemma ensures_foldI:
  assumes "P s" and "\<And>s x. P s \<Longrightarrow> x \<in> set xs \<Longrightarrow> ensures I (f s x) P"
  shows "ensures I (foldI f s xs) P"
  using assms
proof (induction xs arbitrary: s)
  case (Cons x xs)
  have "ensures I (foldI f s' xs) P" if "P s'" for s'
    using that Cons.prems(2) by (intro Cons.IH) simp_all
  with Cons.prems show ?case by (simp, intro ensures_bind [where R = P]) auto
qed (simp add: ensures_ret)

lemma ensures_catch [ensures_intros]:
  assumes m: "ensures I m Q" and h: "\<And>e k. h e = Some k \<Longrightarrow> ensures I k Q"
  shows "ensures I (catchI m h) Q"
proof (rule ensuresI)
  fix w r w' assume w: "I w" "catchI m h w = (r, w')"
  obtain x w1 where x: "m w = (x, w1)" by fastforce
  have w1: "I w1" using ensures_world [OF m w(1) x] .
  show "I w'"
  proof (cases x)
    case (Inl e)
    show ?thesis
    proof (cases "h e")
      case None
      with w(2) x Inl w1 show ?thesis by (simp add: catchI_def)
    next
      case (Some k)
      with w(2) x Inl ensures_world [OF h [OF Some] w1] show ?thesis by (simp add: catchI_def)
    qed
  next
    case (Inr a)
    with w(2) x w1 show ?thesis by (simp add: catchI_def)
  qed
next
  fix w b w' assume w: "I w" "catchI m h w = (Inr b, w')"
  from w(2) [unfolded catchI_Inr_iff] show "Q b"
  proof (elim disjE exE conjE)
    assume "m w = (Inr b, w')"
    with m w(1) show ?thesis by (rule ensures_result)
  next
    fix e w1 k assume x: "m w = (Inl e, w1)" "h e = Some k" "k w1 = (Inr b, w')"
    have "I w1" using ensures_world [OF m w(1) x(1)] .
    with h [OF x(2)] show ?thesis using x(3) by (rule ensures_result)
  qed
qed

section \<open>The loop\<close>

locale world_invariant =
  fixes I :: "'w \<Rightarrow> bool" and env :: "'w env" and scope :: "(string \<times> val) list"
  assumes clock [ensures_intros]: "stays I (clock env)"
    and ids [ensures_intros]: "stays I (ids env k)"
    and sleep [ensures_intros]: "stays I (sleep env d)"
    and control [ensures_intros]: "stays I (control env)"
    and execute [ensures_intros]: "stays I (execute env task scope)"
    and compensate [ensures_intros]: "stays I (compensate env ps)"
begin

abbreviation scoped :: "ledger \<Rightarrow> bool" where
  "scoped l \<equiv> isolation_scope l = scope"

lemma lift_scoped:
  assumes "scoped l" and "\<And>l'. r = Inr l' \<Longrightarrow> isolation_scope l' = isolation_scope l"
  shows "ensures I (liftI r) scoped"
  using assms by (intro ensures_lift) simp

lemma retry_stays: "stays I (retry_loop env node scope mr bb n)"
proof (induction "nat (mr - n)" arbitrary: n rule: less_induct)
  case less
  then show ?case
    by (subst retry_loop.simps) (auto intro!: ensures_intros)
qed

lemma escalate_stays: "scoped l \<Longrightarrow> ensures I (escalate H env t why stamp l) scoped"
  unfolding escalate_def
  by (intro ensures_intros lift_scoped)
    (auto simp: bindR_Inr_iff dest!: update_task_fields(7) set_status_fields(7) log_event_fields(7))

lemma block_stays: "scoped l \<Longrightarrow> ensures I (block_unmet_deps H env node l) scoped"
  unfolding block_unmet_deps_def Let_def
  by (intro ensures_intros lift_scoped)
    (auto simp: bindR_Inr_iff dest!: update_task_fields(7) set_status_fields(7) log_event_fields(7))

lemma open_stays: "scoped l \<Longrightarrow> ensures I (open_task H agent env t acquired l) scoped"
  unfolding open_task_def
  by (intro ensures_intros lift_scoped)
    (auto simp: bindR_Inr_iff dest!: set_status_fields(7) log_event_fields(7))

lemma record_stays: "scoped l \<Longrightarrow> ensures I (record_file H env t l p) scoped"
  unfolding record_file_def by (intro ensures_intros lift_scoped) (auto dest!: log_event_fields(7))

lemma evidence_stays: "scoped l \<Longrightarrow> ensures I (record_evidence env t result l) scoped"
  by (cases "evidence result")
    (auto simp: record_evidence_def intro!: ensures_intros dest!: update_task_fields(7))

lemma complete_stays: "scoped l \<Longrightarrow> ensures I (complete_task H env t xi result l) scoped"
  unfolding complete_task_def
  by (intro ensures_bind [OF ensures_foldI [where P = scoped]] ensures_bind [OF evidence_stays] stays_bind [OF clock] lift_scoped record_stays)
    (auto simp: bindR_Inr_iff dest!: set_status_fields(7) log_event_fields(7))

lemma fail_stays: "scoped l \<Longrightarrow> ensures I (fail_task H env t xi result l) scoped"
  unfolding fail_task_def
  by (intro ensures_bind [where R = scoped] stays_bind [OF clock] stays_bind [OF compensate] escalate_stays ensures_if
      lift_scoped ensures_ret) (auto dest!: log_event_fields(7))

lemma task_stays:
  assumes "scoped l"
  shows "ensures I (run_task H agent env mr bb node l) scoped"
proof -
  have tail: "ensures I (bindI (if outcome result = ''success'' then complete_task H env t xi result l1 else fail_task H env t xi result l1)
      (\<lambda>l. bindI (clock env) (\<lambda>released. retI (set_lease li (g released) l)))) scoped" if "scoped l1" for result t xi l1 li g
    using that by (intro ensures_bind [where R = scoped] stays_bind [OF clock] ensures_if complete_stays fail_stays ensures_ret) simp_all
  have body: "ensures I (bindI (open_task H agent env t acquired l) (\<lambda>l.
      bindI (execute_with_retry env node (isolation_scope l) mr bb) (\<lambda>(result, n). f result n l))) scoped"
    if "\<And>result n l1. scoped l1 \<Longrightarrow> ensures I (f result n l1) scoped" for f t acquired
  proof (rule ensures_bind [OF open_stays [OF assms]])
    fix l1 assume l1: "scoped l1"
    have "stays I (execute_with_retry env node (isolation_scope l1) mr bb)"
      unfolding execute_with_retry_def l1 by (rule retry_stays)
    then show "ensures I (bindI (execute_with_retry env node (isolation_scope l1) mr bb) (\<lambda>(result, n). f result n l1)) scoped"
      using that [OF l1] by (intro stays_bind) (auto split: prod.splits)
  qed
  show ?thesis
    unfolding run_task_def Let_def
    by (intro stays_bind [OF ensures_lift] stays_bind [OF clock] ensures_if ensures_ret body tail escalate_stays)
      (simp_all add: assms)
qed

lemma loop_stays:
  "scoped l \<Longrightarrow> ensures I (drive_loop H agent env mr bb by_id order c l) (\<lambda>(st, l). scoped l)"
proof (induction order arbitrary: c l)
  case (Cons t rest)
  show ?case
    unfolding drive_loop.simps
    by (intro stays_bind [OF ensures_lift] stays_bind [OF control] ensures_bind [OF task_stays] ensures_bind [OF block_stays]
        ensures_if ensures_ret Cons.IH) (simp_all add: Cons.prems)
qed (simp add: ensures_ret)

lemma drive_stays:
  assumes "scoped l"
  shows "stays I (drive H agent env mr bb gate manifest c l)"
  unfolding drive_def Let_def
  by (intro stays_bind [OF ensures_lift] ensures_bind [OF loop_stays [OF assms]]) (auto intro!: ensures_lift)

lemma run_stays:
  assumes "item manifest ''isolation_scope'' = Inr (VDict scope)"
  shows "stays I (run H agent env mr bb gate manifest)"
proof -
  have "ensures I (liftI (init_ledger manifest)) scoped"
    using assms init_ledger_fields(10) by (intro ensures_lift) fastforce
  then show ?thesis
    unfolding run_def by (intro stays_bind [OF ensures_lift] ensures_if ensures_raise ensures_bind [where R = scoped] drive_stays) auto
qed

lemma resume_stays: "scoped l \<Longrightarrow> stays I (resume H agent env mr bb gate manifest l)"
  unfolding resume_def by (rule drive_stays) (simp add: set_run_state_def)

end

section \<open>A world with something beside it\<close>

text \<open>
  Callables on a larger world that do on the part \<open>pr\<close> of it what the given callables do, with
  the same results: the run does too.
\<close>

definition beside :: "('v \<Rightarrow> 'w) \<Rightarrow> ('v, 'a) io \<Rightarrow> ('w, 'a) io \<Rightarrow> bool" where
  "beside pr m' m \<longleftrightarrow> (\<forall>v. m (pr v) = (fst (m' v), pr (snd (m' v))))"

named_theorems beside_intros "effects beside which something is kept"

lemma besideD: "beside pr m' m \<Longrightarrow> m' v = (r, v') \<Longrightarrow> m (pr v) = (r, pr v')"
  by (simp add: beside_def)

lemma besideI: "(\<And>v r v'. m' v = (r, v') \<Longrightarrow> m (pr v) = (r, pr v')) \<Longrightarrow> beside pr m' m"
  unfolding beside_def by (metis prod.collapse)

lemma beside_ret [beside_intros]:
  "beside pr (retI a) (retI a)" "beside pr (liftI r) (liftI r)" "beside pr (raiseI e) (raiseI e)"
  by (simp_all add: beside_def)

lemma beside_onW [beside_intros]: "beside fst (onW m) m"
  by (simp add: beside_def)

lemma beside_bind [beside_intros]:
  assumes m: "beside pr m' m" and f: "\<And>a. beside pr (f' a) (f a)"
  shows "beside pr (bindI m' f') (bindI m f)"
proof (rule besideI)
  fix v r v' assume b: "bindI m' f' v = (r, v')"
  obtain x v1 where x: "m' v = (x, v1)" by fastforce
  show "bindI m f (pr v) = (r, pr v')"
    using b besideD [OF m x] besideD [OF f] by (cases x) (auto simp: bindI_app x)
qed

lemma beside_if [beside_intros]:
  "(b \<Longrightarrow> beside pr m' m) \<Longrightarrow> (\<not> b \<Longrightarrow> beside pr n' n) \<Longrightarrow> beside pr (if b then m' else n') (if b then m else n)"
  by simp

lemma beside_pair [beside_intros]:
  "(\<And>a b. beside pr (f' a b) (f a b)) \<Longrightarrow> beside pr (case p of (a, b) \<Rightarrow> f' a b) (case p of (a, b) \<Rightarrow> f a b)"
  by (cases p) simp

lemma beside_option [beside_intros]:
  "beside pr n' n \<Longrightarrow> (\<And>a. beside pr (f' a) (f a)) \<Longrightarrow>
    beside pr (case x of None \<Rightarrow> n' | Some a \<Rightarrow> f' a) (case x of None \<Rightarrow> n | Some a \<Rightarrow> f a)"
  by (cases x) simp_all

lemma beside_foldI [beside_intros]:
  "(\<And>s x. beside pr (f' s x) (f s x)) \<Longrightarrow> beside pr (foldI f' s xs) (foldI f s xs)"
  by (induction xs arbitrary: s) (simp_all add: beside_intros)

lemma beside_catch:
  assumes m: "beside pr m' m" and h: "\<And>e. rel_option (beside pr) (h' e) (h e)"
  shows "beside pr (catchI m' h') (catchI m h)"
proof (rule besideI)
  fix v r v' assume b: "catchI m' h' v = (r, v')"
  obtain x v1 where x: "m' v = (x, v1)" by fastforce
  show "catchI m h (pr v) = (r, pr v')"
  proof (cases x)
    case (Inr a)
    with b besideD [OF m x] show ?thesis by (auto simp: catchI_def x)
  next
    case (Inl e)
    from h [of e] show ?thesis
    proof (cases rule: option.rel_cases)
      case None
      with b besideD [OF m x] Inl show ?thesis by (auto simp: catchI_def x)
    next
      case (Some k' k)
      with b besideD [OF m x] besideD [OF Some(3)] Inl show ?thesis by (auto simp: catchI_def x)
    qed
  qed
qed

lemma beside_read: "(\<And>x. beside pr (m' x) (m x)) \<Longrightarrow> beside pr (\<lambda>v. m' (pr v) v) (\<lambda>w. m w w)"
  by (simp add: beside_def)

locale beside_env =
  fixes pr :: "'v \<Rightarrow> 'w" and env' :: "'v env" and env :: "'w env"
  assumes b_clock [beside_intros]: "beside pr (clock env') (clock env)"
    and b_ids [beside_intros]: "beside pr (ids env' k) (ids env k)"
    and b_sleep [beside_intros]: "beside pr (sleep env' d) (sleep env d)"
    and b_control [beside_intros]: "beside pr (control env') (control env)"
    and b_execute [beside_intros]: "beside pr (execute env' task scope) (execute env task scope)"
    and b_compensate [beside_intros]: "beside pr (compensate env' ps) (compensate env ps)"
begin

lemma b_retry [beside_intros]: "beside pr (retry_loop env' node scope mr bb n) (retry_loop env node scope mr bb n)"
proof (induction "nat (mr - n)" arbitrary: n rule: less_induct)
  case less
  have eq: "retry_loop e node scope mr bb n = bindI (execute e node scope) (\<lambda>result.
       if outcome result = ''success'' then retI (result, n + 1)
       else if retriable result \<and> n + 1 \<le> mr
       then bindI (sleep e (backoff (n + 1) bb)) (\<lambda>_. retry_loop e node scope mr bb (n + 1))
       else retI (result, n + 1))" for e :: "'x env" by (subst retry_loop.simps) simp
  show ?case
    unfolding eq by (intro beside_intros less.hyps) simp
qed

lemma b_execute_retry [beside_intros]:
  "beside pr (execute_with_retry env' node scope mr bb) (execute_with_retry env node scope mr bb)"
  unfolding execute_with_retry_def by (rule b_retry)

lemma b_escalate [beside_intros]: "beside pr (escalate H env' t why stamp l) (escalate H env t why stamp l)"
  unfolding escalate_def by (intro beside_intros)

lemma b_block [beside_intros]: "beside pr (block_unmet_deps H env' node l) (block_unmet_deps H env node l)"
  unfolding block_unmet_deps_def Let_def by (intro beside_intros)

lemma b_open [beside_intros]: "beside pr (open_task H agent env' t acquired l) (open_task H agent env t acquired l)"
  unfolding open_task_def by (intro beside_intros)

lemma b_record [beside_intros]: "beside pr (record_file H env' t l p) (record_file H env t l p)"
  unfolding record_file_def by (intro beside_intros)

lemma b_evidence [beside_intros]: "beside pr (record_evidence env' t result l) (record_evidence env t result l)"
  by (cases "evidence result") (auto simp: record_evidence_def intro!: beside_intros)

lemma b_complete [beside_intros]: "beside pr (complete_task H env' t xi result l) (complete_task H env t xi result l)"
  unfolding complete_task_def by (intro beside_intros)

lemma b_fail [beside_intros]: "beside pr (fail_task H env' t xi result l) (fail_task H env t xi result l)"
  unfolding fail_task_def by (intro beside_intros)

lemma b_task [beside_intros]: "beside pr (run_task H agent env' mr bb node l) (run_task H agent env mr bb node l)"
  unfolding run_task_def Let_def by (intro beside_intros)

lemma b_loop [beside_intros]:
  "beside pr (drive_loop H agent env' mr bb by_id order c l) (drive_loop H agent env mr bb by_id order c l)"
proof (induction order arbitrary: c l)
  case (Cons t rest)
  show ?case unfolding drive_loop.simps by (intro beside_intros Cons.IH)
qed (simp add: beside_intros)

lemma b_drive: "beside pr (drive H agent env' mr bb gate manifest c l) (drive H agent env mr bb gate manifest c l)"
  unfolding drive_def Let_def by (intro beside_intros)

lemma b_run: "beside pr (run H agent env' mr bb gate manifest) (run H agent env mr bb gate manifest)"
  unfolding run_def by (intro beside_intros b_drive)

end

end
