(* ===== verification/RunJail.thy ===== *)
theory RunJail
  imports WorldFrame ExecutorClaims Examples
begin

text \<open>
  A scripted run and its jail. The file system is instrumented to note every call made on it;
  the notes of a whole run - retries, failures and compensations included - show what the run
  asked the file system to change.
\<close>

section \<open>Noting the calls\<close>

datatype fs_call = Wrote "string list" | Made_Dir "string list" | Removed "string list" | Ran "string list"

definition note_call :: "fs_call \<Rightarrow> ('w, 'a) io \<Rightarrow> ('w \<times> fs_call list, 'a) io" where
  "note_call c m = (\<lambda>(w, calls). case m w of (r, w') \<Rightarrow> (r, (w', calls @ [c])))"

definition logged :: "'w fs \<Rightarrow> ('w \<times> fs_call list) fs" where
  "logged fs = \<lparr>fs_resolve = (\<lambda>p (w, _). fs_resolve fs p w), fs_exists = (\<lambda>p (w, _). fs_exists fs p w),
     fs_is_file = (\<lambda>p (w, _). fs_is_file fs p w),
     fs_mkdir = (\<lambda>p. note_call (Made_Dir p) (fs_mkdir fs p)),
     fs_write = (\<lambda>p s. note_call (Wrote p) (fs_write fs p s)),
     fs_unlink = (\<lambda>p. note_call (Removed p) (fs_unlink fs p)),
     fs_run = (\<lambda>cmd p. note_call (Ran p) (fs_run fs cmd p))\<rparr>"

lemma logged_reads [simp]:
  "fs_resolve (logged fs) p v = fs_resolve fs p (fst v)"
  "fs_exists (logged fs) p v = fs_exists fs p (fst v)"
  "fs_is_file (logged fs) p v = fs_is_file fs p (fst v)"
  by (simp_all add: logged_def split: prod.splits)

lemma logged_calls:
  "fs_mkdir (logged fs) p = note_call (Made_Dir p) (fs_mkdir fs p)"
  "fs_write (logged fs) p s = note_call (Wrote p) (fs_write fs p s)"
  "fs_unlink (logged fs) p = note_call (Removed p) (fs_unlink fs p)"
  "fs_run (logged fs) cmd p = note_call (Ran p) (fs_run fs cmd p)"
  by (simp_all add: logged_def)

text \<open>The callables of a run whose executor is a script; the others work beside the notes.\<close>

definition script_env :: "'w fs \<Rightarrow> val \<Rightarrow> string list \<Rightarrow> string list \<Rightarrow> 'w env \<Rightarrow> 'w env" where
  "script_env fs spec ws secrets env = env\<lparr>execute := scripted_execute fs spec ws secrets,
     compensate := scripted_compensate fs ws\<rparr>"

definition noted_env :: "'w fs \<Rightarrow> val \<Rightarrow> string list \<Rightarrow> string list \<Rightarrow> 'w env \<Rightarrow> ('w \<times> fs_call list) env" where
  "noted_env fs spec ws secrets env =
     \<lparr>clock = onW (clock env), ids = (\<lambda>k. onW (ids env k)), sleep = (\<lambda>d. onW (sleep env d)),
      control = onW (control env), execute = scripted_execute (logged fs) spec ws secrets,
      compensate = scripted_compensate (logged fs) ws,
      git_has_changes = (\<lambda>p. onW (git_has_changes env p)),
      git_commit_all = (\<lambda>p b m. onW (git_commit_all env p b m))\<rparr>"

section \<open>The jail of a run\<close>

definition roots_of :: "(string \<times> val) list \<Rightarrow> string list" where
  "roots_of scope = (case scope_roots scope of Inr rs \<Rightarrow> rs | Inl _ \<Rightarrow> [])"

text \<open>
  A path below a directory: relative to it, never above it on the way, and below one of the
  allowed roots.
\<close>

definition in_jail :: "string list \<Rightarrow> string list \<Rightarrow> string list \<Rightarrow> bool" where
  "in_jail base roots p \<longleftrightarrow> (\<exists>path cs. \<not> isabs path \<and> p = path_join base path
     \<and> walk [] (split_on slash path) = Some cs \<and> (\<exists>r \<in> set roots. under (normpath path) r))"

text \<open>
  What a run may ask for, whether the workspace resolves to the same place at all times or not:
  writes in the jail, directories on the way to them, removals of what resolves into the
  workspace, and commands started in the workspace.
\<close>

definition confined :: "'w fs \<Rightarrow> string list \<Rightarrow> string list \<Rightarrow> fs_call \<Rightarrow> bool" where
  "confined fs ws roots c = (case c of
      Wrote p \<Rightarrow> \<exists>w. in_jail (fs_resolve fs ws w) roots p
    | Made_Dir p \<Rightarrow> \<exists>w q. in_jail (fs_resolve fs ws w) roots q \<and> p = butlast q
    | Removed p \<Rightarrow> \<exists>w. inside (fs_resolve fs ws w) p
    | Ran p \<Rightarrow> p = ws)"

definition jailed :: "'w fs \<Rightarrow> string list \<Rightarrow> string list \<Rightarrow> 'w \<times> fs_call list \<Rightarrow> bool" where
  "jailed fs ws roots wc \<longleftrightarrow> (\<forall>c \<in> set (snd wc). confined fs ws roots c)"

lemma ensures_read: "(\<And>v. I v \<Longrightarrow> ensures I (m v) Q) \<Longrightarrow> ensures I (\<lambda>w. m w w) Q"
  unfolding ensures_def by blast

lemma onW_stays [ensures_intros]: "stays (jailed fs ws roots) (onW m)"
  by (rule ensuresI) (auto simp: jailed_def)

lemma note_stays: "confined fs ws roots c \<Longrightarrow> stays (jailed fs ws roots) (note_call c m)"
  by (rule ensuresI) (auto simp: jailed_def note_call_def split: prod.splits)

lemma allowed_in_jail:
  assumes "jd_allowed (classify_path path roots [])"
  shows "in_jail base roots (path_join base path)"
  using classify_allowed [OF assms] unfolding in_jail_def by metis

lemma logged_write:
  "apply_write (logged fs) path content ws roots = (\<lambda>v. (
     let decision = classify_path path roots [] in
     if \<not> jd_allowed decision
     then raiseI (PermissionError (''sandbox denied '' @ path @ '': '' @ jd_reason decision)) else
     let base = fs_resolve fs ws (fst v);
         target = path_join base path;
         ancestor = existing_ancestor (\<lambda>p. fs_exists fs p (fst v)) (rev target) in
     if \<not> inside base (fs_resolve fs ancestor (fst v))
     then raiseI (PermissionError (''sandbox denied '' @ path @ '': SANDBOX.ESCAPE (realpath)''))
     else bindI (fs_mkdir (logged fs) (butlast target)) (\<lambda>_.
          bindI (liftI (as_str content)) (\<lambda>content.
          bindI (fs_write (logged fs) target content) (\<lambda>_. retI path)))) v)"
  unfolding apply_write_def Let_def logged_reads raiseI_def by (rule ext) (simp only: if_distrib [of "\<lambda>f. f _"] if_distribR)

lemma jailed_calls:
  assumes "jd_allowed (classify_path path roots [])"
  shows "confined fs ws roots (Wrote (path_join (fs_resolve fs ws w) path))"
    "confined fs ws roots (Made_Dir (butlast (path_join (fs_resolve fs ws w) path)))"
  using allowed_in_jail [OF assms] unfolding confined_def by auto

lemma write_stays: "stays (jailed fs ws roots) (apply_write (logged fs) path content ws roots)"
  unfolding logged_write Let_def
  by (rule ensures_read, intro ensures_if ensures_raise stays_bind ensures_lift ensures_ret)
    (simp_all add: logged_calls note_stays jailed_calls)

lemma command_stays: "stays (jailed fs ws roots) (run_command (logged fs) cmd ws)"
  unfolding run_command_def
  by (intro stays_bind) (auto simp: logged_calls confined_def intro!: note_stays ensures_ret split: prod.splits)

lemma action_stays: "stays (jailed fs ws roots) (run_action (logged fs) ws roots touched a)"
  unfolding run_action_def
  by (intro ensures_catch stays_bind ensures_if ensures_lift ensures_ret write_stays command_stays)
    (auto intro: ensures_ret split: pyerr.splits)

lemma actions_stays: "stays (jailed fs ws roots) (run_actions (logged fs) ws roots touched as)"
proof (induction as arbitrary: touched)
  case (Cons a as)
  then show ?case
    by (auto intro!: stays_bind action_stays ensures_ret split: progress.splits)
qed (simp add: ensures_ret)

lemma checks_stays: "stays (jailed fs ws roots) (run_checks (logged fs) checks ws secrets)"
  unfolding run_checks_def run_check_def
  by (rule ensures_foldI) (auto intro!: stays_bind command_stays ensures_lift ensures_ret split: prod.splits)

lemma spec_stays: "stays (jailed fs ws roots) (apply_task_spec (logged fs) spec ws roots secrets)"
  unfolding apply_task_spec_def
  by (intro stays_bind ensures_lift actions_stays)
    (auto intro!: stays_bind ensures_lift ensures_if ensures_ret checks_stays split: progress.splits)

lemma execute_stays: "stays (jailed fs ws (roots_of scope)) (scripted_execute (logged fs) spec ws secrets task scope)"
proof -
  have last: "stays (jailed fs ws (roots_of scope)) (bindI (liftI (scope_roots scope)) (\<lambda>roots.
     apply_task_spec (logged fs) task_spec ws roots secrets))" for task_spec
    by (rule ensures_bind [where R = "\<lambda>roots. roots = roots_of scope"])
      (auto simp: roots_of_def intro!: ensures_lift spec_stays)
  show ?thesis
    unfolding scripted_execute_def
    by (rule stays_bind, rule ensures_lift, simp, rule stays_bind, rule ensures_lift, simp, rule last)
qed

lemma undo_stays: "stays (jailed fs ws roots) (scripted_compensate (logged fs) ws touched)"
proof -
  have one: "stays (jailed fs ws roots) (undo_one (logged fs) (fs_resolve fs ws w) removed path)" for w removed path
  proof -
    have *: "undo_one (logged fs) (fs_resolve fs ws w) removed path = (\<lambda>v.
        (let target = fs_resolve fs (path_join (fs_resolve fs ws w) path) (fst v) in
         if inside (fs_resolve fs ws w) target \<and> fs_is_file fs target (fst v)
         then bindI (fs_unlink (logged fs) target) (\<lambda>_. retI (removed @ [path])) else retI removed) v)"
      by (rule ext) (simp add: undo_one_def Let_def)
    show ?thesis
      unfolding * Let_def
      by (rule ensures_read, intro ensures_if stays_bind ensures_ret)
        (auto simp: logged_calls confined_def intro!: note_stays)
  qed
  have "undo_writes (logged fs) touched ws = (\<lambda>v. foldI (undo_one (logged fs) (fs_resolve fs ws (fst v))) [] touched v)"
    by (rule ext) (simp add: undo_writes_def)
  then have "stays (jailed fs ws roots) (undo_writes (logged fs) touched ws)"
    by simp (rule ensures_read, intro ensures_foldI one, simp)
  then show ?thesis
    unfolding scripted_compensate_def by (intro stays_bind ensures_ret) auto
qed

interpretation jail: world_invariant "jailed fs ws (roots_of scope)" "noted_env fs spec ws secrets env" scope
  for fs ws scope spec secrets env
  by unfold_locales (simp_all add: noted_env_def onW_stays execute_stays undo_stays)

section \<open>The notes change nothing\<close>

lemma beside_note [beside_intros]: "beside fst (note_call c m) m"
  by (simp add: beside_def note_call_def split: prod.splits)

lemma plain_write:
  "apply_write fs path content ws roots = (\<lambda>w. (
     let decision = classify_path path roots [] in
     if \<not> jd_allowed decision
     then raiseI (PermissionError (''sandbox denied '' @ path @ '': '' @ jd_reason decision)) else
     let base = fs_resolve fs ws w;
         target = path_join base path;
         ancestor = existing_ancestor (\<lambda>p. fs_exists fs p w) (rev target) in
     if \<not> inside base (fs_resolve fs ancestor w)
     then raiseI (PermissionError (''sandbox denied '' @ path @ '': SANDBOX.ESCAPE (realpath)''))
     else bindI (fs_mkdir fs (butlast target)) (\<lambda>_.
          bindI (liftI (as_str content)) (\<lambda>content.
          bindI (fs_write fs target content) (\<lambda>_. retI path)))) w)"
  unfolding apply_write_def Let_def raiseI_def by (rule ext) (simp only: if_distrib [of "\<lambda>f. f _"] if_distribR)

lemma beside_write [beside_intros]: "beside fst (apply_write (logged fs) path content ws roots) (apply_write fs path content ws roots)"
  unfolding logged_write unfolding plain_write Let_def logged_calls
  by (rule beside_read, intro beside_intros)

lemma beside_command [beside_intros]: "beside fst (run_command (logged fs) cmd ws) (run_command fs cmd ws)"
  unfolding run_command_def logged_calls by (intro beside_intros)

lemma beside_action [beside_intros]: "beside fst (run_action (logged fs) ws roots touched a) (run_action fs ws roots touched a)"
  unfolding run_action_def
  by (intro beside_catch beside_intros) (auto intro: beside_intros split: pyerr.splits)

lemma beside_actions [beside_intros]:
  "beside fst (run_actions (logged fs) ws roots touched as) (run_actions fs ws roots touched as)"
proof (induction as arbitrary: touched)
  case (Cons a as)
  have "beside fst (case p of Stops r \<Rightarrow> retI (Stops r) | Goes touched \<Rightarrow> run_actions (logged fs) ws roots touched as)
      (case p of Stops r \<Rightarrow> retI (Stops r) | Goes touched \<Rightarrow> run_actions fs ws roots touched as)" for p
    using Cons.IH by (cases p) (simp_all add: beside_intros)
  then show ?case by (simp add: beside_intros)
qed (simp add: beside_intros)

lemma beside_checks [beside_intros]:
  "beside fst (run_checks (logged fs) checks ws secrets) (run_checks fs checks ws secrets)"
  unfolding run_checks_def run_check_def
  by (intro beside_foldI) (auto intro!: beside_intros split: prod.splits)

lemma beside_spec [beside_intros]:
  "beside fst (apply_task_spec (logged fs) spec ws roots secrets) (apply_task_spec fs spec ws roots secrets)"
proof -
  have branch: "beside fst (case p of Stops r \<Rightarrow> retI r | Goes touched \<Rightarrow> f' touched) (case p of Stops r \<Rightarrow> retI r | Goes touched \<Rightarrow> f touched)"
    if "\<And>touched. beside fst (f' touched) (f touched)" for p and f' :: "string list \<Rightarrow> ('a \<times> fs_call list, exec_result) io"
      and f :: "string list \<Rightarrow> ('a, exec_result) io"
    using that by (cases p) (simp_all add: beside_intros)
  show ?thesis
    unfolding apply_task_spec_def by (intro beside_intros branch)
qed

lemma beside_execute [beside_intros]:
  "beside fst (scripted_execute (logged fs) spec ws secrets task scope) (scripted_execute fs spec ws secrets task scope)"
  unfolding scripted_execute_def by (intro beside_intros)

lemma beside_undo [beside_intros]: "beside fst (scripted_compensate (logged fs) ws ps) (scripted_compensate fs ws ps)"
proof -
  have one: "beside fst (undo_one (logged fs) rt removed path) (undo_one fs rt removed path)" for rt removed path
  proof -
    have *: "undo_one (logged fs) rt removed path = (\<lambda>v. (
        if inside rt (fs_resolve fs (path_join rt path) (fst v)) \<and> fs_is_file fs (fs_resolve fs (path_join rt path) (fst v)) (fst v)
        then bindI (fs_unlink (logged fs) (fs_resolve fs (path_join rt path) (fst v))) (\<lambda>_. retI (removed @ [path]))
        else retI removed) v)"
      by (rule ext) (simp add: undo_one_def Let_def)
    have **: "undo_one fs rt removed path = (\<lambda>w. (
        if inside rt (fs_resolve fs (path_join rt path) w) \<and> fs_is_file fs (fs_resolve fs (path_join rt path) w) w
        then bindI (fs_unlink fs (fs_resolve fs (path_join rt path) w)) (\<lambda>_. retI (removed @ [path]))
        else retI removed) w)"
      by (rule ext) (simp add: undo_one_def Let_def)
    show ?thesis
      unfolding * ** logged_calls by (rule beside_read, intro beside_intros)
  qed
  have w: "undo_writes (logged fs) ps ws = (\<lambda>v. foldI (undo_one (logged fs) (fs_resolve fs ws (fst v))) [] ps v)"
    "undo_writes fs ps ws = (\<lambda>w. foldI (undo_one fs (fs_resolve fs ws w)) [] ps w)"
    by (rule ext, simp add: undo_writes_def)+
  have "beside fst (undo_writes (logged fs) ps ws) (undo_writes fs ps ws)"
    unfolding w by (rule beside_read, intro beside_foldI one)
  then show ?thesis
    unfolding scripted_compensate_def by (intro beside_intros)
qed

interpretation noted: beside_env fst "noted_env fs spec ws secrets env" "script_env fs spec ws secrets env"
  for fs spec ws secrets env
  by unfold_locales (simp_all add: noted_env_def script_env_def beside_intros)

section \<open>The property\<close>

text \<open>
  C7. A run stays in its jail. Whatever the script, the world and the other callables are, and
  however the run ends, all it asks of the file system is to write below an allowed root of the
  manifest, to make the directories on the way, to remove what resolves into the workspace, and
  to start commands there. Noting the calls changes neither the result nor the world.
\<close>

theorem run_stays_in_jail:
  assumes "item manifest ''isolation_scope'' = Inr (VDict scope)"
    and "run H agent (noted_env fs spec ws secrets env) mr bb gate manifest (w, []) = (res, (w', calls))"
  shows "(\<forall>c \<in> set calls. confined fs ws (roots_of scope) c)
     \<and> run H agent (script_env fs spec ws secrets env) mr bb gate manifest w = (res, w')"
proof
  have "jailed fs ws (roots_of scope) (w', calls)"
    by (rule ensures_world [OF jail.run_stays [OF assms(1)] _ assms(2)]) (simp add: jailed_def)
  then show "\<forall>c \<in> set calls. confined fs ws (roots_of scope) c" by (simp add: jailed_def)
  show "run H agent (script_env fs spec ws secrets env) mr bb gate manifest w = (res, w')"
    using besideD [OF noted.b_run assms(2)] by simp
qed

text \<open>A script that writes one file in the jail and then tries to leave it.\<close>

definition escape_spec :: val where
  "escape_spec = VDict [(''T1'', VDict [(''actions'', VList [
     VDict [(''type'', VStr ''write''), (''path'', VStr ''src/a''), (''content'', VStr ''1'')],
     VDict [(''type'', VStr ''write''), (''path'', VStr ''../etc/b''), (''content'', VStr ''2'')]])])]"

definition still_env :: "'w env" where
  "still_env = \<lparr>clock = retI ''t'', ids = retI, sleep = (\<lambda>_. retI ()), control = retI ''running'',
     execute = (\<lambda>_ _. raiseI TypeError), compensate = (\<lambda>_. retI ()),
     git_has_changes = (\<lambda>_. retI True), git_commit_all = (\<lambda>_ _ _. retI ''sha'')\<rparr>"

definition solo_manifest :: val where
  "solo_manifest = VDict [(''metadata'', VDict [(''schema_version'', VStr ''1.0'')]),
     (''intake_control'', VDict [(''source_iplan'', VStr ''I1''), (''source_iplan_version'', VStr ''1''),
        (''source_iplan_checksum'', VStr ''c''), (''exec_ready_score'', VInt 92), (''approved'', VBool True)]),
     (''isolation_scope'', VDict ex_scope), (''task_graph'', VList [ex_task ''T1'' []])]"

definition solo_calls :: "fs_call list" where
  "solo_calls = [Made_Dir [''w'', ''src''], Wrote [''w'', ''src'', ''a'']]"

lemma solo_execute: "scripted_execute (logged plain_fs) escape_spec [''w''] [] (ex_task ''T1'' []) ex_scope ([], [])
   = (Inr (failure [''src/a''] ''sandbox denied ../etc/b: SANDBOX.ESCAPE''), ([([''w'', ''src'', ''a''], ''1'')], solo_calls))"
  by code_simp

lemma solo_compensate: "scripted_compensate (logged plain_fs) [''w''] [''src/a''] ([([''w'', ''src'', ''a''], ''1'')], solo_calls)
   = (Inr (), ([], solo_calls @ [Removed [''w'', ''src'', ''a'']]))"
  by code_simp

definition solo_ledger :: ledger where
  "solo_ledger = ex_ledger\<lparr>task_ledger := [ex_entry ''T1''],
     reconciled := \<lparr>r_allowed = False, pending_tasks = 1, open_blockers = 0\<rparr>\<rparr>"

lemma solo_reads: "validate_intake solo_manifest = Inr []" "init_ledger solo_manifest = Inr solo_ledger"
    "bindR (item solo_manifest ''task_graph'') iter = Inr [ex_task ''T1'' []]"
    "nodes_by_id [ex_task ''T1'' []] = Inr [(''T1'', ex_task ''T1'' [])]"
    "topo_order [ex_task ''T1'' []] = Inr [''T1'']"
    "item solo_manifest ''isolation_scope'' = Inr (VDict ex_scope)"
  by code_simp+

lemma solo_fields:
  "clock (noted_env fs spec ws secrets still_env) = retI ''t''" "ids (noted_env fs spec ws secrets still_env) = retI"
  "control (noted_env fs spec ws secrets still_env) = retI ''running''"
  "execute (noted_env fs spec ws secrets still_env) = scripted_execute (logged fs) spec ws secrets"
  "compensate (noted_env fs spec ws secrets still_env) = scripted_compensate (logged fs) ws"
  by (auto simp: noted_env_def still_env_def onW_def retI_def fun_eq_iff)

lemma solo_loop: "\<exists>r. drive_loop ex_digest ''claude'' (noted_env plain_fs escape_spec [''w''] [] still_env) 0 0
     [(''T1'', ex_task ''T1'' [])] [''T1''] {} solo_ledger ([], [])
   = (r, ([], solo_calls @ [Removed [''w'', ''src'', ''a'']]))"
  by (simp add: loop_eval solo_fields solo_ledger_def solo_execute [unfolded ex_scope_def] solo_compensate failure_def
      fail_task_def escalate_def block_entry_def add_blocker_def failure_reason_def
      cong: bindI_stop bindI_stop2 bindR_weak let_weak_cong)

lemma solo_run: "\<exists>res. run ex_digest ''claude'' (noted_env plain_fs escape_spec [''w''] [] still_env) 0 0 VNone
     solo_manifest ([], []) = (res, ([], solo_calls @ [Removed [''w'', ''src'', ''a'']]))"
proof -
  obtain r where loop: "drive_loop ex_digest ''claude'' (noted_env plain_fs escape_spec [''w''] [] still_env) 0 0
     [(''T1'', ex_task ''T1'' [])] [''T1''] {} solo_ledger ([], [])
   = (r, ([], solo_calls @ [Removed [''w'', ''src'', ''a'']]))" using solo_loop by blast
  have "status_of [] = ''pass''" by (simp add: status_of_def)
  then show ?thesis
    by (cases r) (auto simp: run_def drive_def solo_reads solo_reads(3) [simplified] bindI_app loop Let_def liftI_def
        simp del: drive_loop.simps split: prod.splits)
qed

theorem run_stays_in_jail_witness:
  "in_jail [''w''] [''src/''] [''w'', ''src'', ''a'']"
proof -
  obtain res where "run ex_digest ''claude'' (noted_env plain_fs escape_spec [''w''] [] still_env) 0 0 VNone
     solo_manifest ([], []) = (res, ([], solo_calls @ [Removed [''w'', ''src'', ''a'']]))" using solo_run by blast
  from run_stays_in_jail [OF solo_reads(6) this]
  have "confined plain_fs [''w''] (roots_of ex_scope) (Wrote [''w'', ''src'', ''a''])" by (simp add: solo_calls_def)
  moreover have "roots_of ex_scope = [''src/'']" by code_simp
  ultimately show ?thesis by (simp add: confined_def plain_fs_def)
qed

end
