(* ===== verification/ModelJail.thy ===== *)
theory ModelJail
  imports RunJail EngineParity
begin

text \<open>
  The autonomous engine in its jail: a Hermes run whose actions are written by a model. The
  answer of the model is data; whatever it says, the run asks the file system for no more than
  a scripted run does.
\<close>

section \<open>The callables\<close>

definition model_env ::
  "(string \<Rightarrow> val res) \<Rightarrow> ('w, string, model_response) provider \<Rightarrow> 'w fs \<Rightarrow> budget \<Rightarrow> string list \<Rightarrow> string list
     \<Rightarrow> 'w env \<Rightarrow> ('w \<times> usage) env" where
  "model_env loads p fs b ws secrets env =
     \<lparr>clock = onW (clock env), ids = (\<lambda>k. onW (ids env k)), sleep = (\<lambda>d. onW (sleep env d)),
      control = onW (control env), execute = api_execute loads p fs b ws secrets,
      compensate = (\<lambda>touched. onW (scripted_compensate fs ws touched)),
      git_has_changes = (\<lambda>p. onW (git_has_changes env p)),
      git_commit_all = (\<lambda>p b m. onW (git_commit_all env p b m))\<rparr>"

text \<open>The provider works beside the notes.\<close>

definition noted_provider :: "('w, 'q, 'a) provider \<Rightarrow> ('w \<times> fs_call list, 'q, 'a) provider" where
  "noted_provider p = \<lparr>pv_call = (\<lambda>q. onW (pv_call p q)), pv_monotonic = onW (pv_monotonic p),
     pv_abandon = (\<lambda>limit (w, calls). map_option (\<lambda>w'. (w', calls)) (pv_abandon p limit w))\<rparr>"

definition noted_model_env ::
  "(string \<Rightarrow> val res) \<Rightarrow> ('w, string, model_response) provider \<Rightarrow> 'w fs \<Rightarrow> budget \<Rightarrow> string list \<Rightarrow> string list
     \<Rightarrow> 'w env \<Rightarrow> (('w \<times> fs_call list) \<times> usage) env" where
  "noted_model_env loads p fs b ws secrets env =
     model_env loads (noted_provider p) (logged fs) b ws secrets (noted_env fs VNone ws secrets env)"

section \<open>What is kept\<close>

abbreviation on_fst :: "('w \<Rightarrow> bool) \<Rightarrow> 'w \<times> 'u \<Rightarrow> bool" where
  "on_fst I v \<equiv> I (fst v)"

lemma stays_onW: "stays I m \<Longrightarrow> stays (on_fst I) (onW m)"
  unfolding ensures_def onW_def by (auto split: prod.splits)

lemma stays_onU: "stays (on_fst I) (onU f)"
  by (rule ensuresI) auto

lemma stays_usage: "stays (on_fst I) (check_usage b)"
  by (rule ensuresI) (auto simp: check_usage_def)

lemma stays_charge: "stays (on_fst I) (charge reported)"
  unfolding charge_def by (intro stays_bind ensures_lift stays_onU) simp_all

lemma deadline_stays:
  "stays (jailed fs ws roots) (run_with_deadline (pv_abandon (noted_provider p)) (pv_call (noted_provider p) q) limit)"
proof (cases limit)
  case None
  then show ?thesis by (simp add: run_with_deadline_def noted_provider_def onW_stays)
next
  case (Some d)
  show ?thesis
  proof (rule ensuresI)
    fix v r v'
    assume j: "jailed fs ws roots v"
      and r: "run_with_deadline (pv_abandon (noted_provider p)) (pv_call (noted_provider p) q) limit v = (r, v')"
    have "snd v' = snd v"
      using r Some by (cases v) (auto simp: run_with_deadline_def noted_provider_def split: option.splits)
    with j show "jailed fs ws roots v'" by (simp add: jailed_def)
  qed simp
qed

lemma timed_stays: "stays (on_fst (jailed fs ws roots)) (timed_call (noted_provider p) b q)"
  unfolding timed_call_def
  by (intro stays_bind ensures_catch stays_onW deadline_stays ensures_ret stays_onU)
    (auto simp: noted_provider_def intro!: onW_stays ensures_ret split: if_splits)

lemma api_stays:
  "stays (on_fst (jailed fs ws (roots_of scope)))
     (api_execute loads (noted_provider p) (logged fs) b ws secrets task scope)"
proof -
  have last: "stays (on_fst (jailed fs ws (roots_of scope))) (bindI (liftI (scope_roots scope)) (\<lambda>roots.
     onW (apply_task_spec (logged fs) spec ws roots secrets)))" for spec
    by (rule ensures_bind [where R = "\<lambda>roots. roots = roots_of scope"])
      (auto simp: roots_of_def intro!: ensures_lift stays_onW spec_stays)
  show ?thesis
    unfolding api_execute_def
    by (intro stays_bind ensures_if stays_usage timed_stays)
      (auto intro!: ensures_lift ensures_ret stays_bind stays_charge stays_usage ensures_if last split: option.splits)
qed

interpretation model_jail: world_invariant "on_fst (jailed fs ws (roots_of scope))"
  "noted_model_env loads p fs b ws secrets env" scope for fs ws scope loads p b secrets env
  by unfold_locales
    (simp_all add: noted_model_env_def model_env_def noted_env_def stays_onW onW_stays api_stays undo_stays)

section \<open>The notes change nothing\<close>

abbreviation unnote :: "('w \<times> fs_call list) \<times> 'u \<Rightarrow> 'w \<times> 'u" where
  "unnote \<equiv> map_prod fst id"

lemma unnote_onW:
  assumes "beside fst m' m"
  shows "beside unnote (onW m') (onW m)"
proof (rule besideI)
  fix v r v' assume b: "onW m' v = (r, v')"
  obtain w calls u where v: "v = ((w, calls), u)" by (metis prod.collapse)
  obtain x wc where x: "m' (w, calls) = (x, wc)" by (cases "m' (w, calls)")
  from besideD [OF assms x] b show "onW m (unnote v) = (r, unnote v')" by (auto simp: v x)
qed

lemma unnote_usage [beside_intros]:
  "beside unnote (onU f) (onU f)" "beside unnote (check_usage b) (check_usage b)"
  by (simp_all add: beside_def check_usage_def split: prod.splits)

lemma unnote_charge [beside_intros]: "beside unnote (charge reported) (charge reported)"
  unfolding charge_def by (intro beside_intros)

lemma unnote_deadline:
  "beside fst (run_with_deadline (pv_abandon (noted_provider p)) (pv_call (noted_provider p) q) limit)
     (run_with_deadline (pv_abandon p) (pv_call p q) limit)"
  by (cases limit) (auto simp: beside_def run_with_deadline_def noted_provider_def split: option.splits)

lemma unnote_timed [beside_intros]: "beside unnote (timed_call (noted_provider p) b q) (timed_call p b q)"
  unfolding timed_call_def
  by (intro beside_bind beside_catch unnote_onW unnote_deadline beside_intros)
    (auto simp: noted_provider_def intro: beside_intros)

lemma unnote_api [beside_intros]:
  "beside unnote (api_execute loads (noted_provider p) (logged fs) b ws secrets task scope)
     (api_execute loads p fs b ws secrets task scope)"
  unfolding api_execute_def by (intro beside_intros unnote_onW)

interpretation model_noted: beside_env unnote "noted_model_env loads p fs b ws secrets env"
  "model_env loads p fs b ws secrets env" for loads p fs b ws secrets env
  by unfold_locales (simp_all add: noted_model_env_def model_env_def noted_env_def beside_intros unnote_onW)

section \<open>The property\<close>

lemma hermes_run_eq: "hermes_run H env mr bb gate manifest = run H HERMES_AGENT_ID env mr bb gate manifest"
proof -
  have "hermes_drive H env mr bb gate manifest c = drive H HERMES_AGENT_ID env mr bb gate manifest c" for c
    by (rule ext) (rule hermes_drive_eq)
  then show ?thesis unfolding hermes_run_def run_def by (simp cong: if_cong)
qed

text \<open>
  C8. The autonomous engine stays in its jail. Whatever the model answers, the provider and the
  deadline do, and however the run ends, all a Hermes run asks of the file system is to write
  below an allowed root of the manifest, to make the directories on the way, to remove what
  resolves into the workspace, and to start commands there. Noting the calls changes neither
  the result, nor the world, nor the usage charged.
\<close>

theorem model_run_stays_in_jail:
  assumes "item manifest ''isolation_scope'' = Inr (VDict scope)"
    and "hermes_run H (noted_model_env loads p fs b ws secrets env) mr bb gate manifest ((w, []), u)
       = (res, ((w', calls), u'))"
  shows "(\<forall>c \<in> set calls. confined fs ws (roots_of scope) c)
     \<and> hermes_run H (model_env loads p fs b ws secrets env) mr bb gate manifest (w, u) = (res, (w', u'))"
proof
  have "on_fst (jailed fs ws (roots_of scope)) ((w', calls), u')"
    by (rule ensures_world [OF model_jail.run_stays [OF assms(1)] _ assms(2) [unfolded hermes_run_eq]])
      (simp add: jailed_def)
  then show "\<forall>c \<in> set calls. confined fs ws (roots_of scope) c" by (simp add: jailed_def)
  show "hermes_run H (model_env loads p fs b ws secrets env) mr bb gate manifest (w, u) = (res, (w', u'))"
    using besideD [OF model_noted.b_run assms(2) [unfolded hermes_run_eq]] by (simp add: hermes_run_eq)
qed

section \<open>An example\<close>

text \<open>A model that answers with the script of \<open>escape_spec\<close>.\<close>

definition escape_model :: "('w, string, model_response) provider" where
  "escape_model = \<lparr>pv_call = stub_complete ''x'' None, pv_monotonic = retI 0, pv_abandon = (\<lambda>_ _. None)\<rparr>"

definition escape_loads :: "string \<Rightarrow> val res" where
  "escape_loads s = get escape_spec ''T1''"

abbreviation escape_env :: "(((string list \<times> string) list \<times> fs_call list) \<times> usage) env" where
  "escape_env \<equiv> noted_model_env escape_loads escape_model plain_fs no_budget [''w''] [] still_env"

lemma escape_execute:
  "api_execute escape_loads (noted_provider escape_model) (logged plain_fs) no_budget [''w''] [] (ex_task ''T1'' []) ex_scope
     (([], []), no_usage)
   = (Inr (failure [''src/a''] ''sandbox denied ../etc/b: SANDBOX.ESCAPE''),
      (([([''w'', ''src'', ''a''], ''1'')], solo_calls), no_usage))"
  by code_simp

lemma escape_fields:
  "clock escape_env = retI ''t''" "ids escape_env = retI" "control escape_env = retI ''running''"
  "execute escape_env = api_execute escape_loads (noted_provider escape_model) (logged plain_fs) no_budget [''w''] []"
  "compensate escape_env = (\<lambda>touched. onW (scripted_compensate (logged plain_fs) [''w''] touched))"
  by (auto simp: noted_model_env_def model_env_def noted_env_def still_env_def onW_def retI_def fun_eq_iff)

lemma escape_loop: "\<exists>r. drive_loop ex_digest HERMES_AGENT_ID escape_env 0 0
     [(''T1'', ex_task ''T1'' [])] [''T1''] {} solo_ledger (([], []), no_usage)
   = (r, (([], solo_calls @ [Removed [''w'', ''src'', ''a'']]), no_usage))"
  by (simp add: loop_eval escape_fields solo_ledger_def escape_execute [unfolded ex_scope_def] solo_compensate failure_def
      fail_task_def escalate_def block_entry_def add_blocker_def failure_reason_def
      cong: bindI_stop bindI_stop2 bindR_weak let_weak_cong)

lemma escape_run: "\<exists>res. hermes_run ex_digest escape_env 0 0 VNone solo_manifest (([], []), no_usage)
   = (res, (([], solo_calls @ [Removed [''w'', ''src'', ''a'']]), no_usage))"
proof -
  obtain r where loop: "drive_loop ex_digest HERMES_AGENT_ID escape_env 0 0
     [(''T1'', ex_task ''T1'' [])] [''T1''] {} solo_ledger (([], []), no_usage)
   = (r, (([], solo_calls @ [Removed [''w'', ''src'', ''a'']]), no_usage))" using escape_loop by blast
  have "status_of [] = ''pass''" by (simp add: status_of_def)
  then show ?thesis
    by (cases r) (auto simp: hermes_run_eq run_def drive_def solo_reads solo_reads(3) [simplified] bindI_app loop Let_def liftI_def
        simp del: drive_loop.simps split: prod.splits)
qed

theorem model_run_stays_in_jail_witness:
  "in_jail [''w''] [''src/''] [''w'', ''src'', ''a'']"
proof -
  obtain res where "hermes_run ex_digest escape_env 0 0 VNone solo_manifest (([], []), no_usage)
   = (res, (([], solo_calls @ [Removed [''w'', ''src'', ''a'']]), no_usage))" using escape_run by blast
  from model_run_stays_in_jail [OF solo_reads(6) this]
  have "confined plain_fs [''w''] (roots_of ex_scope) (Wrote [''w'', ''src'', ''a''])" by (simp add: solo_calls_def)
  moreover have "roots_of ex_scope = [''src/'']" by code_simp
  ultimately show ?thesis by (simp add: confined_def plain_fs_def)
qed

end
