(* ===== verification/CommandClaims.thy ===== *)
theory CommandClaims
  imports OutcomeClaims LedgerClaims CliClaims RunTotal
begin

text \<open>
  What the exit code of a command means: the run command from the file it reads to the ledger
  it leaves in the store, across intake, loop, gate, store and handover.
\<close>

section \<open>The receipt a command reads\<close>

lemma read_receipt:
  assumes "item receipt ''result'' = Inr result" and "item result ''status'' = Inr status"
  shows "receipt_field receipt ''result'' ''status'' = status"
  using assms by (auto simp: receipt_field_def item_Inr_iff dget_def)

definition in_store :: "digest \<Rightarrow> cli \<Rightarrow> ledger \<Rightarrow> bool" where
  "in_store H c l \<longleftrightarrow> bindR (load H (ledger_file (ledger_id (ledger_control l))) (cl_store c)) ledger_of = Inr l"

definition passes :: "digest \<Rightarrow> ledger \<Rightarrow> bool" where
  "passes H l \<longleftrightarrow> map_sum id g_status (run_gate H (ledger_val l) default_gate) = Inr ''passed''"

lemma run_passes:
  assumes "run H agent env mr bb default_gate manifest w = (Inr r, w')"
  shows "g_status (rr_gate r) = ''passed'' \<longleftrightarrow> passes H (rr_ledger r)"
proof -
  have "or_else default_gate default_gate = default_gate" by (simp add: or_else_def)
  then have "run_gate H (ledger_val (rr_ledger r)) default_gate = Inr (rr_gate r)"
    using assms by (auto simp: run_def drive_def bindI_Inr_iff bindR_Inr_iff Let_def split: if_splits)
  then show ?thesis by (simp add: passes_def)
qed

text \<open>The command after validation.\<close>

definition run_and_save ::
  "crypto \<Rightarrow> ('w \<times> cli) fs \<Rightarrow> ('w \<times> cli) engine \<Rightarrow> run_args \<Rightarrow> val \<Rightarrow> ('w \<times> cli, int) io" where
  "run_and_save C fs en a manifest =
     bindI (choose_executor fs en a) (\<lambda>x.
     bindI new_ids (\<lambda>_.
     bindI (engine_run (sha256 C) en manifest x (cli_args en None)) (\<lambda>r.
     bindI (land_if_green C en a r) (\<lambda>r.
     bindI (save_ledger (rr_ledger r)) (\<lambda>saved.
     bindI (build_handover en (ledger_val (rr_ledger r)) (rr_gate r) VNone) (\<lambda>receipt.
     bindI (liftI (item receipt ''result'')) (\<lambda>result.
     bindI (liftI (item result ''status'')) (\<lambda>status.
     bindI (emit (VDict [
        (''ledger_id'', VStr (ledger_id (ledger_control (rr_ledger r)))),
        (''gate'', VStr (g_status (rr_gate r))),
        (''handover'', result),
        (''saved'', VStr saved)])) (\<lambda>_.
     retI (exit_of (py_eq status (VStr ''completed''))))))))))))"

lemma cmd_run_split:
  "cmd_run C fs en a =
     bindI (read_manifest en (ra_iplan a)) (\<lambda>manifest.
     bindI (liftI (engine_validate (sha256 C) manifest)) (\<lambda>validation.
     if v_status validation = ''fail''
     then bindI (emit (VDict [(''validation'', validation_val validation)])) (\<lambda>_. retI 1)
     else run_and_save C fs en a manifest))"
  unfolding cmd_run_def run_and_save_def by (rule refl)

lemma run_and_save_Inr:
  assumes "run_and_save C fs en a manifest u0 = (Inr code, (w', c'))" and "\<not> ra_land a"
  obtains x u u1 r saved receipt result status u2 u3 u4 where
    "choose_executor fs en a u0 = (Inr x, u)" "new_ids u = (Inr (), u1)"
    "engine_run (sha256 C) en manifest x (cli_args en None) u1 = (Inr r, u2)"
    "save_ledger (rr_ledger r) u2 = (Inr saved, u3)"
    "build_handover en (ledger_val (rr_ledger r)) (rr_gate r) VNone u3 = (Inr receipt, u4)"
    "item receipt ''result'' = Inr result" "item result ''status'' = Inr status"
    "cl_store c' = cl_store (snd u4)" "code = exit_of (py_eq status (VStr ''completed''))"
proof -
  have no: "land_if_green C en a r = retI r" for r using assms(2) by (simp add: land_if_green_def)
  from assms(1) obtain x u u1 r u2 saved u3 receipt u4 result status v where
    "choose_executor fs en a u0 = (Inr x, u)" "new_ids u = (Inr (), u1)"
    "engine_run (sha256 C) en manifest x (cli_args en None) u1 = (Inr r, u2)"
    "save_ledger (rr_ledger r) u2 = (Inr saved, u3)"
    "build_handover en (ledger_val (rr_ledger r)) (rr_gate r) VNone u3 = (Inr receipt, u4)"
    "item receipt ''result'' = Inr result" "item result ''status'' = Inr status"
    "emit v u4 = (Inr (), (w', c'))" "exit_of (py_eq status (VStr ''completed'')) = code"
    unfolding run_and_save_def no bindI_ret bindI_Inr_iff liftI_app retI_app prod.inject sum.inject
    by (elim exE conjE) (rule that, simp_all)
  moreover from this(8) have "cl_store c' = cl_store (snd u4)" by (cases u4) (auto simp: emit_def)
  ultimately show thesis using that by blast
qed

lemma saved_in_store:
  assumes "save_ledger l u = (Inr saved, u')" and "verify_chain H (execution_log l) = Inr True"
  shows "cl_store (snd u') = run_steps (ledger_id (ledger_control l)) (ledger_val l) save_steps (cl_store (snd u))
     \<and> bindR (load H (ledger_file (ledger_id (ledger_control l))) (cl_store (snd u'))) ledger_of = Inr l"
proof -
  have "bindR (item (ledger_val l) ''ledger_control'') (\<lambda>c. item c ''ledger_id'') = Inr (VStr (ledger_id (ledger_control l)))"
    by (simp add: item_ledger_val control_val_def)
  then have "CHR ''/'' \<notin> set (ledger_id (ledger_control l))"
    using assms(1) by (cases u) (auto simp: save_ledger_def with_store_def save_def)
  from saved_loads [OF assms(2) this, of "cl_store (snd u)"] show ?thesis
    using assms(1) by (cases u) (auto simp: save_ledger_def with_store_def ledger_of_val)
qed

text \<open>
  C9. The exit code of a run. A run command without \<open>--land\<close> that returns has read a manifest. If
  the manifest fails the validation it leaves with 1 and an untouched store. Otherwise it has
  chosen its executor and driven the engine on this manifest; the ledger of that run is in the
  store, written by the atomic save and loading back with its hash chain verified; and the exit
  code is 0 when every task of it is completed and its gate passed, else 1. The verdict is the
  one the gate gives on the stored ledger.
\<close>

theorem run_command_exit:
  assumes "cmd_run C fs en a (w, c) = (Inr code, (w', c'))" and land: "\<not> ra_land a" and clk: "en_clock en = onW clk"
  shows "\<exists>manifest s1 validation.
       read_manifest en (ra_iplan a) (w, c) = (Inr manifest, s1) \<and> engine_validate (sha256 C) manifest = Inr validation
     \<and> (if v_status validation = ''fail'' then code = 1 \<and> cl_store c' = cl_store c
        else \<exists>x s2 s3 r s4.
             choose_executor fs en a s1 = (Inr x, s2) \<and> new_ids s2 = (Inr (), s3)
           \<and> engine_run (sha256 C) en manifest x (cli_args en None) s3 = (Inr r, s4)
           \<and> cl_store c' = run_steps (ledger_id (ledger_control (rr_ledger r))) (ledger_val (rr_ledger r)) save_steps (cl_store (snd s4))
           \<and> in_store (sha256 C) c' (rr_ledger r)
           \<and> code = (if all_completed (rr_ledger r) \<and> g_status (rr_gate r) = ''passed'' then 0 else 1)
           \<and> (g_status (rr_gate r) = ''passed'' \<longleftrightarrow> passes (sha256 C) (rr_ledger r)))"
proof -
  from assms(1) obtain manifest s1 validation where
    m: "read_manifest en (ra_iplan a) (w, c) = (Inr manifest, s1)" and
    v: "engine_validate (sha256 C) manifest = Inr validation" and
    rest: "(if v_status validation = ''fail''
     then bindI (emit (VDict [(''validation'', validation_val validation)])) (\<lambda>_. retI 1) else
     run_and_save C fs en a manifest) s1 = (Inr code, (w', c'))"
    unfolding cmd_run_split bindI_Inr_iff liftI_app by blast
  have c1: "cl_store (snd s1) = cl_store c"
    using m by (auto simp: read_manifest_def read_file_def bindI_Inr_iff split: option.splits)
  show ?thesis
  proof (cases "v_status validation = ''fail''")
    case True
    with rest c1 have "code = 1 \<and> cl_store c' = cl_store c" by (cases s1) (auto simp: emit_def bindI_Inr_iff)
    with True m v show ?thesis by auto
  next
    case False
    from rest [unfolded if_not_P [OF False]] obtain x s2 s3 r saved receipt result status s4 u3 u4 where
      ch: "choose_executor fs en a s1 = (Inr x, s2)" "new_ids s2 = (Inr (), s3)" and
      r: "engine_run (sha256 C) en manifest x (cli_args en None) s3 = (Inr r, s4)" and
      save: "save_ledger (rr_ledger r) s4 = (Inr saved, u3)" and
      h: "build_handover en (ledger_val (rr_ledger r)) (rr_gate r) VNone u3 = (Inr receipt, u4)" and
      it: "item receipt ''result'' = Inr result" "item result ''status'' = Inr status" and
      e: "cl_store c' = cl_store (snd u4)" "code = exit_of (py_eq status (VStr ''completed''))"
      by (rule run_and_save_Inr) (use land in simp)
    have run: "run (sha256 C) (en_name en) (call_env en x (cli_args en None)) (retries en (cli_args en None))
        (cfg_backoff_base (en_config en)) default_gate manifest s3 = (Inr r, s4)"
      using r unfolding engine_run_def .
    have ver: "verify_chain (sha256 C) (execution_log (rr_ledger r)) = Inr True"
      using run_log_inv [OF run] by (simp add: log_inv_def)
    obtain f created where f: "receipt_at (ledger_val (rr_ledger r)) (rr_gate r) VNone = Inr f"
      "receipt = f created" "cl_store (snd u4) = cl_store (snd u3)"
      using h by (cases u3) (auto simp: build_handover_def build_handover_receipt_def clk bindI_Inr_iff)
    have "status = VStr (if g_status (rr_gate r) = ''passed'' \<and> all_completed (rr_ledger r) then ''completed'' else ''aborted'')"
      using run_handover [OF run, of created] f read_receipt [OF it] by simp
    then have code: "code = (if all_completed (rr_ledger r) \<and> g_status (rr_gate r) = ''passed'' then 0 else 1)"
      by (simp add: e(2) exit_of_def)
    have st: "cl_store c' = cl_store (snd u3)" using e(1) f(3) by simp
    have kept: "cl_store c' = run_steps (ledger_id (ledger_control (rr_ledger r))) (ledger_val (rr_ledger r)) save_steps (cl_store (snd s4))
           \<and> in_store (sha256 C) c' (rr_ledger r)
           \<and> code = (if all_completed (rr_ledger r) \<and> g_status (rr_gate r) = ''passed'' then 0 else 1)
           \<and> (g_status (rr_gate r) = ''passed'' \<longleftrightarrow> passes (sha256 C) (rr_ledger r))"
      unfolding in_store_def st using saved_in_store [OF save ver] code run_passes [OF run] by blast
    show ?thesis
      by (intro exI [of _ manifest] exI [of _ s1] exI [of _ validation] conjI m v,
          unfold if_not_P [OF False])
        (intro exI [of _ x] exI [of _ s2] exI [of _ s3] exI [of _ r] exI [of _ s4] conjI ch r kept)
  qed
qed

section \<open>A run command that returns\<close>

lemma receipt_reads:
  assumes "receipt_field receipt ''result'' ''status'' = VStr t"
  shows "\<exists>result. item receipt ''result'' = Inr result \<and> item result ''status'' = Inr (VStr t)"
  using assms by (auto simp: receipt_field_def dget_def item_Inr_iff split: val.splits option.splits)

text \<open>After a run that returned nothing raises: the ledger is saved, the receipt built and read.\<close>

lemma run_command_returns:
  assumes m: "read_manifest en (ra_iplan a) (w, c) = (Inr manifest, s1)"
    and v: "engine_validate (sha256 C) manifest = Inr validation" "v_status validation \<noteq> ''fail''"
    and ch: "choose_executor fs en a s1 = (Inr x, s2)" "new_ids s2 = (Inr (), s3)"
    and r: "engine_run (sha256 C) en manifest x (cli_args en None) s3 = (Inr r, (w1, c1))"
    and lid: "CHR ''/'' \<notin> set (ledger_id (ledger_control (rr_ledger r)))"
    and a: "\<not> ra_land a" and clk: "en_clock en = onW clk" "ends (\<lambda>_. True) clk"
  shows "\<exists>code w' c'. cmd_run C fs en a (w, c) = (Inr code, (w', c'))"
proof -
  note run = r [unfolded engine_run_def]
  have "verify_chain (sha256 C) (execution_log (rr_ledger r)) = Inr True"
    using run_log_inv [OF run] by (simp add: log_inv_def)
  from saved_loads [OF this lid] obtain s' where save: "save (ledger_val (rr_ledger r)) (cl_store c1)
      = Inr (s', ledger_file (ledger_id (ledger_control (rr_ledger r))))" by blast
  obtain now w2 where now: "clk w1 = (Inr now, w2)" using clk(2) unfolding ends_def by metis
  from run_handover [OF run, of now] obtain f t where
    f: "receipt_at (ledger_val (rr_ledger r)) (rr_gate r) VNone = Inr f" "receipt_field (f now) ''result'' ''status'' = VStr t"
    by blast
  from receipt_reads [OF f(2)] obtain result where it: "item (f now) ''result'' = Inr result" "item result ''status'' = Inr (VStr t)"
    by blast
  have "\<exists>code w' c'. run_and_save C fs en a manifest s1 = (Inr code, (w', c'))"
    using a ch r save now f(1) it
    by (simp add: run_and_save_def bindI_app land_if_green_def save_ledger_def with_store_def
        build_handover_def build_handover_receipt_def clk(1) emit_def)
  with m v show ?thesis by (simp add: cmd_run_split bindI_app)
qed

section \<open>An example\<close>

definition plan_doc :: val where
  "plan_doc = VDict [
     (''document_control'', VDict [(''iplan_id'', VStr ''I1''), (''version'', VStr ''1'')]),
     (''exec_ready'', VDict [(''score'', VInt 92), (''approved'', VBool True)]),
     (''isolation_scope'', VDict ex_scope),
     (''tasks'', VList [ex_task ''T1'' []])]"

text \<open>The task runs one check, which the file system answers with exit code 0.\<close>

definition plan_actions :: val where
  "plan_actions = VDict [(''T1'', VDict [(''checks'',
     VList [VDict [(''name'', VStr ''ok''), (''command'', VList [VStr ''true''])]])])]"

definition plan_cli :: cli where
  "plan_cli = \<lparr>cl_files = [(''p.yaml'', plan_doc, ''0''), (''a.yaml'', plan_actions, ''0'')], cl_environ = [], cl_store = \<lparr>documents = [], controls = []\<rparr>,
     cl_db = empty_db, cl_counters = [], cl_printed = []\<rparr>"

definition plan_engine :: "(unit \<times> cli) engine" where
  "plan_engine = \<lparr>en_name = ''claude'', en_config = default_config, en_clock = onW (retI ''t''), en_sleep = (\<lambda>_. retI ()),
     en_has_changes = (\<lambda>_. retI True), en_commit_all = (\<lambda>_ _ _. retI ''sha''), en_provider = noop_provider\<rparr>"

definition plan_args :: run_args where
  "plan_args = \<lparr>ra_iplan = ''p.yaml'', ra_actions = Some ''a.yaml'', ra_workspace = ''.'', ra_land = False, ra_branch = ''iops/run''\<rparr>"

definition plan_fs :: "(unit \<times> cli) fs" where
  "plan_fs = \<lparr>fs_resolve = (\<lambda>p w. p), fs_exists = (\<lambda>p w. True), fs_is_file = (\<lambda>p w. False),
     fs_mkdir = (\<lambda>p. retI ()), fs_write = (\<lambda>p c. retI ()), fs_unlink = (\<lambda>p. retI ()),
     fs_run = (\<lambda>cmd p. retI (0, []))\<rparr>"

definition plan_crypto :: crypto where
  "plan_crypto = \<lparr>jcs = (\<lambda>_. Inr []), sha256 = ex_digest, hmac_hex = (\<lambda>_ _. []), ed_sign = (\<lambda>_ _. Inr []),
     ed_verify = (\<lambda>_ _ _. Inr True)\<rparr>"

definition plan_manifest :: val where
  "plan_manifest = projr (ingest_iplan default_config plan_doc ''0'')"

lemma plan_ingested: "ingest_iplan default_config plan_doc ''0'' = Inr plan_manifest"
proof -
  have "\<not> isl (ingest_iplan default_config plan_doc ''0'')" by code_simp
  then show ?thesis by (simp add: plan_manifest_def)
qed

lemma plan_valid: "validate_intake plan_manifest = Inr []"
  by code_simp

lemma plan_passes: "case engine_validate ex_digest plan_manifest of Inr v \<Rightarrow> v_status v \<noteq> ''fail'' | Inl _ \<Rightarrow> False"
  by code_simp

definition plan_ledger :: ledger where
  "plan_ledger = projr (init_ledger plan_manifest)"

lemma plan_init: "init_ledger plan_manifest = Inr plan_ledger"
proof -
  have "\<not> isl (init_ledger plan_manifest)" by code_simp
  then show ?thesis by (simp add: plan_ledger_def)
qed

lemma plan_graph:
  "bindR (item plan_manifest ''task_graph'') iter = Inr [ex_task ''T1'' []]"
  "nodes_by_id [ex_task ''T1'' []] = Inr [(''T1'', ex_task ''T1'' [])]"
  "topo_order [ex_task ''T1'' []] = Inr [''T1'']"
  by code_simp+

definition plan_env :: "(unit \<times> cli) env" where
  "plan_env = call_env plan_engine (scripted_executor plan_fs plan_engine plan_actions (path_join [] ''.'')) (cli_args plan_engine None)"

definition good_end :: "string \<times> ledger \<Rightarrow> bool" where
  "good_end p = (case p of (st, l) \<Rightarrow> let l = reconcile (set_run_state st l) in
     all_completed l \<and> validate_ledger ex_digest (ledger_val l) = Inr [] \<and> ledger_id (ledger_control l) = ''LEDGER-I1'')"

lemma plan_loop:
  "case fst (drive_loop ex_digest ''claude'' plan_env (retries plan_engine (cli_args plan_engine None))
       (cfg_backoff_base default_config) [(''T1'', ex_task ''T1'' [])] [''T1''] {} plan_ledger ((), plan_cli)) of
     Inr p \<Rightarrow> good_end p | Inl _ \<Rightarrow> False"
  by code_simp

abbreviation plan_executor :: "(unit \<times> cli) executor" where
  "plan_executor \<equiv> scripted_executor plan_fs plan_engine plan_actions (path_join [] ''.'')"

lemma plan_run:
  obtains r w1 c1 where
    "engine_run ex_digest plan_engine plan_manifest plan_executor (cli_args plan_engine None) ((), plan_cli) = (Inr r, (w1, c1))"
    "all_completed (rr_ledger r)" "g_status (rr_gate r) = ''passed''" "ledger_id (ledger_control (rr_ledger r)) = ''LEDGER-I1''"
proof -
  let ?d = "drive_loop ex_digest ''claude'' plan_env (retries plan_engine (cli_args plan_engine None))
       (cfg_backoff_base default_config) [(''T1'', ex_task ''T1'' [])] [''T1''] {} plan_ledger ((), plan_cli)"
  obtain p where p: "fst ?d = Inr p" "good_end p"
    using plan_loop by (cases "fst ?d") (simp_all only: sum.case)
  obtain w1 c1 where w: "snd ?d = (w1, c1)" by (cases "snd ?d")
  obtain st l where sl: "p = (st, l)" by (cases p)
  have loop: "?d = (Inr (st, l), (w1, c1))" using p(1) w unfolding sl by (metis prod.collapse)
  have good: "good_end (st, l)" using p(2) unfolding sl .
  let ?l = "reconcile (set_run_state st l)"
  from good have l: "all_completed ?l" "validate_ledger ex_digest (ledger_val ?l) = Inr []" "ledger_id (ledger_control ?l) = ''LEDGER-I1''"
    by (simp_all add: good_end_def Let_def)
  from run_default_gate [OF l(2)] obtain g where
    g: "run_gate ex_digest (ledger_val ?l) default_gate = Inr g" "g_status g = ''passed''" by simp
  have "or_else default_gate default_gate = default_gate" "status_of [] \<noteq> ''fail''" "en_name plan_engine = ''claude''"
    "en_config plan_engine = default_config"
    by (simp_all add: or_else_def status_of_def plan_engine_def)
  then have run: "engine_run ex_digest plan_engine plan_manifest plan_executor (cli_args plan_engine None) ((), plan_cli)
      = (Inr \<lparr>rr_ledger = ?l, rr_gate = g\<rparr>, (w1, c1))"
    using loop g(1)
    by (simp add: engine_run_def run_def drive_def plan_valid plan_init plan_graph plan_env_def [symmetric] bindI_app
        Let_def del: drive_loop.simps)
  show ?thesis by (rule that [OF run]) (simp_all only: l g run_result.simps)
qed

theorem run_command_exit_witness:
  "\<exists>c' l. cmd_run plan_crypto plan_fs plan_engine plan_args ((), plan_cli) = (Inr 0, ((), c'))
     \<and> in_store ex_digest c' l \<and> all_completed l \<and> passes ex_digest l"
proof -
  have h: "sha256 plan_crypto = ex_digest" "\<not> ra_land plan_args" "en_clock plan_engine = onW (retI ''t'')"
    by (simp_all add: plan_crypto_def plan_args_def plan_engine_def)
  obtain v where v: "engine_validate ex_digest plan_manifest = Inr v" "v_status v \<noteq> ''fail''"
    using plan_passes by (auto split: sum.splits)
  have m: "read_manifest plan_engine (ra_iplan plan_args) ((), plan_cli) = (Inr plan_manifest, ((), plan_cli))"
    using plan_ingested
    by (simp add: read_manifest_def read_file_def bindI_app plan_args_def plan_cli_def plan_engine_def)
  have ch: "choose_executor plan_fs plan_engine plan_args ((), plan_cli) = (Inr plan_executor, ((), plan_cli))"
    by (simp add: choose_executor_def load_doc_def read_file_def bindI_app plan_args_def plan_cli_def plan_actions_def truthy_opt_def)
  have ids: "new_ids ((), plan_cli) = (Inr (), ((), plan_cli))" by (simp add: new_ids_def plan_cli_def)
  obtain r w1 c1 where r: "engine_run ex_digest plan_engine plan_manifest plan_executor (cli_args plan_engine None) ((), plan_cli)
      = (Inr r, (w1, c1))"
    "all_completed (rr_ledger r)" "g_status (rr_gate r) = ''passed''" "ledger_id (ledger_control (rr_ledger r)) = ''LEDGER-I1''"
    by (rule plan_run)
  obtain code w' c' where run: "cmd_run plan_crypto plan_fs plan_engine plan_args ((), plan_cli) = (Inr code, (w', c'))"
    using run_command_returns [where C = plan_crypto, unfolded h(1), OF m v ch ids r(1) _ h(2,3)] r(4)
    by (auto simp: ends_def)
  from run_command_exit [OF run h(2,3)] m v ch ids r(1,2,3)
  have "code = 0 \<and> in_store ex_digest c' (rr_ledger r) \<and> passes ex_digest (rr_ledger r)"
    unfolding h(1) by auto
  with run r(2) show ?thesis by auto
qed

end
