(* ===== verification/DeliveryClaims.thy ===== *)
theory DeliveryClaims
  imports RelayClaims "HOL-Library.Multiset"
begin

text \<open>
  Delivery to a service that is shared and may be lost: any number of drains of one ledger,
  each of which may be cut off at any point, replies that never come back, retries, and a prune
  of the table. The steps are those of the drain on the table and of the service on the keys it
  has taken in; what the service keeps, when it drops the keys it has seen, is in the order of
  the ledger.
\<close>

section \<open>The protocol\<close>

text \<open>The key the service deduplicates by.\<close>

definition key_text :: "val \<Rightarrow> string" where
  "key_text e = (case event_key e of Inr k \<Rightarrow> k | Inl _ \<Rightarrow> [])"

text \<open>
  A drain in flight: the keys that were settled when it started, the events it has passed and
  the events left; \<open>dr_acked\<close> when the first of them is acknowledged and not yet settled.
\<close>

record drain_run =
  dr_seen :: "string set"
  dr_past :: "val list"
  dr_left :: "val list"
  dr_acked :: bool

record 'db link =
  lk_db :: 'db
  lk_taken :: "string list"
  lk_dead :: "string set"
  lk_drains :: "drain_run multiset"

definition new_run :: "string set \<Rightarrow> val list \<Rightarrow> drain_run" where
  "new_run seen es = \<lparr>dr_seen = seen, dr_past = [], dr_left = es, dr_acked = False\<rparr>"

definition next_event :: "val \<Rightarrow> val list \<Rightarrow> drain_run \<Rightarrow> drain_run" where
  "next_event e rest p = p\<lparr>dr_past := dr_past p @ [e], dr_left := rest, dr_acked := False\<rparr>"

inductive link_step ::
  "('db \<Rightarrow> string set) \<Rightarrow> (string \<Rightarrow> string \<Rightarrow> 'db \<Rightarrow> 'db) \<Rightarrow> (string \<Rightarrow> string \<Rightarrow> val \<Rightarrow> string \<Rightarrow> 'db \<Rightarrow> 'db)
     \<Rightarrow> val list \<Rightarrow> 'db link \<Rightarrow> 'db link \<Rightarrow> bool" for keys mark bury es where
  Start: "link_step keys mark bury es s (s\<lparr>lk_drains := add_mset (new_run (keys (lk_db s)) es) (lk_drains s)\<rparr>)"
| Skip: "lk_drains s = add_mset p ps \<Longrightarrow> dr_left p = e # rest \<Longrightarrow> \<not> dr_acked p \<Longrightarrow> key_text e \<in> dr_seen p \<Longrightarrow>
    link_step keys mark bury es s (s\<lparr>lk_drains := add_mset (next_event e rest p) ps\<rparr>)"
| Taken: "lk_drains s = add_mset p ps \<Longrightarrow> dr_left p = e # rest \<Longrightarrow> \<not> dr_acked p \<Longrightarrow> key_text e \<notin> dr_seen p \<Longrightarrow>
    link_step keys mark bury es s (s\<lparr>lk_taken := lk_taken s @ [key_text e],
      lk_drains := add_mset (p\<lparr>dr_acked := reply\<rparr>) ps\<rparr>)"
| Settle: "lk_drains s = add_mset p ps \<Longrightarrow> dr_left p = e # rest \<Longrightarrow> dr_acked p \<Longrightarrow>
    link_step keys mark bury es s (s\<lparr>lk_db := mark stamp (key_text e) (lk_db s),
      lk_drains := add_mset (next_event e rest p) ps\<rparr>)"
| Bury: "lk_drains s = add_mset p ps \<Longrightarrow> dr_left p = e # rest \<Longrightarrow> \<not> dr_acked p \<Longrightarrow> key_text e \<notin> dr_seen p \<Longrightarrow>
    link_step keys mark bury es s (s\<lparr>lk_db := bury stamp why e (key_text e) (lk_db s),
      lk_dead := insert (key_text e) (lk_dead s), lk_drains := add_mset (next_event e rest p) ps\<rparr>)"
| Stop: "lk_drains s = add_mset p ps \<Longrightarrow> link_step keys mark bury es s (s\<lparr>lk_drains := ps\<rparr>)"
| Forget: "keys db \<subseteq> keys (lk_db s) \<Longrightarrow> link_step keys mark bury es s (s\<lparr>lk_db := db\<rparr>)"

definition link_start :: "'db \<Rightarrow> 'db link" where
  "link_start db = \<lparr>lk_db = db, lk_taken = [], lk_dead = {}, lk_drains = {#}\<rparr>"

section \<open>The invariant\<close>

text \<open>Each arrival comes after all that is before it in the ledger, but for what is dead-lettered.\<close>

definition follows :: "string list \<Rightarrow> string set \<Rightarrow> string list \<Rightarrow> bool" where
  "follows ks D xs \<longleftrightarrow> set xs \<subseteq> set ks \<and>
     (\<forall>pre k post us vs. xs = pre @ k # post \<longrightarrow> ks = us @ k # vs \<longrightarrow> set us \<subseteq> set pre \<union> D)"

lemma follows_Nil [simp]: "follows ks D []"
  by (simp add: follows_def)

lemma follows_mono: "follows ks D xs \<Longrightarrow> D \<subseteq> D' \<Longrightarrow> follows ks D' xs"
  unfolding follows_def by blast

lemma follows_snoc:
  assumes "follows ks D xs" and "ks = us @ k # vs" "distinct ks" "set us \<subseteq> set xs \<union> D"
  shows "follows ks D (xs @ [k])"
  unfolding follows_def
proof (intro conjI allI impI)
  show "set (xs @ [k]) \<subseteq> set ks" using assms(1,2) by (auto simp: follows_def)
next
  fix pre k' post us' vs'
  assume split: "xs @ [k] = pre @ k' # post" and ks: "ks = us' @ k' # vs'"
  show "set us' \<subseteq> set pre \<union> D"
  proof (cases post rule: rev_cases)
    case Nil
    with split have "pre = xs" "k' = k" by simp_all
    moreover have "us' = us"
      using append_Cons_eq_iff [of k us vs us' vs'] assms(2,3) ks \<open>k' = k\<close> by simp
    ultimately show ?thesis using assms(4) by simp
  next
    case (snoc post' z)
    with split have "xs = pre @ k' # post'" by simp
    with assms(1) ks show ?thesis unfolding follows_def by blast
  qed
qed

definition accounted :: "'db link \<Rightarrow> string set" where
  "accounted s = set (lk_taken s) \<union> lk_dead s"

definition run_ok :: "val list \<Rightarrow> string set \<Rightarrow> string set \<Rightarrow> drain_run \<Rightarrow> bool" where
  "run_ok es T A p \<longleftrightarrow> es = dr_past p @ dr_left p \<and> dr_seen p \<subseteq> A \<and> key_text ` set (dr_past p) \<subseteq> A
     \<and> (dr_acked p \<longrightarrow> dr_left p \<noteq> [] \<and> key_text (hd (dr_left p)) \<in> T)"

definition link_ok :: "('db \<Rightarrow> string set) \<Rightarrow> val list \<Rightarrow> 'db link \<Rightarrow> bool" where
  "link_ok keys es s \<longleftrightarrow> keys (lk_db s) \<subseteq> accounted s
     \<and> (\<forall>p \<in># lk_drains s. run_ok es (set (lk_taken s)) (accounted s) p)
     \<and> follows (map key_text es) (lk_dead s) (lk_taken s)"

lemma run_ok_mono: "run_ok es T A p \<Longrightarrow> T \<subseteq> T' \<Longrightarrow> A \<subseteq> A' \<Longrightarrow> run_ok es T' A' p"
  unfolding run_ok_def by blast

lemma link_okI:
  assumes "keys (lk_db s) \<subseteq> accounted s" and "\<And>p. p \<in># lk_drains s \<Longrightarrow> run_ok es (set (lk_taken s)) (accounted s) p"
    and "follows (map key_text es) (lk_dead s) (lk_taken s)"
  shows "link_ok keys es s"
  using assms unfolding link_ok_def by blast

lemma link_okD:
  assumes "link_ok keys es s"
  shows "keys (lk_db s) \<subseteq> accounted s" "p \<in># lk_drains s \<Longrightarrow> run_ok es (set (lk_taken s)) (accounted s) p"
    "follows (map key_text es) (lk_dead s) (lk_taken s)"
  using assms unfolding link_ok_def by blast+

lemma run_ok_new: "seen \<subseteq> A \<Longrightarrow> run_ok es T A (new_run seen es)"
  by (simp add: run_ok_def new_run_def)

lemma run_ok_next:
  assumes "run_ok es T A p" "dr_left p = e # rest" "key_text e \<in> A'" "A \<subseteq> A'"
  shows "run_ok es T A' (next_event e rest p)"
  using assms unfolding run_ok_def next_event_def by auto

lemma run_ok_acked:
  assumes "run_ok es T A p" "dr_left p = e # rest"
  shows "run_ok es (insert (key_text e) T) (insert (key_text e) A) (p\<lparr>dr_acked := reply\<rparr>)"
  using assms unfolding run_ok_def by auto

lemma follows_taken:
  assumes "follows (map key_text es) D xs" "distinct (map key_text es)" "run_ok es T (set xs \<union> D) p" "dr_left p = e # rest"
  shows "follows (map key_text es) D (xs @ [key_text e])"
proof (rule follows_snoc [OF assms(1) _ assms(2)])
  show "map key_text es = map key_text (dr_past p) @ key_text e # map key_text rest"
    using assms(3,4) by (simp add: run_ok_def)
  show "set (map key_text (dr_past p)) \<subseteq> set xs \<union> D" using assms(3) by (simp add: run_ok_def)
qed

lemma link_ok_run:
  assumes "link_ok keys es s" and "lk_drains s = add_mset p ps"
  shows "run_ok es (set (lk_taken s)) (accounted s) p"
  using link_okD(2) [OF assms(1), of p] assms(2) by simp

text \<open>A step of one drain: the others stay as they are, and nothing that arrived is taken back.\<close>

lemma link_ok_next:
  assumes "link_ok keys es s" "lk_drains s = add_mset p ps"
    and "lk_drains s' = add_mset p' ps" "run_ok es (set (lk_taken s')) (accounted s') p'"
    and "set (lk_taken s) \<subseteq> set (lk_taken s')" "accounted s \<subseteq> accounted s'"
    and "keys (lk_db s') \<subseteq> accounted s'" "follows (map key_text es) (lk_dead s') (lk_taken s')"
  shows "link_ok keys es s'"
proof (rule link_okI [where keys = keys, OF assms(7) _ assms(8)])
  fix q assume "q \<in># lk_drains s'"
  then consider "q = p'" | "q \<in># lk_drains s" using assms(2,3) by auto
  then show "run_ok es (set (lk_taken s')) (accounted s') q"
    using assms(4) run_ok_mono [OF link_okD(2) [OF assms(1)] assms(5,6)] by cases auto
qed

locale stamped_outbox =
  fixes keys :: "'db \<Rightarrow> string set"
    and mark :: "string \<Rightarrow> string \<Rightarrow> 'db \<Rightarrow> 'db"
    and bury :: "string \<Rightarrow> string \<Rightarrow> val \<Rightarrow> string \<Rightarrow> 'db \<Rightarrow> 'db"
  assumes marks: "keys (mark stamp k db) = insert k (keys db)"
    and buries: "keys (bury stamp why e k db) = insert k (keys db)"

sublocale stamped_outbox \<subseteq> at_stamp: outbox keys "mark stamp" "bury stamp" for stamp
  by unfold_locales (simp_all add: marks buries)

context stamped_outbox
begin

lemma step_keeps:
  assumes "link_step keys mark bury es s s'" and ok: "link_ok keys es s" and d: "distinct (map key_text es)"
  shows "link_ok keys es s'"
  using assms(1)
proof cases
  case Start
  then show ?thesis using link_okD [OF ok] by (auto simp: link_ok_def accounted_def intro: run_ok_new)
next
  case (Skip p ps e rest)
  note p = link_ok_run [OF ok Skip(2)]
  then have "key_text e \<in> accounted s" using Skip(5) unfolding run_ok_def by blast
  note step = run_ok_next [OF p Skip(3) this order_refl]
  show ?thesis
    using link_okD(1,3) [OF ok] step by (intro link_ok_next [OF ok Skip(2)]) (simp_all add: Skip(1) accounted_def)
next
  case (Taken p ps e rest reply)
  note p = link_ok_run [OF ok Taken(2)]
  have "follows (map key_text es) (lk_dead s) (lk_taken s @ [key_text e])"
    by (rule follows_taken [OF link_okD(3) [OF ok] d p [unfolded accounted_def] Taken(3)])
  then show ?thesis
    using link_okD(1) [OF ok] run_ok_acked [OF p Taken(3), of reply]
    by (intro link_ok_next [OF ok Taken(2)]) (auto simp: Taken(1) accounted_def)
next
  case (Settle p ps e rest stamp)
  note p = link_ok_run [OF ok Settle(2)]
  with Settle(3,4) have k: "key_text e \<in> accounted s" by (simp add: run_ok_def accounted_def)
  note step = run_ok_next [OF p Settle(3) this order_refl]
  show ?thesis
    using link_okD(1,3) [OF ok] step k
    by (intro link_ok_next [OF ok Settle(2)]) (simp_all add: Settle(1) accounted_def marks)
next
  case (Bury p ps e rest stamp why)
  have "run_ok es (set (lk_taken s)) (insert (key_text e) (accounted s)) (next_event e rest p)"
    by (rule run_ok_next [OF link_ok_run [OF ok Bury(2)] Bury(3)]) auto
  moreover have "follows (map key_text es) (insert (key_text e) (lk_dead s)) (lk_taken s)"
    using link_okD(3) [OF ok] by (rule follows_mono) auto
  ultimately show ?thesis
    using link_okD(1) [OF ok]
    by (intro link_ok_next [OF ok Bury(2)]) (auto simp: Bury(1) accounted_def buries)
next
  case (Stop p ps)
  then show ?thesis using ok by (auto simp: link_ok_def accounted_def)
next
  case (Forget db')
  then show ?thesis using ok by (auto simp: link_ok_def accounted_def)
qed

lemma steps_keep:
  assumes "(link_step keys mark bury es)\<^sup>*\<^sup>* s s'" and "link_ok keys es s" and d: "distinct (map key_text es)"
  shows "link_ok keys es s'"
  using assms(1,2)
proof (induction rule: rtranclp_induct)
  case (step s1 s2)
  from step.hyps(2) step.IH [OF step.prems] d show ?case by (rule step_keeps)
qed

lemma reachable_ok:
  assumes "keys db = {}" "distinct (map key_text es)" "(link_step keys mark bury es)\<^sup>*\<^sup>* (link_start db) s"
  shows "link_ok keys es s"
  by (rule steps_keep [OF assms(3) _ assms(2)]) (simp add: link_ok_def link_start_def assms(1))

end

section \<open>What the service keeps\<close>

text \<open>A service that drops the keys it has seen keeps the first arrival of each.\<close>

definition first_arrivals :: "string list \<Rightarrow> string list" where
  "first_arrivals xs = rev (remdups (rev xs))"

lemma first_arrivals_snoc:
  "first_arrivals (xs @ [x]) = (if x \<in> set xs then first_arrivals xs else first_arrivals xs @ [x])"
  by (simp add: first_arrivals_def)

lemma set_first_arrivals [simp]: "set (first_arrivals xs) = set xs"
  by (simp add: first_arrivals_def)

lemma follows_butlast: "follows ks D (xs @ [x]) \<Longrightarrow> follows ks D xs"
  unfolding follows_def by (metis append_Cons append_assoc le_sup_iff set_append)

lemma follows_prefix:
  assumes "follows ks {} xs" and "distinct ks"
  shows "\<exists>n. first_arrivals xs = take n ks"
  using assms(1)
proof (induction xs rule: rev_induct)
  case Nil
  then show ?case by (intro exI [of _ 0]) (simp add: first_arrivals_def)
next
  case (snoc x xs)
  from snoc.IH [OF follows_butlast [OF snoc.prems]] obtain n where n: "first_arrivals xs = take n ks" by blast
  show ?case
  proof (cases "x \<in> set xs")
    case True
    with n show ?thesis by (auto simp: first_arrivals_snoc)
  next
    case False
    have xs: "set xs = set (take n ks)" using n set_first_arrivals by metis
    have "x \<in> set ks" using snoc.prems by (simp add: follows_def)
    then obtain us vs where ks: "ks = us @ x # vs" by (auto dest: split_list)
    have "set us \<subseteq> set xs" using snoc.prems ks unfolding follows_def by fastforce
    then have us: "set us \<subseteq> set (take n ks)" using xs by simp
    have "x \<notin> set (take n ks)" using False xs by simp
    then have "n \<le> length us" using ks by (cases "n \<le> length us") (auto simp: take_Cons')
    moreover have "length us \<le> n"
    proof -
      have "card (set us) \<le> card (set (take n ks))" by (rule card_mono [OF _ us]) simp
      moreover have "card (set us) = length us" using assms(2) ks by (simp add: distinct_card)
      moreover have "card (set (take n ks)) \<le> n" using card_length [of "take n ks"] by simp
      ultimately show ?thesis by simp
    qed
    ultimately have "take n ks = us" using ks by simp
    then have "first_arrivals (xs @ [x]) = take (Suc (length us)) ks"
      using n False ks by (simp add: first_arrivals_snoc)
    then show ?thesis by blast
  qed
qed

lemma take_all_distinct:
  assumes "distinct xs" and "set xs \<subseteq> set (take n xs)"
  shows "take n xs = xs"
proof -
  have "length xs \<le> card (set (take n xs))"
    using card_mono [OF _ assms(2)] distinct_card [OF assms(1)] by simp
  also have "\<dots> \<le> n" using card_length [of "take n xs"] by simp
  finally show ?thesis by simp
qed

text \<open>Without the dead-lettered keys every arrival follows all before it.\<close>

lemma follows_alive:
  assumes "follows ks D xs" and "distinct ks"
  shows "follows (filter (\<lambda>k. k \<notin> D) ks) {} (filter (\<lambda>k. k \<notin> D) xs)"
  using assms(1)
proof (induction xs rule: rev_induct)
  case (snoc x xs)
  let ?f = "filter (\<lambda>k. k \<notin> D)"
  note IH = snoc.IH [OF follows_butlast [OF snoc.prems]]
  show ?case
  proof (cases "x \<in> D")
    case True
    with IH show ?thesis by simp
  next
    case False
    have "x \<in> set ks" using snoc.prems by (simp add: follows_def)
    then obtain us vs where ks: "ks = us @ x # vs" by (auto dest: split_list)
    have "set us \<subseteq> set xs \<union> D" using snoc.prems ks unfolding follows_def by fastforce
    then have "follows (?f ks) {} (?f xs @ [x])"
      using assms(2) False by (intro follows_snoc [OF IH, of "?f us" x "?f vs"]) (auto simp: ks)
    with False show ?thesis by simp
  qed
qed simp

section \<open>The drain makes these steps\<close>

text \<open>
  What an effect does to the keys the service has taken in: it adds \<open>k\<close> any number of times, and
  at least once when its result satisfies \<open>Q\<close>.
\<close>

definition takes :: "('w \<Rightarrow> string list) \<Rightarrow> string \<Rightarrow> ('a \<Rightarrow> bool) \<Rightarrow> ('w, 'a) io \<Rightarrow> bool" where
  "takes tk k Q m \<longleftrightarrow> (\<forall>w r w'. m w = (r, w') \<longrightarrow>
     (\<exists>n. tk w' = tk w @ replicate n k \<and> (\<forall>a. r = Inr a \<longrightarrow> Q a \<longrightarrow> n > 0)))"

abbreviation leaves :: "('w \<Rightarrow> string list) \<Rightarrow> ('w, 'a) io \<Rightarrow> bool" where
  "leaves tk m \<equiv> \<forall>w r w'. m w = (r, w') \<longrightarrow> tk w' = tk w"

lemma takesD:
  assumes "takes tk k Q m" "m w = (r, w')"
  shows "\<exists>n. tk w' = tk w @ replicate n k \<and> (\<forall>a. r = Inr a \<longrightarrow> Q a \<longrightarrow> n > 0)"
  using assms unfolding takes_def by blast

lemma takesI:
  assumes "\<And>w r w'. m w = (r, w') \<Longrightarrow> \<exists>n. tk w' = tk w @ replicate n k \<and> (\<forall>a. r = Inr a \<longrightarrow> Q a \<longrightarrow> n > 0)"
  shows "takes tk k Q m"
  unfolding takes_def using assms by blast

lemma takes_leaves: "leaves tk m \<Longrightarrow> takes tk k (\<lambda>_. False) m"
  unfolding takes_def by (metis append_Nil2 replicate_0)

lemma takes_weaken: "takes tk k Q m \<Longrightarrow> (\<And>a. Q' a \<Longrightarrow> Q a) \<Longrightarrow> takes tk k Q' m"
  unfolding takes_def by blast

lemma takes_ret: "\<not> Q a \<Longrightarrow> takes tk k Q (retI a)"
  by (rule takesI) (auto intro!: exI [of _ 0])

lemma takes_raise: "takes tk k Q (raiseI e)"
  by (rule takesI) (auto intro!: exI [of _ 0])

lemma takes_lift: "(\<And>a. r = Inr a \<Longrightarrow> \<not> Q a) \<Longrightarrow> takes tk k Q (liftI r)"
  by (rule takesI) (auto intro!: exI [of _ 0])

lemma takes_bind:
  assumes m: "takes tk k P m" and f: "\<And>a. takes tk k (\<lambda>b. Q b \<and> \<not> P a) (f a)"
  shows "takes tk k Q (bindI m f)"
proof (rule takesI)
  fix w r w' assume b: "bindI m f w = (r, w')"
  obtain x w1 where x: "m w = (x, w1)" by (cases "m w")
  obtain n where n: "tk w1 = tk w @ replicate n k" "\<And>a. x = Inr a \<Longrightarrow> P a \<Longrightarrow> n > 0"
    using takesD [OF m x] by blast
  show "\<exists>n. tk w' = tk w @ replicate n k \<and> (\<forall>a. r = Inr a \<longrightarrow> Q a \<longrightarrow> n > 0)"
  proof (cases x)
    case (Inl e)
    with b x n(1) show ?thesis by (auto simp: bindI_app)
  next
    case (Inr a)
    with b x have fa: "f a w1 = (r, w')" by (simp add: bindI_app)
    obtain n' where n': "tk w' = tk w1 @ replicate n' k" "\<And>b. r = Inr b \<Longrightarrow> Q b \<and> \<not> P a \<Longrightarrow> n' > 0"
      using takesD [OF f fa] by blast
    have "tk w' = tk w @ replicate (n + n') k" using n(1) n'(1) by (simp add: replicate_add)
    moreover have "n + n' > 0" if "r = Inr b" "Q b" for b using n(2) [OF Inr] n'(2) that by (cases "P a") auto
    ultimately show ?thesis by blast
  qed
qed

lemma takes_catch:
  assumes m: "takes tk k Q m" and h: "\<And>e j. h e = Some j \<Longrightarrow> takes tk k Q j"
  shows "takes tk k Q (catchI m h)"
proof (rule takesI)
  fix w r w' assume b: "catchI m h w = (r, w')"
  obtain x w1 where x: "m w = (x, w1)" by (cases "m w")
  obtain n where n: "tk w1 = tk w @ replicate n k" "\<And>a. x = Inr a \<Longrightarrow> Q a \<Longrightarrow> n > 0"
    using takesD [OF m x] by blast
  show "\<exists>n. tk w' = tk w @ replicate n k \<and> (\<forall>a. r = Inr a \<longrightarrow> Q a \<longrightarrow> n > 0)"
  proof (cases x)
    case (Inr a)
    with b x n show ?thesis by (auto simp: catchI_def)
  next
    case (Inl e)
    show ?thesis
    proof (cases "h e")
      case None
      with b x Inl n(1) show ?thesis by (auto simp: catchI_def)
    next
      case (Some j)
      with b x Inl have j: "j w1 = (r, w')" by (simp add: catchI_def)
      obtain n' where n': "tk w' = tk w1 @ replicate n' k" "\<And>b. r = Inr b \<Longrightarrow> Q b \<Longrightarrow> n' > 0"
        using takesD [OF h [OF Some] j] by blast
      have "tk w' = tk w @ replicate (n + n') k" using n(1) n'(1) by (simp add: replicate_add)
      with n'(2) show ?thesis by (metis add_gr_0)
    qed
  qed
qed

text \<open>
  The service: a request makes it take in the event named in the body, once, more often or not
  at all, whatever comes back; an answer of 202 says that it has.
\<close>

definition service_contract :: "('w \<Rightarrow> string list) \<Rightarrow> (string \<Rightarrow> string) \<Rightarrow> 'w transport \<Rightarrow> bool" where
  "service_contract tk named t \<longleftrightarrow>
     (\<forall>url data headers. takes tk (named data) (\<lambda>a. fst a = 202) (tp_open t url data headers))
     \<and> leaves tk (tp_token t) \<and> (\<forall>d. leaves tk (tp_sleep t d))"

lemma open_takes:
  assumes "service_contract tk named t"
  shows "takes tk (named data) (\<lambda>r. \<exists>raw. r = Some (202, raw)) (try_open t c data)"
  unfolding try_open_def
proof (rule takes_bind [OF takes_leaves])
  show "leaves tk (tp_token t)" using assms by (simp add: service_contract_def)
  fix token
  have "takes tk (named data) (\<lambda>a. fst a = 202) (tp_open t (cl_url c) data (auth_headers token))"
    using assms by (simp add: service_contract_def)
  then have "takes tk (named data) (\<lambda>r. \<exists>raw. r = Some (202, raw))
      (catchI (bindI (tp_open t (cl_url c) data (auth_headers token)) (\<lambda>r. retI (Some r)))
       (\<lambda>e. case e of OSError _ \<Rightarrow> Some (retI None) | _ \<Rightarrow> None))"
    by (intro takes_catch takes_bind takes_ret) (auto intro: takes_ret split: pyerr.splits)
  then show "takes tk (named data) (\<lambda>b. (\<exists>raw. b = Some (202, raw)) \<and> \<not> False)
      (catchI (bindI (tp_open t (cl_url c) data (auth_headers token)) (\<lambda>r. retI (Some r)))
       (\<lambda>e. case e of OSError _ \<Rightarrow> Some (retI None) | _ \<Rightarrow> None))" by simp
qed

lemma backoff_leaves: "service_contract tk named t \<Longrightarrow> takes tk k (\<lambda>_. False) (client_backoff t c n)"
  by (auto simp: client_backoff_def service_contract_def intro: takes_leaves takes_ret)

lemma deliver_takes:
  assumes sc: "service_contract tk named t"
  shows "takes tk (named data) (\<lambda>rsp. rsp_status rsp = 202) (deliver_loop t c data n)"
proof (induction "nat (cl_max_retries c - n)" arbitrary: n rule: less_induct)
  case less
  have again: "takes tk (named data) (\<lambda>rsp. rsp_status rsp = 202)
      (bindI (client_backoff t c n) (\<lambda>_. deliver_loop t c data (n + 1)))" if "n < cl_max_retries c"
    using less.hyps [of "n + 1"] that by (intro takes_bind [OF backoff_leaves [OF sc]]) simp
  show ?case
  proof (subst deliver_loop.simps, rule takes_bind [OF open_takes [OF sc]])
    fix r
    show "takes tk (named data) (\<lambda>rsp. rsp_status rsp = 202 \<and> \<not> (\<exists>raw. r = Some (202, raw)))
      (case r of None \<Rightarrow> if n \<ge> cl_max_retries c then raiseI TransportError
             else bindI (client_backoff t c n) (\<lambda>_. deliver_loop t c data (n + 1))
       | Some (status, raw) \<Rightarrow>
           if status \<ge> 500 \<and> n < cl_max_retries c
           then bindI (client_backoff t c n) (\<lambda>_. deliver_loop t c data (n + 1))
           else liftI (bindR (parse_body (tp_loads t) raw) (\<lambda>b. Inr \<lparr>rsp_status = status, rsp_body = b\<rparr>)))"
    proof (cases r)
      case None
      then show ?thesis using again by (auto intro: takes_raise)
    next
      case (Some sr)
      obtain status raw where sr: "sr = (status, raw)" by (cases sr)
      show ?thesis
      proof (cases "status \<ge> 500 \<and> n < cl_max_retries c")
        case True
        then show ?thesis using again Some sr by (auto intro: takes_weaken)
      next
        case False
        then show ?thesis by (auto simp: Some sr bindR_Inr_iff intro!: takes_lift)
      qed
    qed
  qed
qed

lemma send_takes:
  assumes sc: "service_contract tk named t" and k: "named (py_encode (json_dumps e)) = key_text e"
  shows "takes tk (key_text e) (\<lambda>v. vd_action v = Advance) (deliver_with_refresh t c iso_age max_age e)"
proof -
  have d: "takes tk (key_text e) (\<lambda>rsp. rsp_status rsp = 202) (deliver t c e)"
    unfolding deliver_def k [symmetric] by (rule deliver_takes [OF sc])
  have once: "takes tk (key_text e) (\<lambda>v. vd_action v = Advance) (deliver_once t c iso_age max_age e)"
    unfolding deliver_once_def by (rule takes_bind [OF d], rule takes_lift) (auto dest: classify_advance)
  show ?thesis
    unfolding deliver_with_refresh_def
    by (rule takes_bind [OF once]) (auto intro!: takes_ret takes_bind [OF once] split: if_splits)
qed

section \<open>A drain is a sequence of steps\<close>

text \<open>A delivery of the next event that was not acknowledged, and one that was.\<close>

lemma taken_steps:
  assumes "lk_drains s = add_mset p ps" "dr_left p = e # rest" "\<not> dr_acked p" "key_text e \<notin> dr_seen p"
  shows "(link_step keys mark bury es)\<^sup>*\<^sup>* s (s\<lparr>lk_taken := lk_taken s @ replicate n (key_text e)\<rparr>)"
proof (induction n)
  case (Suc n)
  let ?s = "s\<lparr>lk_taken := lk_taken s @ replicate n (key_text e)\<rparr>"
  have "p\<lparr>dr_acked := False\<rparr> = p" using assms(3) by (cases p) simp
  with assms(1) have "s\<lparr>lk_taken := lk_taken s @ replicate (Suc n) (key_text e)\<rparr> =
      ?s\<lparr>lk_taken := lk_taken ?s @ [key_text e], lk_drains := add_mset (p\<lparr>dr_acked := False\<rparr>) ps\<rparr>"
    by (cases s) (simp add: replicate_append_same [symmetric])
  moreover have "link_step keys mark bury es ?s
      (?s\<lparr>lk_taken := lk_taken ?s @ [key_text e], lk_drains := add_mset (p\<lparr>dr_acked := False\<rparr>) ps\<rparr>)"
    by (rule link_step.Taken) (simp_all add: assms)
  ultimately show ?case using Suc by simp
qed simp

lemma acked_steps:
  assumes "lk_drains s = add_mset p ps" "dr_left p = e # rest" "\<not> dr_acked p" "key_text e \<notin> dr_seen p" "n > 0"
  shows "(link_step keys mark bury es)\<^sup>*\<^sup>* s
    (s\<lparr>lk_taken := lk_taken s @ replicate n (key_text e), lk_drains := add_mset (p\<lparr>dr_acked := True\<rparr>) ps\<rparr>)"
proof -
  obtain m where m: "n = Suc m" using assms(5) by (cases n) simp_all
  let ?s = "s\<lparr>lk_taken := lk_taken s @ replicate m (key_text e)\<rparr>"
  have "s\<lparr>lk_taken := lk_taken s @ replicate n (key_text e), lk_drains := add_mset (p\<lparr>dr_acked := True\<rparr>) ps\<rparr> =
      ?s\<lparr>lk_taken := lk_taken ?s @ [key_text e], lk_drains := add_mset (p\<lparr>dr_acked := True\<rparr>) ps\<rparr>"
    by (simp add: m replicate_append_same [symmetric])
  moreover have "link_step keys mark bury es ?s
      (?s\<lparr>lk_taken := lk_taken ?s @ [key_text e], lk_drains := add_mset (p\<lparr>dr_acked := True\<rparr>) ps\<rparr>)"
    by (rule link_step.Taken) (simp_all add: assms)
  ultimately show ?thesis
    using taken_steps [OF assms(1-4), of keys mark bury es m] by simp
qed

text \<open>Where a drain may stand after some of its steps.\<close>

definition stands ::
  "('w \<Rightarrow> string list) \<Rightarrow> drain_run multiset \<Rightarrow> bool \<Rightarrow> 'w \<Rightarrow> 'db \<Rightarrow> 'db link \<Rightarrow> bool" where
  "stands tk ps through w db s \<longleftrightarrow> lk_db s = db \<and> lk_taken s = tk w
     \<and> (\<exists>p. lk_drains s = add_mset p ps \<and> (through \<longrightarrow> dr_left p = []))"

lemma loop_steps:
  fixes keys :: "'db \<Rightarrow> string set"
  assumes "drain_loop (mark stamp) (bury stamp) send S rest r (w, db) = (res, (w', db'))"
    and "\<forall>e \<in> set rest. takes tk (key_text e) (\<lambda>v. vd_action v = Advance) (send e)"
    and "lk_db s = db" "lk_taken s = tk w" "lk_drains s = add_mset p ps"
    and "dr_left p = rest" "\<not> dr_acked p" "dr_seen p = S"
  shows "\<exists>s'. (link_step keys mark bury es)\<^sup>*\<^sup>* s s'
    \<and> stands tk ps (\<exists>report. res = Inr report \<and> pending report = pending r) w' db' s'"
  using assms
proof (induction rest arbitrary: r w db s p)
  case Nil
  then show ?case by (intro exI [of _ s]) (simp add: stands_def)
next
  case (Cons e rest)
  note s = Cons.prems(3-)
  let ?step = "link_step keys mark bury es" and ?p = "next_event e rest p"
  have stop: ?case if "?step\<^sup>*\<^sup>* s s1" "lk_db s1 = db'" "lk_taken s1 = tk w'" "lk_drains s1 = lk_drains s"
      "\<And>report. res = Inr report \<Longrightarrow> pending report \<noteq> pending r" for s1
    using that s(3) by (intro exI [of _ s1]) (auto simp: stands_def)
  have go_on: ?case if "?step\<^sup>*\<^sup>* s s1" "?step s1 s2" "lk_drains s2 = add_mset ?p ps" "lk_taken s2 = tk w1"
      "drain_loop (mark stamp) (bury stamp) send S rest r1 (w1, lk_db s2) = (res, (w', db'))" "pending r1 = pending r"
    for s1 s2 w1 r1
  proof -
    have "dr_left ?p = rest" "\<not> dr_acked ?p" "dr_seen ?p = S" by (simp_all add: next_event_def s)
    from Cons.IH [OF that(5) _ refl that(4,3) this] Cons.prems(2) obtain s' where "?step\<^sup>*\<^sup>* s2 s'"
      "stands tk ps (\<exists>report. res = Inr report \<and> pending report = pending r1) w' db' s'" by auto
    moreover from this(1) that(1,2) have "?step\<^sup>*\<^sup>* s s'" by (meson rtranclp.rtrancl_into_rtrancl rtranclp_trans)
    ultimately show ?thesis using that(6) by auto
  qed
  have sent: "\<exists>n. ?step\<^sup>*\<^sup>* s (s\<lparr>lk_taken := tk u\<rparr>) \<and> tk u = tk w @ replicate n k \<and>
      (\<forall>v. a = Inr v \<longrightarrow> vd_action v = Advance \<longrightarrow> n > 0)"
    if snd: "send e w = (a, u)" and ek: "event_key e = Inr k" "k \<notin> S" for a u k
  proof -
    have k: "key_text e = k" using ek(1) by (simp add: key_text_def)
    have takes: "takes tk k (\<lambda>v. vd_action v = Advance) (send e)" using Cons.prems(2) k by simp
    obtain n where n: "tk u = tk w @ replicate n k" "\<forall>v. a = Inr v \<longrightarrow> vd_action v = Advance \<longrightarrow> n > 0"
      using takes snd unfolding takes_def by blast
    moreover have "?step\<^sup>*\<^sup>* s (s\<lparr>lk_taken := lk_taken s @ replicate n k\<rparr>)"
      using taken_steps [OF s(3,4,5), of keys mark bury es n] ek(2) by (simp add: k s)
    ultimately show ?thesis by (auto simp: s)
  qed
  from Cons.prems(1) show ?case
  proof (cases rule: drain_loop_cases)
    case (unkeyed x)
    with s show ?thesis by (intro stop [of s]) simp_all
  next
    case (settled k)
    have "?step s (s\<lparr>lk_drains := add_mset ?p ps\<rparr>)"
      by (rule link_step.Skip [OF s(3,4)]) (use settled in \<open>simp_all add: s key_text_def\<close>)
    then show ?thesis by (rule go_on [OF rtranclp.rtrancl_refl, of _ w r]) (simp_all add: settled(3) s)
  next
    case (failed k x)
    have "?step\<^sup>*\<^sup>* s (s\<lparr>lk_taken := tk w'\<rparr>)" using sent [OF failed(3,1,2)] by blast
    then show ?thesis by (rule stop) (auto simp: s failed(4,5))
  next
    case (advanced k v u)
    then have k: "key_text e = k" by (simp add: key_text_def)
    obtain n where n: "tk u = tk w @ replicate n k" "n > 0" using sent [OF advanced(3,1,2)] advanced(4) by auto
    let ?a = "s\<lparr>lk_taken := lk_taken s @ replicate n k, lk_drains := add_mset (p\<lparr>dr_acked := True\<rparr>) ps\<rparr>"
    have "?step\<^sup>*\<^sup>* s ?a"
      using acked_steps [OF s(3,4,5) _ n(2), of keys mark bury es] advanced(2) by (simp add: k s)
    moreover have "?step ?a (?a\<lparr>lk_db := mark stamp (key_text e) (lk_db ?a),
        lk_drains := add_mset (next_event e rest (p\<lparr>dr_acked := True\<rparr>)) ps\<rparr>)"
      by (rule link_step.Settle) (simp_all add: s)
    ultimately show ?thesis
      by (rule go_on [of _ _ u "r\<lparr>delivered := delivered r @ [k]\<rparr>"])
        (use advanced(5) in \<open>simp_all add: s n(1) k next_event_def\<close>)
  next
    case (buried k v u)
    then have k: "key_text e = k" by (simp add: key_text_def)
    let ?s = "s\<lparr>lk_taken := tk u\<rparr>"
    have "?step\<^sup>*\<^sup>* s ?s" using sent [OF buried(3,1,2)] by blast
    moreover have "?step ?s (?s\<lparr>lk_db := bury stamp (vd_reason v) e (key_text e) (lk_db ?s),
        lk_dead := insert (key_text e) (lk_dead ?s), lk_drains := add_mset ?p ps\<rparr>)"
      by (rule link_step.Bury) (simp_all add: s k buried(2))
    ultimately show ?thesis
      by (rule go_on [of _ _ u "r\<lparr>dead_lettered := dead_lettered r @ [k]\<rparr>"])
        (use buried(5) in \<open>simp_all add: s k\<close>)
  next
    case (stopped k v h)
    have "?step\<^sup>*\<^sup>* s (s\<lparr>lk_taken := tk w'\<rparr>)" using sent [OF stopped(3,1,2)] by blast
    then show ?thesis by (rule stop) (auto simp: s stopped(4,5))
  qed
qed

section \<open>On the tables of the relay\<close>

interpretation ledger_box: stamped_outbox "load_settled lid" "mark_settled lid" "dead_letter lid" for lid
  by unfold_locales (simp_all add: load_settled_mark load_settled_bury)

abbreviation relay_step :: "string \<Rightarrow> val list \<Rightarrow> relay_db link \<Rightarrow> relay_db link \<Rightarrow> bool" where
  "relay_step lid \<equiv> link_step (load_settled lid) (mark_settled lid) (dead_letter lid)"

text \<open>A prune of the tables and the drain of another ledger forget keys or leave them as they are.\<close>

lemma prune_step: "relay_step lid es s (s\<lparr>lk_db := fst (prune_settled iso_before environ max_age (lk_db s))\<rparr>)"
  by (rule link_step.Forget) (auto simp: load_settled_def prune_settled_def Let_def)

lemma load_settled_other:
  assumes "lid' \<noteq> lid"
  shows "load_settled lid (mark_settled lid' stamp k db) = load_settled lid db"
    and "load_settled lid (dead_letter lid' stamp why e k db) = load_settled lid db"
  using assms by (auto simp: load_settled_def mark_settled_def dead_letter_def row_at_def)

lemma other_ledger_step:
  assumes "lid' \<noteq> lid"
  shows "relay_step lid es s (s\<lparr>lk_db := mark_settled lid' stamp k (lk_db s)\<rparr>)"
    and "relay_step lid es s (s\<lparr>lk_db := dead_letter lid' stamp why e k (lk_db s)\<rparr>)"
  by (rule link_step.Forget, simp add: load_settled_other [OF assms])+

lemma run_through: "run_ok es T A p \<Longrightarrow> dr_left p = [] \<Longrightarrow> key_text ` set es \<subseteq> A"
  by (simp add: run_ok_def)

text \<open>
  C14. The service ends up with the ledger's events in the ledger's order. Drains of one ledger
  may overlap, be cut off at any point, lose replies and send again, and the tables may be
  pruned in between: the first arrivals at the service are, without the dead-lettered keys, an
  initial piece of the projected events; nothing is settled that the service has not taken in or
  that is not dead-lettered; and once one drain has come to its end, every event has arrived.
\<close>

theorem delivery_in_order:
  assumes "distinct (map key_text es)" and "load_settled lid db = {}" and "(relay_step lid es)\<^sup>*\<^sup>* (link_start db) s"
  shows "\<exists>n. first_arrivals (filter (\<lambda>k. k \<notin> lk_dead s) (lk_taken s)) =
        take n (filter (\<lambda>k. k \<notin> lk_dead s) (map key_text es))
     \<and> load_settled lid (lk_db s) \<subseteq> set (lk_taken s) \<union> lk_dead s
     \<and> ((\<exists>p \<in># lk_drains s. dr_left p = []) \<longrightarrow>
          first_arrivals (filter (\<lambda>k. k \<notin> lk_dead s) (lk_taken s)) = filter (\<lambda>k. k \<notin> lk_dead s) (map key_text es))"
proof -
  let ?f = "filter (\<lambda>k. k \<notin> lk_dead s)"
  note ok = ledger_box.reachable_ok [OF assms(2,1,3)]
  obtain n where n: "first_arrivals (?f (lk_taken s)) = take n (?f (map key_text es))"
    using follows_prefix [OF follows_alive [OF link_okD(3) [OF ok] assms(1)]] assms(1) by auto
  moreover have "take n (?f (map key_text es)) = ?f (map key_text es)" if p: "p \<in># lk_drains s" "dr_left p = []" for p
  proof (rule take_all_distinct)
    show "distinct (?f (map key_text es))" using assms(1) by (rule distinct_filter)
    have "key_text ` set es \<subseteq> accounted s" by (rule run_through [OF link_okD(2) [OF ok p(1)] p(2)])
    then have "set (?f (map key_text es)) \<subseteq> set (first_arrivals (?f (lk_taken s)))" by (auto simp: accounted_def)
    then show "set (?f (map key_text es)) \<subseteq> set (take n (?f (map key_text es)))" by (simp only: n)
  qed
  ultimately show ?thesis using link_okD(1) [OF ok] unfolding accounted_def by (intro exI [of _ n]) auto
qed

text \<open>
  An example: two events; a first drain delivers the first one, loses the reply and is cut off; a
  second one sends it again, settles it, and delivers the other.
\<close>

definition two_events :: "val list" where
  "two_events = [VDict [(''idempotency_key'', VStr ''a'')], VDict [(''idempotency_key'', VStr ''b'')]]"

definition at_run :: "nat \<Rightarrow> bool \<Rightarrow> drain_run" where
  "at_run n acked = \<lparr>dr_seen = {}, dr_past = take n two_events, dr_left = drop n two_events, dr_acked = acked\<rparr>"

definition at_link :: "string list \<Rightarrow> string list \<Rightarrow> drain_run multiset \<Rightarrow> relay_db link" where
  "at_link settled arrived runs = \<lparr>lk_db = foldl (\<lambda>db k. mark_settled ''L'' ''t'' k db) empty_db settled,
     lk_taken = arrived, lk_dead = {}, lk_drains = runs\<rparr>"

lemma start_at: "arrived = arrived' \<Longrightarrow>
    relay_step ''L'' two_events (at_link [] arrived {#}) (at_link [] arrived' {#at_run 0 False#})"
  using link_step.Start [of "load_settled ''L''" "mark_settled ''L''" "dead_letter ''L''" two_events "at_link [] arrived {#}"]
  by (simp add: at_link_def at_run_def new_run_def load_settled_def empty_db_def)

lemma taken_at:
  assumes "n < 2"
  shows "relay_step ''L'' two_events (at_link ks arrived {#at_run n False#})
    (at_link ks (arrived @ [key_text (two_events ! n)]) {#at_run n reply#})"
proof -
  have "drop n two_events = two_events ! n # drop (Suc n) two_events"
    using assms by (intro Cons_nth_drop_Suc [symmetric]) (simp add: two_events_def)
  then have "relay_step ''L'' two_events (at_link ks arrived {#at_run n False#})
      ((at_link ks arrived {#at_run n False#})\<lparr>lk_taken := lk_taken (at_link ks arrived {#at_run n False#}) @ [key_text (two_events ! n)],
        lk_drains := {#(at_run n False)\<lparr>dr_acked := reply\<rparr>#}\<rparr>)"
    by (intro link_step.Taken) (simp_all add: at_link_def at_run_def)
  then show ?thesis by (simp add: at_link_def at_run_def)
qed

lemma settle_at:
  assumes "n < 2"
  shows "relay_step ''L'' two_events (at_link ks arrived {#at_run n True#})
    (at_link (ks @ [key_text (two_events ! n)]) arrived {#at_run (Suc n) False#})"
proof -
  have e: "drop n two_events = two_events ! n # drop (Suc n) two_events"
    using assms by (intro Cons_nth_drop_Suc [symmetric]) (simp add: two_events_def)
  have "take (Suc n) two_events = take n two_events @ [two_events ! n]"
    using assms by (intro take_Suc_conv_app_nth) (simp add: two_events_def)
  then have "next_event (two_events ! n) (drop (Suc n) two_events) (at_run n True) = at_run (Suc n) False"
    by (simp add: next_event_def at_run_def)
  moreover have "relay_step ''L'' two_events (at_link ks arrived {#at_run n True#})
      ((at_link ks arrived {#at_run n True#})\<lparr>lk_db := mark_settled ''L'' ''t'' (key_text (two_events ! n)) (lk_db (at_link ks arrived {#at_run n True#})),
        lk_drains := {#next_event (two_events ! n) (drop (Suc n) two_events) (at_run n True)#}\<rparr>)"
    by (rule link_step.Settle) (simp_all add: at_link_def at_run_def e)
  ultimately show ?thesis by (simp add: at_link_def)
qed

lemma cut_at: "relay_step ''L'' two_events (at_link ks arrived {#p#}) (at_link ks arrived {#})"
  using link_step.Stop [of "at_link ks arrived {#p#}" p "{#}"] by (simp add: at_link_def)

lemma one_less_two: "Suc 0 < 2"
  by simp

lemma two_keys: "key_text (two_events ! 0) = ''a''" "key_text (two_events ! Suc 0) = ''b''"
  by (simp_all add: two_events_def key_text_def)

lemma step_first: "relay_step lid es a b \<Longrightarrow> (relay_step lid es)\<^sup>*\<^sup>* b c \<Longrightarrow> (relay_step lid es)\<^sup>*\<^sup>* a c"
  by (rule converse_rtranclp_into_rtranclp)

lemma lost_reply_run:
  "(relay_step ''L'' two_events)\<^sup>*\<^sup>* (link_start empty_db)
     (at_link [''a'', ''b''] [''a'', ''a'', ''b''] {#at_run 2 False#})"
proof -
  let ?S = "relay_step ''L'' two_events"
  have b: "link_start empty_db = at_link [] [] {#}" by (simp add: link_start_def at_link_def)
  note keys = two_keys append.simps
  have s1: "?S (at_link [] [] {#}) (at_link [] [] {#at_run 0 False#})" by (rule start_at) (rule refl)
  have s2: "?S (at_link [] [] {#at_run 0 False#}) (at_link [] [''a''] {#at_run 0 False#})"
    by (rule taken_at [of 0 "[]" "[]" False, unfolded keys]) simp
  have s3: "?S (at_link [] [''a''] {#at_run 0 False#}) (at_link [] [''a''] {#})" by (rule cut_at)
  have s4: "?S (at_link [] [''a''] {#}) (at_link [] [''a''] {#at_run 0 False#})" by (rule start_at) (rule refl)
  have s5: "?S (at_link [] [''a''] {#at_run 0 False#}) (at_link [] [''a'', ''a''] {#at_run 0 True#})"
    by (rule taken_at [of 0 "[]" "[''a'']" True, unfolded keys]) simp
  have s6: "?S (at_link [] [''a'', ''a''] {#at_run 0 True#}) (at_link [''a''] [''a'', ''a''] {#at_run (Suc 0) False#})"
    by (rule settle_at [of 0 "[]" "[''a'', ''a'']", unfolded keys]) simp
  have s7: "?S (at_link [''a''] [''a'', ''a''] {#at_run (Suc 0) False#}) (at_link [''a''] [''a'', ''a'', ''b''] {#at_run (Suc 0) True#})"
    by (rule taken_at [of "Suc 0" "[''a'']" "[''a'', ''a'']" True, unfolded keys]) simp
  have s8: "?S (at_link [''a''] [''a'', ''a'', ''b''] {#at_run (Suc 0) True#}) (at_link [''a'', ''b''] [''a'', ''a'', ''b''] {#at_run (Suc (Suc 0)) False#})"
    by (rule settle_at [of "Suc 0" "[''a'']" "[''a'', ''a'', ''b'']", unfolded keys]) simp
  show ?thesis
    unfolding b numeral_2_eq_2
    by (rule s1 [THEN step_first], rule s2 [THEN step_first],
        rule s3 [THEN step_first], rule s4 [THEN step_first],
        rule s5 [THEN step_first], rule s6 [THEN step_first],
        rule s7 [THEN step_first], rule s8 [THEN step_first],
        rule rtranclp.rtrancl_refl)
qed

theorem delivery_in_order_witness:
  "(let s = at_link [''a'', ''b''] [''a'', ''a'', ''b''] {#at_run 2 False#}
    in first_arrivals (lk_taken s) = [''a'', ''b''] \<and> load_settled ''L'' (lk_db s) \<subseteq> {''a'', ''b''})"
proof -
  let ?s = "at_link [''a'', ''b''] [''a'', ''a'', ''b''] {#at_run 2 False#}"
  have keys: "map key_text two_events = [''a'', ''b'']" by (simp add: two_events_def key_text_def)
  have s: "lk_taken ?s = [''a'', ''a'', ''b'']" "lk_dead ?s = {}" "lk_drains ?s = {#at_run 2 False#}"
    by (simp_all add: at_link_def)
  have "distinct (map key_text two_events)" unfolding keys by simp
  moreover have "load_settled ''L'' empty_db = {}" by (simp add: load_settled_def empty_db_def)
  ultimately obtain n where n: "load_settled ''L'' (lk_db ?s) \<subseteq> set (lk_taken ?s) \<union> lk_dead ?s"
    "(\<exists>p \<in># lk_drains ?s. dr_left p = []) \<longrightarrow> first_arrivals (filter (\<lambda>k. k \<notin> lk_dead ?s) (lk_taken ?s)) =
      filter (\<lambda>k. k \<notin> lk_dead ?s) (map key_text two_events)"
    using delivery_in_order [OF _ _ lost_reply_run] by blast
  have "dr_left (at_run 2 False) = []" by (simp add: at_run_def two_events_def)
  with n(2) have "first_arrivals (lk_taken ?s) = [''a'', ''b'']" unfolding s keys by simp
  moreover have "load_settled ''L'' (lk_db ?s) \<subseteq> {''a'', ''b''}" using n(1) unfolding s by auto
  ultimately show ?thesis by (simp only: Let_def)
qed

text \<open>
  C15. The drain of the code makes only these steps. Given a service that takes in the event a
  request names, once, more often or not at all, and that answers 202 only if it has, a drain,
  also one that ends with an error, leads from any state of the protocol to a state of the
  protocol; and if it reports nothing pending, it has come to its end.
\<close>

theorem drain_follows_protocol:
  assumes "service_contract tk named t"
    and "to_execution_events C document identity key (resolved_key_id key_id identity) = Inr es"
    and "list_all (\<lambda>e. named (py_encode (json_dumps e)) = key_text e) es"
    and "drain C t c iso_age stamp document identity lid key key_id max_age (w, lk_db s) = (res, (w', db'))"
    and "lk_taken s = tk w"
  shows "\<exists>s' p. (relay_step lid es)\<^sup>*\<^sup>* s s' \<and> lk_db s' = db' \<and> lk_taken s' = tk w'
     \<and> lk_drains s' = add_mset p (lk_drains s)
     \<and> (case res of Inr report \<Rightarrow> pending report = [] \<longrightarrow> dr_left p = [] | Inl _ \<Rightarrow> True)"
proof -
  let ?p = "new_run (load_settled lid (lk_db s)) es"
  let ?s = "s\<lparr>lk_drains := add_mset ?p (lk_drains s)\<rparr>"
  have loop: "drain_loop (mark_settled lid stamp) (dead_letter lid stamp) (deliver_with_refresh t c iso_age max_age)
       (load_settled lid (lk_db s)) es empty_report (w, lk_db s) = (res, (w', db'))"
    using assms(2,4) by (simp add: drain_def)
  have "\<forall>e \<in> set es. takes tk (key_text e) (\<lambda>v. vd_action v = Advance) (deliver_with_refresh t c iso_age max_age e)"
    using assms(3) by (auto simp: list_all_iff intro: send_takes [OF assms(1)])
  from loop_steps [where mark = "mark_settled lid" and bury = "dead_letter lid" and stamp = stamp and s = ?s and p = ?p
      and ps = "lk_drains s" and tk = tk and keys = "load_settled lid" and es = es, OF loop this] assms(5)
  obtain s' where
    "(relay_step lid es)\<^sup>*\<^sup>* ?s s'"
    "stands tk (lk_drains s) (\<exists>report. res = Inr report \<and> pending report = pending empty_report) w' db' s'"
    by (auto simp: new_run_def)
  moreover have "relay_step lid es s ?s" by (rule link_step.Start)
  ultimately show ?thesis
    unfolding stands_def by (auto simp: empty_report_def split: sum.split intro: converse_rtranclp_into_rtranclp)
qed

text \<open>The example: the service keeps the bodies, latest first, answers 202 and loses nothing; the key is in the body.\<close>

fun finds :: "string list \<Rightarrow> string \<Rightarrow> string" where
  "finds ks [] = []"
| "finds ks (c # cs) = (case find (\<lambda>k. prefix k (c # cs)) ks of Some k \<Rightarrow> k | None \<Rightarrow> finds ks cs)"

abbreviation relay_keys :: "string list" where
  "relay_keys \<equiv> [''R:h1:task.started'', ''R:h3:task.blocked'']"

definition noting_transport :: "string list transport" where
  "noting_transport = \<lparr>tp_open = (\<lambda>_ data _ bodies. (Inr (202, []), data # bodies)), tp_token = retI None,
     tp_sleep = (\<lambda>_. retI ()), tp_loads = (\<lambda>_. Inr VNone)\<rparr>"

lemma noting_contract: "service_contract (\<lambda>bodies. rev (map (finds relay_keys) bodies)) (finds relay_keys) noting_transport"
  by (auto simp: service_contract_def noting_transport_def takes_def intro: exI [of _ "Suc 0"])

abbreviation relay_identity :: "(string \<times> val) list" where
  "relay_identity \<equiv> [(''run_id'', VStr ''R'')]"

lemma noting_names:
  "(case to_execution_events light_crypto relay_doc relay_identity ''k'' (resolved_key_id None relay_identity) of
      Inr es \<Rightarrow> list_all (\<lambda>e. finds relay_keys (py_encode (json_dumps e)) = key_text e) es
    | Inl _ \<Rightarrow> False)"
  by code_simp

lemma noting_drain:
  "(case drain light_crypto noting_transport (make_client ''https://h'' 1 0) (\<lambda>_. Inr None) ''t'' relay_doc
      relay_identity ''L'' ''k'' None 5 ([], empty_db) of
      (Inr report, (bodies, db)) \<Rightarrow> pending report = [] \<and> rev (map (finds relay_keys) bodies) = relay_keys
    | _ \<Rightarrow> False)"
  by code_simp

theorem drain_follows_protocol_witness:
  "\<exists>es s p. (relay_step ''L'' es)\<^sup>*\<^sup>* (link_start empty_db) s \<and> lk_drains s = {#p#} \<and> dr_left p = []
     \<and> lk_taken s = relay_keys"
proof -
  obtain es where es: "to_execution_events light_crypto relay_doc relay_identity ''k'' (resolved_key_id None relay_identity) = Inr es"
    and named: "list_all (\<lambda>e. finds relay_keys (py_encode (json_dumps e)) = key_text e) es"
    using noting_names by (auto split: sum.splits)
  obtain report bodies db where d: "drain light_crypto noting_transport (make_client ''https://h'' 1 0) (\<lambda>_. Inr None) ''t''
      relay_doc relay_identity ''L'' ''k'' None 5 ([], lk_db (link_start empty_db)) = (Inr report, (bodies, db))"
    and r: "pending report = []" "rev (map (finds relay_keys) bodies) = relay_keys"
    using noting_drain by (auto simp: link_start_def split: prod.splits sum.splits)
  obtain s p where "(relay_step ''L'' es)\<^sup>*\<^sup>* (link_start empty_db) s" "lk_taken s = rev (map (finds relay_keys) bodies)"
    "lk_drains s = add_mset p (lk_drains (link_start empty_db))" "dr_left p = []"
    using drain_follows_protocol [OF noting_contract es named d] r(1) by (auto simp: link_start_def)
  with r(2) show ?thesis by (auto simp: link_start_def)
qed

end
