(* ===== verification/IntakeContract.thy ===== *)
theory IntakeContract
  imports IntakeFacts
begin

text \<open>
  The intake contract (\<open>framework/intake/INTAKE_CONTRACT.md\<close>) as a table over a typed
  manifest, apart from the validator: which rule triggers when. A document of the validator
  represents a typed manifest when it holds the fields of it, absent ones left out; further
  fields do not matter.
\<close>

section \<open>The typed manifest\<close>

record task_view =
  tv_id :: "string option"
  tv_title :: "string option"
  tv_acceptance :: "(string \<times> val) list"
  tv_deps :: "string list"

record manifest_view =
  mv_schema :: "string option"
  mv_source :: "string option"
  mv_version :: "string option"
  mv_checksum :: "string option"
  mv_approved :: bool
  mv_score :: "int option"
  mv_client :: "string option"
  mv_project :: "string option"
  mv_roots :: "string list"
  mv_tasks :: "task_view list"

definition missing :: "string option \<Rightarrow> bool" where
  "missing field \<longleftrightarrow> field = None \<or> field = Some []"

text \<open>The rows of the table \<open>INTAKE-001\<close>, in its order.\<close>

definition contract_rules :: "manifest_view \<Rightarrow> (string \<times> bool) list" where
  "contract_rules v =
     [(''INTAKE.SCHEMA_UNSUPPORTED'', mv_schema v \<noteq> Some ''1.0''),
      (''INTAKE.SOURCE_MISSING'', missing (mv_source v) \<or> missing (mv_version v) \<or> missing (mv_checksum v)),
      (''INTAKE.APPROVAL_INSUFFICIENT'', \<not> mv_approved v \<or> (case mv_score v of None \<Rightarrow> True | Some n \<Rightarrow> n < 90)),
      (''INTAKE.SCOPE_MISSING'', missing (mv_client v) \<or> missing (mv_project v) \<or> mv_roots v = []),
      (''INTAKE.NO_TASKS'', mv_tasks v = []),
      (''INTAKE.TASK_FIELDS_MISSING'',
         \<exists>t \<in> set (mv_tasks v). missing (tv_id t) \<or> missing (tv_title t) \<or> tv_acceptance t = []),
      (''INTAKE.DEP_UNRESOLVED'',
         \<exists>t \<in> set (mv_tasks v). \<exists>d \<in> set (tv_deps t). \<forall>u \<in> set (mv_tasks v). tv_id u \<noteq> Some d)]"

definition broken_rules :: "manifest_view \<Rightarrow> string list" where
  "broken_rules v = map fst (filter snd (contract_rules v))"

section \<open>Documents of a manifest\<close>

fun text_val :: "string option \<Rightarrow> val" where
  "text_val None = VNone"
| "text_val (Some s) = VStr s"

lemma text_val_eq [simp]: "text_val field = VStr s \<longleftrightarrow> field = Some s" "VStr s = text_val field \<longleftrightarrow> field = Some s"
  "hashable (text_val field)" "truthy (text_val field) \<longleftrightarrow> \<not> missing field"
  by (cases field; auto simp: missing_def)+

definition text_at :: "(string \<times> val) list \<Rightarrow> string \<Rightarrow> string option \<Rightarrow> bool" where
  "text_at kvs k field \<longleftrightarrow> dget kvs k = text_val field"

definition section_at :: "(string \<times> val) list \<Rightarrow> string \<Rightarrow> (string \<times> val) list \<Rightarrow> bool" where
  "section_at kvs k d \<longleftrightarrow> map_of kvs k = Some (VDict d) \<or> map_of kvs k = None \<and> d = []"

definition items_at :: "(string \<times> val) list \<Rightarrow> string \<Rightarrow> val list \<Rightarrow> bool" where
  "items_at kvs k xs \<longleftrightarrow> map_of kvs k = Some (VList xs) \<or> map_of kvs k = None \<and> xs = []"

definition represents_task :: "val \<Rightarrow> task_view \<Rightarrow> bool" where
  "represents_task t v \<longleftrightarrow> (\<exists>kvs. t = VDict kvs \<and> text_at kvs ''task_id'' (tv_id v) \<and> text_at kvs ''title'' (tv_title v)
     \<and> section_at kvs ''acceptance'' (tv_acceptance v) \<and> items_at kvs ''depends_on'' (map VStr (tv_deps v)))"

definition represents :: "val \<Rightarrow> manifest_view \<Rightarrow> bool" where
  "represents doc v \<longleftrightarrow> (\<exists>kvs md control scope ts. doc = VDict kvs
     \<and> section_at kvs ''metadata'' md \<and> text_at md ''schema_version'' (mv_schema v)
     \<and> section_at kvs ''intake_control'' control
     \<and> text_at control ''source_iplan'' (mv_source v) \<and> text_at control ''source_iplan_version'' (mv_version v)
     \<and> text_at control ''source_iplan_checksum'' (mv_checksum v)
     \<and> (dget control ''approved'' = VBool (mv_approved v) \<or> dget control ''approved'' = VNone \<and> \<not> mv_approved v)
     \<and> dget control ''exec_ready_score'' = (case mv_score v of None \<Rightarrow> VNone | Some n \<Rightarrow> VInt n)
     \<and> section_at kvs ''isolation_scope'' scope
     \<and> text_at scope ''client_id'' (mv_client v) \<and> text_at scope ''project_id'' (mv_project v)
     \<and> items_at scope ''allowed_roots'' (map VStr (mv_roots v))
     \<and> items_at kvs ''task_graph'' ts \<and> list_all2 represents_task ts (mv_tasks v))"

lemma truthy_text: "text_at kvs k field \<Longrightarrow> truthy (dget kvs k) \<longleftrightarrow> \<not> missing field"
  by (simp add: text_at_def)

lemma truthy_section: "section_at kvs k d \<Longrightarrow> truthy (dget kvs k) \<longleftrightarrow> d \<noteq> []"
  by (auto simp: section_at_def dget_def)

lemma truthy_items: "items_at kvs k xs \<Longrightarrow> truthy (dget kvs k) \<longleftrightarrow> xs \<noteq> []"
  by (auto simp: items_at_def dget_def)

lemma read_section: "section_at kvs k d \<Longrightarrow> get_or (VDict kvs) k (VDict []) = Inr (VDict d)"
  by (auto simp: section_at_def dget_or_def)

lemma read_items: "items_at kvs k xs \<Longrightarrow> get_or (VDict kvs) k (VList []) = Inr (VList xs)"
  by (auto simp: items_at_def dget_or_def)

section \<open>The validator on such a document\<close>

lemma represented_ids:
  "list_all2 represents_task ts vs \<Longrightarrow>
     set_of_field ''task_id'' ts = Inr (map (\<lambda>v. text_val (tv_id v)) vs)"
proof (induction rule: list_all2_induct)
  case (Cons t ts v vs)
  then obtain kvs where "t = VDict kvs" "text_at kvs ''task_id'' (tv_id v)" by (auto simp: represents_task_def)
  with Cons show ?case by (simp add: set_of_field_def text_at_def)
qed (simp add: set_of_field_def)

lemma known_id:
  "in_set (VStr d) (map (\<lambda>v. text_val (tv_id v)) vs) = Inr (\<exists>v \<in> set vs. tv_id v = Some d)"
  by (induction vs) (auto simp: in_set_def)

lemma scan_deps:
  "foldR (\<lambda>bad dep. bindR (in_set dep (map (\<lambda>v. text_val (tv_id v)) vs))
      (\<lambda>known. Inr (bad \<or> \<not> known))) b (map VStr ds)
   = Inr (b \<or> (\<exists>d \<in> set ds. \<forall>v \<in> set vs. tv_id v \<noteq> Some d))"
  by (induction ds arbitrary: b) (auto simp: known_id)

lemma scan_represented:
  assumes "represents_task t v"
  shows "scan_task (map (\<lambda>v. text_val (tv_id v)) vs) flags t =
    Inr (fst flags \<or> missing (tv_id v) \<or> missing (tv_title v) \<or> tv_acceptance v = [],
         snd flags \<or> (\<exists>d \<in> set (tv_deps v). \<forall>u \<in> set vs. tv_id u \<noteq> Some d))"
proof -
  from assms obtain kvs where t: "t = VDict kvs" and f: "text_at kvs ''task_id'' (tv_id v)" "text_at kvs ''title'' (tv_title v)"
    "section_at kvs ''acceptance'' (tv_acceptance v)" "items_at kvs ''depends_on'' (map VStr (tv_deps v))"
    unfolding represents_task_def by blast
  have "all_truthy t [''task_id'', ''title'', ''acceptance''] =
      Inr (\<not> (missing (tv_id v) \<or> missing (tv_title v) \<or> tv_acceptance v = []))"
    by (simp add: t all_truthy_VDict truthy_text [OF f(1)] truthy_text [OF f(2)] truthy_section [OF f(3)])
  then show ?thesis
    unfolding scan_task_def t read_items [OF f(4)] by (simp add: scan_deps)
qed

lemma scan_all_represented:
  "list_all2 represents_task ts us \<Longrightarrow>
     foldR (scan_task (map (\<lambda>v. text_val (tv_id v)) vs)) flags ts =
     Inr (fst flags \<or> (\<exists>t \<in> set us. missing (tv_id t) \<or> missing (tv_title t) \<or> tv_acceptance t = []),
          snd flags \<or> (\<exists>t \<in> set us. \<exists>d \<in> set (tv_deps t). \<forall>u \<in> set vs. tv_id u \<noteq> Some d))"
  by (induction arbitrary: flags rule: list_all2_induct) (auto simp: scan_represented)

text \<open>The findings of rules that are checked one after the other.\<close>

definition reported :: "(string \<times> string \<times> bool) list \<Rightarrow> finding list" where
  "reported rs = concat (map (\<lambda>(r, m, b). if b then [finding_of r m] else []) rs)"

lemma reported_Nil [simp]: "reported [] = []"
  by (simp add: reported_def)

lemma reported_Cons [simp]: "reported ((r, m, b) # rs) = (if b then [finding_of r m] else []) @ reported rs"
  by (simp add: reported_def)

lemma rule_ids_reported: "map rule_id (reported rs) = map fst (filter snd (map (\<lambda>(r, m, b). (r, b)) rs))"
  by (induction rs) auto

lemma reported_fails:
  assumes "\<forall>(r, m, b) \<in> set rs. the (map_of SEVERITY r) = ''error''"
  shows "status_of (reported rs) = ''fail'' \<longleftrightarrow> reported rs \<noteq> []"
proof -
  have "\<forall>f \<in> set (reported rs). severity f = ''error''"
    using assms by (induction rs) (auto simp: severity_finding_of)
  then show ?thesis unfolding status_fail_iff by (cases "reported rs") auto
qed

text \<open>
  C32. The validator reports exactly the rules the contract says are triggered, in the order of
  its table: on every document of a typed manifest \<open>validate_intake\<close> returns, its findings
  name the broken rules, and it fails exactly when there is one.
\<close>

theorem contract_rules_reported:
  assumes "represents doc v"
  shows "\<exists>fs. validate_intake doc = Inr fs \<and> map rule_id fs = broken_rules v
     \<and> (status_of fs = ''fail'' \<longleftrightarrow> broken_rules v \<noteq> [])"
proof -
  from assms obtain kvs md control scope ts where doc: "doc = VDict kvs"
    and md: "section_at kvs ''metadata'' md" "text_at md ''schema_version'' (mv_schema v)"
    and c: "section_at kvs ''intake_control'' control" "text_at control ''source_iplan'' (mv_source v)"
      "text_at control ''source_iplan_version'' (mv_version v)" "text_at control ''source_iplan_checksum'' (mv_checksum v)"
    and a: "dget control ''approved'' = VBool (mv_approved v) \<or> dget control ''approved'' = VNone \<and> \<not> mv_approved v"
    and n: "dget control ''exec_ready_score'' = (case mv_score v of None \<Rightarrow> VNone | Some n \<Rightarrow> VInt n)"
    and s: "section_at kvs ''isolation_scope'' scope" "text_at scope ''client_id'' (mv_client v)"
      "text_at scope ''project_id'' (mv_project v)" "items_at scope ''allowed_roots'' (map VStr (mv_roots v))"
    and t: "items_at kvs ''task_graph'' ts" "list_all2 represents_task ts (mv_tasks v)"
    unfolding represents_def by blast
  obtain b1 b2 b3 b4 b5 b6 b7 where b: "contract_rules v = [(''INTAKE.SCHEMA_UNSUPPORTED'', b1), (''INTAKE.SOURCE_MISSING'', b2),
      (''INTAKE.APPROVAL_INSUFFICIENT'', b3), (''INTAKE.SCOPE_MISSING'', b4), (''INTAKE.NO_TASKS'', b5),
      (''INTAKE.TASK_FIELDS_MISSING'', b6), (''INTAKE.DEP_UNRESOLVED'', b7)]"
    by (simp add: contract_rules_def)
  have bs: "b1 \<longleftrightarrow> mv_schema v \<noteq> Some ''1.0''"
    "b2 \<longleftrightarrow> missing (mv_source v) \<or> missing (mv_version v) \<or> missing (mv_checksum v)"
    "b3 \<longleftrightarrow> \<not> mv_approved v \<or> (case mv_score v of None \<Rightarrow> True | Some n \<Rightarrow> n < 90)"
    "b4 \<longleftrightarrow> missing (mv_client v) \<or> missing (mv_project v) \<or> mv_roots v = []" "b5 \<longleftrightarrow> mv_tasks v = []"
    "b6 \<longleftrightarrow> (\<exists>t \<in> set (mv_tasks v). missing (tv_id t) \<or> missing (tv_title t) \<or> tv_acceptance t = [])"
    "b7 \<longleftrightarrow> (\<exists>t \<in> set (mv_tasks v). \<exists>d \<in> set (tv_deps t). \<forall>u \<in> set (mv_tasks v). tv_id u \<noteq> Some d)"
    using b unfolding contract_rules_def list.inject prod.inject by (simp_all only: simp_thms)
  have schema: "in_set (dget md ''schema_version'') SUPPORTED_SCHEMAS = Inr (\<not> b1)"
    using md(2) by (auto simp: bs text_at_def in_set_def SUPPORTED_SCHEMAS_def)
  have src: "all_truthy (VDict control) [''source_iplan'', ''source_iplan_version'', ''source_iplan_checksum''] = Inr (\<not> b2)"
    by (simp add: bs truthy_text [OF c(2)] truthy_text [OF c(3)] truthy_text [OF c(4)])
  have approval: "(if \<not> truthy (dget control ''approved'') then Inr True else
        bindR (get (VDict control) ''exec_ready_score'') (\<lambda>score.
        bindR (py_int (or_else score (VInt 0))) (\<lambda>n. Inr (n < EXEC_READY_MIN)))) = Inr b3"
    using a by (auto simp: bs n or_else_def py_int_def EXEC_READY_MIN_def split: option.splits)
  have scope: "all_truthy (VDict scope) [''client_id'', ''project_id'', ''allowed_roots''] = Inr (\<not> b4)"
    by (simp add: bs truthy_text [OF s(2)] truthy_text [OF s(3)] truthy_items [OF s(4)])
  have graph: "truthy (VList ts) \<longleftrightarrow> \<not> b5" using list_all2_lengthD [OF t(2)] by (auto simp: bs)
  have scan: "foldR (scan_task (map (\<lambda>v. text_val (tv_id v)) (mv_tasks v))) (False, False) ts
      = Inr (b6, b7)"
    by (simp add: scan_all_represented [OF t(2)] bs)
  let ?rs = "[(''INTAKE.SCHEMA_UNSUPPORTED'', ''unsupported intake schema_version'', b1),
    (''INTAKE.SOURCE_MISSING'', ''source IPLAN id/version/checksum missing'', b2),
    (''INTAKE.APPROVAL_INSUFFICIENT'', ''IPLAN not approved or exec_ready_score below minimum'', b3),
    (''INTAKE.SCOPE_MISSING'', ''isolation_scope is incomplete'', b4), (''INTAKE.NO_TASKS'', ''task_graph is empty'', b5),
    (''INTAKE.TASK_FIELDS_MISSING'', ''a task lacks id/title/acceptance'', b6),
    (''INTAKE.DEP_UNRESOLVED'', ''a depends_on references an unknown task'', b7)]"
  have "validate_intake doc = Inr (reported ?rs)"
    unfolding validate_intake_def doc read_section [OF md(1)] read_section [OF c(1)] read_section [OF s(1)]
      read_items [OF t(1)] bindR_simps get_VDict schema src approval [unfolded get_VDict bindR_simps] scope iter_VList
      represented_ids [OF t(2)] scan graph not_not fst_conv snd_conv
    by (simp add: emit_if_catalogued del: truthy.simps)
  moreover have "map rule_id (reported ?rs) = broken_rules v"
    unfolding rule_ids_reported broken_rules_def b by simp
  moreover have "status_of (reported ?rs) = ''fail'' \<longleftrightarrow> reported ?rs \<noteq> []"
    by (rule reported_fails) (simp add: SEVERITY_def)
  ultimately show ?thesis by (metis Nil_is_map_conv)
qed

text \<open>An example: a newer schema, one point too few, and a dependency that is not there.\<close>

definition faulty_view :: manifest_view where
  "faulty_view = \<lparr>mv_schema = Some ''2.0'', mv_source = Some ''I'', mv_version = Some ''1'', mv_checksum = Some ''c'',
     mv_approved = True, mv_score = Some 89, mv_client = Some ''a'', mv_project = Some ''p'', mv_roots = [''src''],
     mv_tasks = [\<lparr>tv_id = Some ''T1'', tv_title = Some ''t'', tv_acceptance = [(''criteria'', VList [])], tv_deps = [''T0'']\<rparr>]\<rparr>"

definition faulty_control :: "(string \<times> val) list" where
  "faulty_control = [(''source_iplan'', VStr ''I''), (''source_iplan_version'', VStr ''1''),
     (''source_iplan_checksum'', VStr ''c''), (''approved'', VBool True), (''exec_ready_score'', VInt 89)]"

definition faulty_scope :: "(string \<times> val) list" where
  "faulty_scope = [(''client_id'', VStr ''a''), (''project_id'', VStr ''p''), (''allowed_roots'', VList [VStr ''src''])]"

definition faulty_task :: "(string \<times> val) list" where
  "faulty_task = [(''task_id'', VStr ''T1''), (''title'', VStr ''t''), (''acceptance'', VDict [(''criteria'', VList [])]),
     (''depends_on'', VList [VStr ''T0''])]"

definition faulty_doc :: val where
  "faulty_doc = VDict [(''metadata'', VDict [(''schema_version'', VStr ''2.0'')]), (''intake_control'', VDict faulty_control),
     (''isolation_scope'', VDict faulty_scope), (''task_graph'', VList [VDict faulty_task])]"

lemma faulty_represents: "represents faulty_doc faulty_view"
  unfolding represents_def faulty_doc_def
  by (rule exI, rule exI [of _ "[(''schema_version'', VStr ''2.0'')]"], rule exI [of _ faulty_control],
      rule exI [of _ faulty_scope], rule exI [of _ "[VDict faulty_task]"])
    (auto simp: section_at_def text_at_def items_at_def represents_task_def faulty_view_def faulty_control_def
      faulty_scope_def faulty_task_def dget_def)

theorem contract_rules_reported_witness:
  "\<exists>fs. validate_intake faulty_doc = Inr fs \<and> status_of fs = ''fail''
     \<and> map rule_id fs = [''INTAKE.SCHEMA_UNSUPPORTED'', ''INTAKE.APPROVAL_INSUFFICIENT'', ''INTAKE.DEP_UNRESOLVED'']"
proof -
  have "broken_rules faulty_view = [''INTAKE.SCHEMA_UNSUPPORTED'', ''INTAKE.APPROVAL_INSUFFICIENT'', ''INTAKE.DEP_UNRESOLVED'']"
    by (simp add: broken_rules_def contract_rules_def faulty_view_def missing_def)
  with contract_rules_reported [OF faulty_represents] show ?thesis by auto
qed

text \<open>
  Outside the typed manifests the validator is more lenient than the contract, which asks for
  \<open>approved\<close> to be true: any value that Python takes as true is an approval.
\<close>

lemma approved_by_text:
  "map_sum id length (validate_intake (VDict [(''metadata'', VDict [(''schema_version'', VStr ''1.0'')]),
     (''intake_control'', VDict [(''source_iplan'', VStr ''I''), (''source_iplan_version'', VStr ''1''),
       (''source_iplan_checksum'', VStr ''c''), (''approved'', VStr ''no''), (''exec_ready_score'', VInt 90)]),
     (''isolation_scope'', VDict faulty_scope),
     (''task_graph'', VList [VDict [(''task_id'', VStr ''T1''), (''title'', VStr ''t''), (''acceptance'', VStr ''x'')]])])) = Inr 0"
  by code_simp

end
