(* ===== verification/Spec2Isabelle.thy ===== *)
theory Spec2Isabelle
  imports RunClaims Cli LedgerClaims ExecutorClaims WorkerClaims OutcomeClaims RunTotal
    EngineParity ResumeClaims CliClaims SaveClaims EventClaims ModelJail
    CommandClaims DeliveryClaims IntakeContract
begin

text \<open>
  A verification development of the iplan runner: two engines (Claude and Hermes) that take an
  approved implementation plan, run its task graph through an executor, keep a hash-chained
  ledger of it, gate the result, hand it over, and exchange tasks and events with a remote
  service. The source is under \<open>src/platforms/claude/src/iplan_claude\<close>. Hermes
  (\<open>src/platforms/hermes/src/iplan_hermes\<close>) has a run loop of its own text, an executor over a
  model API and its own engine methods, which are modelled (\<open>Hermes\<close>, \<open>Executors\<close>, \<open>Engine\<close>,
  \<open>Cli\<close>); its other modules are copies that differ in names of the engine only, and one model
  stands for both.

  \<^bold>\<open>Values.\<close> \<open>Prelude\<close> has Python's exceptions as a datatype, the result type every fallible
  function returns, and effects as functions on a world of any type, so the effects made
  before an exception stay made. \<open>PyVal\<close> has the values of a parsed document with the reads
  (\<open>x["k"]\<close>, \<open>x.get\<close>, \<open>or\<close>), truth, equality, order and text the code uses. A document is
  read as the code reads it, exceptions included; nothing is assumed to be well typed.

  \<^bold>\<open>The run.\<close> \<open>IntakeRules\<close> validates a manifest and \<open>Intake\<close> builds one from an IPLAN or a
  dispatched payload. \<open>Ledger\<close> is the ledger the loop mutates, as records with the code's
  fields; \<open>ledger_val\<close> renders it as the document that is validated and saved, and \<open>Stored\<close>
  reads it back. \<open>HashChain\<close> is the event log, \<open>Topo\<close> the order, \<open>Loop\<close> the run itself with
  retry, leases, journal, compensation, escalation, reconciliation, resume and landing.
  Clock, ids, sleep, control flag, executor and git are fields of \<open>env\<close>, any functions that
  may raise. \<open>Gate\<close>, \<open>LedgerRules\<close>, \<open>Findings\<close> are the gate over the rule catalogue. The
  loop is analysed once: \<open>LoopFacts\<close> and \<open>StepFacts\<close> say what one write changes, \<open>TaskRun\<close> what
  one task does, \<open>DriveFacts\<close> gives the induction rule of the loop, \<open>RunProps\<close> the rule for a
  whole run, and \<open>RunTasks\<close>, \<open>IntakeFacts\<close>, \<open>GateRun\<close> the invariants carried through it.
  \<open>RunClaims\<close> states them: dependencies, single execution, chained log, lifecycles, owners,
  reconciliation and the verdict of the gate. \<open>RunTotal\<close> shows that a run returns: with total
  callables and a fit manifest no exception is reachable. \<open>LedgerView\<close> is the interface
  \<open>ledger_view\<close>: a change of view of the ledger that the loop neither reads nor overwrites;
  \<open>EngineParity\<close> interprets it with the agent of the leases and shows that the two engines
  agree, \<open>ResumeClaims\<close> with the fields a resume resets, and shows what a resume keeps and that
  a pause is invisible. \<open>Chain\<close> runs IPLANs in the order of their
  dependencies, \<open>Control\<close> resolves blockers, \<open>Handover\<close> writes receipts and audit reports;
  \<open>OutcomeClaims\<close> relates receipts and chains to runs.

  \<^bold>\<open>The jail.\<close> \<open>Sandbox\<close> has the lexical confinement of paths and the guarded effects,
  \<open>Redaction\<close> the removal of secrets, \<open>Executors\<close> the budget and every executor;
  \<open>ExecutorClaims\<close> shows that nothing outside the roots is touched, that evidence is honest
  and redacted, and that budgets stop calls. \<open>WorldFrame\<close> is the frame of the loop towards the
  world: the interface \<open>world_invariant\<close> for what the callables keep, and \<open>beside_env\<close> for
  callables that do the same in a larger world. \<open>RunJail\<close> interprets both with a file system
  that notes its calls, and shows where a whole scripted run can write; \<open>ModelJail\<close> does so for
  a Hermes run whose actions a model writes.

  \<^bold>\<open>The remote side.\<close> \<open>Signing\<close> is the canonical form, signatures and sealed ledgers over any
  cryptography, \<open>Events\<close> the projection of a ledger, \<open>Relay\<close> the tables of the relay store with
  one function per transaction, the HTTP client, the classification of answers and the drain,
  \<open>EventClaims\<close> that the keys it sends are pairwise different, \<open>Vcs\<close> the arguments of
  git, \<open>Receiver\<close> the door, the worker and the heartbeat. The drain is proved over the interface
  \<open>outbox\<close> (and \<open>framed_outbox\<close>), interpreted on the tables in \<open>RelayClaims\<close> and
  \<open>WorkerClaims\<close>. \<open>DeliveryClaims\<close> has any number of drains of one ledger, crashes, lost
  replies and prunes as the step relation \<open>link_step\<close>, shows what the service ends up with
  (interface \<open>stamped_outbox\<close>) and that a drain only makes such steps when the service answers
  202 only for what it has taken in (\<open>service_contract\<close>, which concerns code that is not in the
  repository). \<open>ReceiverClaims\<close> relates the acceptance table to a map and
  has the interleavings of all handlers as the step relation \<open>fleet_step\<close>; \<open>WorkerClaims\<close> shows
  that a worker only makes such steps, and what the door admits.

  \<^bold>\<open>Around it.\<close> \<open>Persistence\<close> is the ledger directory, \<open>Monitoring\<close> SLOs, alerts and telemetry,
  \<open>Engine\<close> the engine adapters, \<open>Cli\<close> the commands, \<open>Parser\<close> their arguments. \<open>SaveClaims\<close> cuts
  a save off anywhere, \<open>CliClaims\<close> reads a written command back, \<open>CommandClaims\<close>
  ties the exit code of a run to the ledger that this run left in the store. \<open>LedgerClaims\<close>
  has the event log, the stored ledger with the query surface over it, and the task order;
  \<open>IntakeContract\<close> compares the validator with the table of the intake contract, written out
  over typed manifests with the contract's own numbers; \<open>IntakeClaims\<close> says when a dispatched
  payload becomes an accepted manifest. \<open>SecurityClaims\<close> has decisions, signatures and what the
  door admits to git. \<open>Examples\<close> evaluates a run in the kernel; the witnesses of the properties
  are instances of it and of smaller examples beside each property.

  \<^bold>\<open>Termination.\<close> Every definition is total. The retry loops decrease the attempts left, the
  order the tasks left, the drain the events left, the parser the arguments left; no
  fuel is used anywhere.

  \<^bold>\<open>Not modelled:\<close> YAML and JSON text beyond the canonical form (files hold documents), the
  pragmas of SQLite, the sockets and threads of the HTTP servers, the texts \<open>argparse\<close> prints and
  its separator \<open>--\<close> (whose treatment differs between versions of Python), the OpenTelemetry and
  model SDKs, git, SHA-256, HMAC and Ed25519 (parameters with their documented laws where a
  property needs one), and package initialisation. Of the faults of a
  disk only missing files and a lock file that cannot be opened are modelled, besides a crash
  during a save; a full disk or missing permissions are not. Python's recursion limit and memory are not bounded.
\<close>

end
